theory Spec2Isabelle
  imports Complex_Main "HOL-Library.Sublist" "HOL-Library.List_Lexorder" "HOL-Library.Char_ord"
begin

section \<open>merge\_pdf.py: images and PDF files of a folder merged into one PDF\<close>

text \<open>
  The script has two functions, \<open>convert_image_to_pdf\<close> and \<open>merge_all_to_pdf\<close>, and a
  main block. Both functions work on the file system and call Pillow, reportlab and PyPDF2.
  The embedding makes the file system an explicit state, every exception a value, and
  the library calls functions of that state.

  Two idealisations are made throughout and matter when the theorems are read.
  \<^item> Page sizes, ratios and positions are Python floats; they are modelled as exact reals,
    so binary rounding is not part of the model.
  \<^item> A path is a string; which file a path denotes is answered by \<open>canon\<close>, a parameter of
    the environment (two strings with the same \<open>canon\<close> are the same file).
\<close>

subsection \<open>Strings: \<open>str.lower\<close> and \<open>str.endswith\<close>\<close>

text \<open>
  File names are byte strings in UTF-8. \<open>str.lower\<close> is modelled on the ASCII letters only:
  the lower-case form of no other character makes or breaks one of the suffixes tested
  below.
\<close>

definition lower_char :: "char \<Rightarrow> char" where
  "lower_char c =
     (let n = (of_char c :: nat) in if 65 \<le> n \<and> n \<le> 90 then char_of (n + 32) else c)"

definition lower :: "string \<Rightarrow> string" where
  "lower s = map lower_char s"

definition endswith :: "string \<Rightarrow> string \<Rightarrow> bool" where
  "endswith s suf = suffix suf s"

subsection \<open>Values: exceptions, images, pages, files\<close>

type_synonym path = string

datatype exn =
    FileNotFoundError | IsADirectoryError | NotADirectoryError | PermissionError
  | FileExistsError | UnidentifiedImageError | PdfReadError
  | ZeroDivisionError | ValueError | EncodeError

text \<open>Each of these classes derives from \<open>Exception\<close>, which is what \<open>except Exception\<close> tests.\<close>

fun is_Exception :: "exn \<Rightarrow> bool" where
  "is_Exception e = True"

text \<open>A decoded image: \<open>img.width\<close>, \<open>img.height\<close> (Pillow keeps them non-negative), \<open>img.mode\<close>.\<close>

record pil_image =
  img_width :: nat
  img_height :: nat
  img_mode :: string

text \<open>
  What \<open>convert_image_to_pdf\<close> renders: the canvas' page size, the arguments of
  \<open>drawImage\<close>, and the JPEG that is drawn (its pixel size, mode, quality and dpi tag).
\<close>

record drawn =
  pagesize :: "real \<times> real"
  x_pos :: real
  y_pos :: real
  new_width :: int
  new_height :: int
  jpeg_size :: "int \<times> int"
  jpeg_mode :: string
  jpeg_quality :: int
  jpeg_dpi :: int

text \<open>A page of a PDF file: one rendered by the converter, or a page of an input document.\<close>

datatype page = Converted drawn | Original nat

datatype node =
    PdfFile "page list"
  | ImageFile pil_image
  | OtherFile
  | Directory "string list"

datatype output_line =
    Successfully_created path
  | Error_occurred exn
  | Created_input_directory path
  | Please_add_files

text \<open>
  The environment is what the run does not change: the resolution of paths, the
  permissions, and whether the JPEG encoder accepts an image of a given pixel size.
\<close>

record env =
  canon :: "path \<Rightarrow> path"
  readable :: "path \<Rightarrow> bool"
  writable :: "path \<Rightarrow> bool"
  removable :: "path \<Rightarrow> bool"
  encodable :: "int \<Rightarrow> int \<Rightarrow> bool"

record world =
  fs :: "path \<rightharpoonup> node"
  stdout :: "output_line list"

record settings =
  page_size :: "real \<times> real"
  fit_to_page :: bool
  maintain_aspect_ratio :: bool
  quality :: int
  dpi :: int

subsection \<open>Floating-point numbers\<close>

text \<open>
  Python's \<open>float\<close> is the IEEE 754 binary64 format, and every arithmetic operation
  returns the exact result rounded to the nearest float, a tie going to the float with
  the even significand. A float is modelled by the real number it denotes, and an
  operation by the exact operation followed by the rounding \<open>fl\<close>.

  \<open>round_half_even\<close> rounds a real to the nearest integer, a tie to the even one.
  \<open>exponent x\<close> is the integer \<open>e\<close> with \<open>2 ^ e \<le> \<bar>x\<bar> < 2 ^ (e + 1)\<close>, found by halving or
  doubling. A float has a significand of 53 bits: the floats with exponent \<open>e\<close> are the
  multiples of \<open>2 ^ (e - 52)\<close>, and below \<open>2 ^ - 1022\<close> (the subnormal range) the multiples of
  \<open>2 ^ - 1074\<close>. The model has no largest float: where a result exceeds the largest binary64
  number (about 1.8e308) Python returns \<open>inf\<close>, and the model the rounded number.
\<close>

definition round_half_even :: "real \<Rightarrow> int" where
  "round_half_even x =
     (let n = \<lfloor>x\<rfloor>; d = x - of_int n in
      if d < 1 / 2 then n else if 1 / 2 < d then n + 1 else if even n then n else n + 1)"

function exponent_up :: "real \<Rightarrow> int" where
  "exponent_up x = (if x < 2 then 0 else exponent_up (x / 2) + 1)"
  by auto
termination
proof (relation "measure (\<lambda>x. nat \<lfloor>x\<rfloor>)")
  show "wf (measure (\<lambda>x::real. nat \<lfloor>x\<rfloor>))" by simp
next
  fix x :: real assume "\<not> x < 2"
  then have "x / 2 \<le> x - 1" by simp
  then have "\<lfloor>x / 2\<rfloor> \<le> \<lfloor>x - 1\<rfloor>" by (rule floor_mono)
  moreover have "1 \<le> \<lfloor>x - 1\<rfloor>" using \<open>\<not> x < 2\<close> by simp
  ultimately show "(x / 2, x) \<in> measure (\<lambda>x. nat \<lfloor>x\<rfloor>)" by simp
qed

function exponent_down :: "real \<Rightarrow> int" where
  "exponent_down x = (if x \<le> 0 \<or> 1 \<le> x then 0 else exponent_down (2 * x) - 1)"
  by auto
termination
proof (relation "measure (\<lambda>x. nat \<lceil>1 / x\<rceil>)")
  show "wf (measure (\<lambda>x::real. nat \<lceil>1 / x\<rceil>))" by simp
next
  fix x :: real assume "\<not> (x \<le> 0 \<or> 1 \<le> x)"
  then have x: "0 < x" "x < 1" by simp_all
  define y where "y = 1 / x"
  have y: "1 < y" using x by (simp add: y_def)
  have eq: "1 / (2 * x) = y / 2" by (simp add: y_def)
  have "\<lceil>y / 2\<rceil> < \<lceil>y\<rceil>"
  proof (cases "2 \<le> y")
    case True
    then have "y / 2 \<le> y - 1" by simp
    then have "\<lceil>y / 2\<rceil> \<le> \<lceil>y - 1\<rceil>" by (rule ceiling_mono)
    then show ?thesis by simp
  next
    case False
    then have "\<lceil>y / 2\<rceil> \<le> 1" by (simp add: ceiling_le_iff)
    moreover have "2 \<le> \<lceil>y\<rceil>" using y by (simp add: le_ceiling_iff)
    ultimately show ?thesis by linarith
  qed
  moreover have "0 < \<lceil>y\<rceil>" using y by (simp add: less_ceiling_iff)
  ultimately have "nat \<lceil>y / 2\<rceil> < nat \<lceil>y\<rceil>" by simp
  then show "(2 * x, x) \<in> measure (\<lambda>x. nat \<lceil>1 / x\<rceil>)"
    unfolding in_measure eq by (simp only: y_def)
qed

definition exponent :: "real \<Rightarrow> int" where
  "exponent x = (if 1 \<le> \<bar>x\<bar> then exponent_up \<bar>x\<bar> else exponent_down \<bar>x\<bar>)"

definition fl :: "real \<Rightarrow> real" where
  "fl x = (let q = 2 powi (max (exponent x) (- 1022) - 52)
           in real_of_int (round_half_even (x / q)) * q)"

text \<open>
  The operators as Python applies them: an \<open>int\<close> operand of a mixed operation is
  converted to \<open>float\<close> first, and \<open>int\<close> of a float truncates towards zero.
\<close>

definition float_of_int :: "int \<Rightarrow> real" where
  "float_of_int n = fl (of_int n)"

definition float_sub :: "real \<Rightarrow> real \<Rightarrow> real" where
  "float_sub a b = fl (a - b)"

definition float_mul :: "real \<Rightarrow> real \<Rightarrow> real" where
  "float_mul a b = fl (a * b)"

definition float_truediv :: "real \<Rightarrow> real \<Rightarrow> real" where
  "float_truediv a b = fl (a / b)"

definition py_int :: "real \<Rightarrow> int" where
  "py_int x = (if 0 \<le> x then \<lfloor>x\<rfloor> else \<lceil>x\<rceil>)"

text \<open>
  \<open>reportlab.lib.units\<close> and \<open>reportlab.lib.pagesizes\<close>: \<open>inch = 72.0\<close>, \<open>cm = inch / 2.54\<close>,
  \<open>mm = cm * 0.1\<close>, \<open>letter = (8.5 * inch, 11 * inch)\<close>, \<open>A4 = (210 * mm, 297 * mm)\<close>. The
  literals 2.54 and 0.1 are the floats nearest to them.
\<close>

definition inch :: real where
  "inch = 72"

definition cm :: real where
  "cm = float_truediv inch (fl 2.54)"

definition mm :: real where
  "mm = float_mul cm (fl 0.1)"

definition letter :: "real \<times> real" where
  "letter = (float_mul 8.5 inch, float_mul (float_of_int 11) inch)"

definition A4 :: "real \<times> real" where
  "A4 = (float_mul (float_of_int 210) mm, float_mul (float_of_int 297) mm)"

subsection \<open>The operating system and the libraries\<close>

definition print :: "output_line \<Rightarrow> world \<Rightarrow> world" where
  "print l w = w\<lparr>stdout := stdout w @ [l]\<rparr>"

text \<open>\<open>posixpath.join\<close> of two components.\<close>

definition os_path_join :: "path \<Rightarrow> path \<Rightarrow> path" where
  "os_path_join a b =
     (if prefix ''/'' b then b
      else if a = [] \<or> endswith a ''/'' then a @ b
      else a @ ''/'' @ b)"

definition os_path_exists :: "env \<Rightarrow> path \<Rightarrow> world \<Rightarrow> bool" where
  "os_path_exists E p w = (fs w (canon E p) \<noteq> None)"

definition os_listdir :: "env \<Rightarrow> path \<Rightarrow> world \<Rightarrow> exn + string list" where
  "os_listdir E p w =
     (case fs w (canon E p) of
        None \<Rightarrow> Inl FileNotFoundError
      | Some (Directory names) \<Rightarrow>
          if readable E (canon E p) then Inr names else Inl PermissionError
      | Some _ \<Rightarrow> Inl NotADirectoryError)"

definition os_makedirs :: "env \<Rightarrow> path \<Rightarrow> world \<Rightarrow> exn + world" where
  "os_makedirs E p w =
     (if fs w (canon E p) \<noteq> None then Inl FileExistsError
      else if writable E (canon E p) then Inr (w\<lparr>fs := (fs w)(canon E p \<mapsto> Directory [])\<rparr>)
      else Inl PermissionError)"

definition os_remove :: "env \<Rightarrow> path \<Rightarrow> world \<Rightarrow> exn + world" where
  "os_remove E p w =
     (case fs w (canon E p) of
        None \<Rightarrow> Inl FileNotFoundError
      | Some (Directory names) \<Rightarrow> Inl IsADirectoryError
      | Some _ \<Rightarrow>
          if removable E (canon E p) then Inr (w\<lparr>fs := (fs w)(canon E p := None)\<rparr>)
          else Inl PermissionError)"

text \<open>\<open>open(p, 'rb')\<close> followed by a read of the whole file.\<close>

definition read_file :: "env \<Rightarrow> path \<Rightarrow> world \<Rightarrow> exn + node" where
  "read_file E p w =
     (case fs w (canon E p) of
        None \<Rightarrow> Inl FileNotFoundError
      | Some (Directory names) \<Rightarrow> Inl IsADirectoryError
      | Some n \<Rightarrow> if readable E (canon E p) then Inr n else Inl PermissionError)"

text \<open>\<open>open(p, 'wb')\<close> followed by a write of the whole file.\<close>

definition write_file :: "env \<Rightarrow> path \<Rightarrow> node \<Rightarrow> world \<Rightarrow> exn + world" where
  "write_file E p n w =
     (case fs w (canon E p) of
        Some (Directory names) \<Rightarrow> Inl IsADirectoryError
      | _ \<Rightarrow>
          if writable E (canon E p) then Inr (w\<lparr>fs := (fs w)(canon E p \<mapsto> n)\<rparr>)
          else Inl PermissionError)"

text \<open>\<open>PIL.Image.open\<close>: the file must hold an image Pillow identifies.\<close>

definition Image_open :: "env \<Rightarrow> path \<Rightarrow> world \<Rightarrow> exn + pil_image" where
  "Image_open E p w =
     (case read_file E p w of
        Inl e \<Rightarrow> Inl e
      | Inr (ImageFile img) \<Rightarrow> Inr img
      | Inr _ \<Rightarrow> Inl UnidentifiedImageError)"

text \<open>What \<open>PdfMerger.append\<close> reads: the pages of the PDF file at the path.\<close>

definition read_pdf :: "env \<Rightarrow> path \<Rightarrow> world \<Rightarrow> exn + page list" where
  "read_pdf E p w =
     (case read_file E p w of
        Inl e \<Rightarrow> Inl e
      | Inr (PdfFile pages) \<Rightarrow> Inr pages
      | Inr _ \<Rightarrow> Inl PdfReadError)"

subsection \<open>\<open>convert_image_to_pdf\<close>\<close>

definition margin :: int where
  "margin = 20"

text \<open>Lines 35 and 36: \<open>page_width - 2 * margin\<close>, a float less an \<open>int\<close>.\<close>

definition available_width :: "settings \<Rightarrow> real" where
  "available_width opts = float_sub (fst (page_size opts)) (float_of_int (2 * margin))"

definition available_height :: "settings \<Rightarrow> real" where
  "available_height opts = float_sub (snd (page_size opts)) (float_of_int (2 * margin))"

text \<open>Lines 40 to 42: a float divided by an \<open>int\<close>, and the smaller of the two quotients.\<close>

definition width_ratio :: "settings \<Rightarrow> pil_image \<Rightarrow> real" where
  "width_ratio opts img =
     float_truediv (available_width opts) (float_of_int (int (img_width img)))"

definition height_ratio :: "settings \<Rightarrow> pil_image \<Rightarrow> real" where
  "height_ratio opts img =
     float_truediv (available_height opts) (float_of_int (int (img_height img)))"

definition resize_ratio :: "settings \<Rightarrow> pil_image \<Rightarrow> real" where
  "resize_ratio opts img = min (width_ratio opts img) (height_ratio opts img)"

text \<open>
  Lines 45 to 51: the size handed to \<open>img.resize\<close>, \<open>int (img.width * resize_ratio)\<close> by
  \<open>int (img.height * resize_ratio)\<close>, or the truncated available width and height.
\<close>

definition target_size :: "settings \<Rightarrow> pil_image \<Rightarrow> int \<times> int" where
  "target_size opts img =
     (if maintain_aspect_ratio opts
      then (py_int (float_mul (float_of_int (int (img_width img))) (resize_ratio opts img)),
            py_int (float_mul (float_of_int (int (img_height img))) (resize_ratio opts img)))
      else (py_int (available_width opts), py_int (available_height opts)))"

text \<open>
  Lines 32 to 62. The two divisions raise \<open>ZeroDivisionError\<close> on a zero divisor, and
  Pillow's \<open>Image.resize\<close> raises \<open>ValueError\<close> ("height and width must be > 0") when a
  requested side is below 1. The position is \<open>(page_width - new_width) / 2\<close> by
  \<open>(page_height - new_height) / 2\<close>, a float less an \<open>int\<close>, divided by the \<open>int\<close> 2. The
  result is the position and size later given to \<open>drawImage\<close>.
\<close>

definition centred :: "real \<Rightarrow> int \<Rightarrow> real" where
  "centred page_side new_side =
     float_truediv (float_sub page_side (float_of_int new_side)) (float_of_int 2)"

definition placement :: "settings \<Rightarrow> pil_image \<Rightarrow> exn + (real \<times> real) \<times> (int \<times> int)" where
  "placement opts img =
     (if fit_to_page opts then
        if img_width img = 0 \<or> img_height img = 0 then Inl ZeroDivisionError
        else
          let (new_width, new_height) = target_size opts img in
          if new_width < 1 \<or> new_height < 1 then Inl ValueError
          else Inr ((centred (fst (page_size opts)) new_width,
                     centred (snd (page_size opts)) new_height),
                    (new_width, new_height))
      else Inr ((0, 0), (int (img_width img), int (img_height img))))"

text \<open>
  A page side that is a whole number of points, of at most \<open>2 ^ 52\<close>: on such a side the
  subtractions and the halving above are exact.
\<close>

definition whole_points :: "real \<Rightarrow> bool" where
  "whole_points p = (p = real_of_int \<lfloor>p\<rfloor> \<and> \<bar>p\<bar> \<le> 2 ^ 52)"

definition to_RGB :: "pil_image \<Rightarrow> pil_image" where
  "to_RGB img = (if img_mode img \<noteq> ''RGB'' then img\<lparr>img_mode := ''RGB''\<rparr> else img)"

text \<open>Lines 64 to 80: the JPEG is encoded and drawn on a canvas of the page size.\<close>

definition render :: "env \<Rightarrow> settings \<Rightarrow> pil_image \<Rightarrow> exn + drawn" where
  "render E opts img0 =
     (let img = to_RGB img0 in
      case placement opts img of
        Inl e \<Rightarrow> Inl e
      | Inr ((x, y), (w, h)) \<Rightarrow>
          if encodable E w h
          then Inr \<lparr>pagesize = page_size opts, x_pos = x, y_pos = y,
                    new_width = w, new_height = h, jpeg_size = (w, h),
                    jpeg_mode = img_mode img, jpeg_quality = quality opts,
                    jpeg_dpi = dpi opts\<rparr>
          else Inl EncodeError)"

definition convert_image_to_pdf ::
  "env \<Rightarrow> path \<Rightarrow> path \<Rightarrow> settings \<Rightarrow> world \<Rightarrow> exn + world" where
  "convert_image_to_pdf E image_path output_pdf_path opts w =
     (case Image_open E image_path w of
        Inl e \<Rightarrow> Inl e
      | Inr img \<Rightarrow>
          (case render E opts img of
             Inl e \<Rightarrow> Inl e
           | Inr d \<Rightarrow> write_file E output_pdf_path (PdfFile [Converted d]) w))"

subsection \<open>\<open>merge_all_to_pdf\<close>\<close>

text \<open>The local variables of the function, and the world it runs in.\<close>

record locals =
  merger :: "page list"
  temp_files :: "path list"
  world :: world

definition image_extensions :: "string list" where
  "image_extensions = [''.jpg'', ''.jpeg'', ''.png'', ''.gif'', ''.bmp'', ''.tiff'']"

definition is_pdf_name :: "string \<Rightarrow> bool" where
  "is_pdf_name filename = endswith (lower filename) ''.pdf''"

definition is_image_name :: "string \<Rightarrow> bool" where
  "is_image_name filename = list_ex (\<lambda>ext. endswith (lower filename) ext) image_extensions"

definition temp_name :: "string \<Rightarrow> path" where
  "temp_name filename = ''temp_'' @ filename @ ''.pdf''"

definition merger_append :: "env \<Rightarrow> path \<Rightarrow> locals \<Rightarrow> exn + locals" where
  "merger_append E p m =
     (case read_pdf E p (world m) of
        Inl e \<Rightarrow> Inl e
      | Inr pages \<Rightarrow> Inr (m\<lparr>merger := merger m @ pages\<rparr>))"

definition merger_write :: "env \<Rightarrow> path \<Rightarrow> locals \<Rightarrow> exn + locals" where
  "merger_write E p m =
     (case write_file E p (PdfFile (merger m)) (world m) of
        Inl e \<Rightarrow> Inl e
      | Inr w \<Rightarrow> Inr (m\<lparr>world := w\<rparr>))"

text \<open>Lines 102 and 103: a PDF file is appended as it is.\<close>

definition add_pdf :: "env \<Rightarrow> path \<Rightarrow> locals \<Rightarrow> exn option \<times> locals" where
  "add_pdf E filepath m =
     (case merger_append E filepath m of
        Inl e \<Rightarrow> (Some e, m)
      | Inr m1 \<Rightarrow> (None, m1))"

text \<open>
  Lines 105 to 116: an image is converted to a temporary PDF in the working directory,
  which is appended and then recorded in \<open>temp_files\<close>.
\<close>

definition add_image ::
  "env \<Rightarrow> settings \<Rightarrow> path \<Rightarrow> string \<Rightarrow> locals \<Rightarrow> exn option \<times> locals" where
  "add_image E opts filepath filename m =
     (let temp_pdf = temp_name filename in
      case convert_image_to_pdf E filepath temp_pdf opts (world m) of
        Inl e \<Rightarrow> (Some e, m)
      | Inr w1 \<Rightarrow>
          (case merger_append E temp_pdf (m\<lparr>world := w1\<rparr>) of
             Inl e \<Rightarrow> (Some e, m\<lparr>world := w1\<rparr>)
           | Inr m2 \<Rightarrow> (None, m2\<lparr>temp_files := temp_files m2 @ [temp_pdf]\<rparr>)))"

text \<open>
  The body of the \<open>for\<close> loop, lines 99 to 116. The first component of the result is the
  exception that left the body, if one did.
\<close>

definition process_file ::
  "env \<Rightarrow> settings \<Rightarrow> path \<Rightarrow> string \<Rightarrow> locals \<Rightarrow> exn option \<times> locals" where
  "process_file E opts input_folder filename m =
     (let filepath = os_path_join input_folder filename in
      if is_pdf_name filename then add_pdf E filepath m
      else if is_image_name filename then add_image E opts filepath filename m
      else (None, m))"

fun process_files ::
  "env \<Rightarrow> settings \<Rightarrow> path \<Rightarrow> string list \<Rightarrow> locals \<Rightarrow> exn option \<times> locals" where
  "process_files E opts input_folder [] m = (None, m)"
| "process_files E opts input_folder (filename # rest) m =
     (case process_file E opts input_folder filename m of
        (Some e, m1) \<Rightarrow> (Some e, m1)
      | (None, m1) \<Rightarrow> process_files E opts input_folder rest m1)"

text \<open>Lines 98 to 120 once \<open>os.listdir\<close> has returned \<open>names\<close>.\<close>

definition merge_listing ::
  "env \<Rightarrow> path \<Rightarrow> path \<Rightarrow> settings \<Rightarrow> string list \<Rightarrow> locals \<Rightarrow> exn option \<times> locals" where
  "merge_listing E input_folder output_pdf opts names m =
     (case process_files E opts input_folder (sort names) m of
        (Some e, m1) \<Rightarrow> (Some e, m1)
      | (None, m1) \<Rightarrow>
          (case merger_write E output_pdf m1 of
             Inl e \<Rightarrow> (Some e, m1)
           | Inr m2 \<Rightarrow>
               (None, m2\<lparr>world := print (Successfully_created output_pdf) (world m2)\<rparr>)))"

text \<open>The \<open>try\<close> block, lines 96 to 120.\<close>

definition try_block ::
  "env \<Rightarrow> path \<Rightarrow> path \<Rightarrow> settings \<Rightarrow> locals \<Rightarrow> exn option \<times> locals" where
  "try_block E input_folder output_pdf opts m =
     (case os_listdir E input_folder (world m) of
        Inl e \<Rightarrow> (Some e, m)
      | Inr names \<Rightarrow> merge_listing E input_folder output_pdf opts names m)"

text \<open>The \<open>except Exception as e\<close> clause, lines 122 and 123.\<close>

definition except_block :: "exn option \<times> locals \<Rightarrow> exn option \<times> locals" where
  "except_block r =
     (case r of
        (Some e, m) \<Rightarrow>
          if is_Exception e then (None, m\<lparr>world := print (Error_occurred e) (world m)\<rparr>)
          else (Some e, m)
      | (None, m) \<Rightarrow> (None, m))"

text \<open>The loop of the \<open>finally\<close> clause: a removal that fails is passed over.\<close>

fun remove_temp_files :: "env \<Rightarrow> path list \<Rightarrow> world \<Rightarrow> world" where
  "remove_temp_files E [] w = w"
| "remove_temp_files E (temp_file # rest) w =
     remove_temp_files E rest (case os_remove E temp_file w of Inl e \<Rightarrow> w | Inr w1 \<Rightarrow> w1)"

text \<open>
  The \<open>finally\<close> clause, lines 124 to 131. \<open>merger.close()\<close> drops the pages the merger
  holds. The list \<open>temp_files\<close> is kept in the result, to be observed.
\<close>

definition finally_block :: "env \<Rightarrow> exn option \<times> locals \<Rightarrow> exn option \<times> locals" where
  "finally_block E r =
     (case r of
        (raised, m) \<Rightarrow>
          (raised, m\<lparr>merger := [], world := remove_temp_files E (temp_files m) (world m)\<rparr>))"

definition initial_locals :: "world \<Rightarrow> locals" where
  "initial_locals w = \<lparr>merger = [], temp_files = [], world = w\<rparr>"

text \<open>
  The function returns no value; the model returns the exception that leaves the call
  (if any) and the final state.
\<close>

definition merge_all_to_pdf ::
  "env \<Rightarrow> path \<Rightarrow> path \<Rightarrow> settings \<Rightarrow> world \<Rightarrow> exn option \<times> locals" where
  "merge_all_to_pdf E input_folder output_pdf opts w =
     finally_block E (except_block (try_block E input_folder output_pdf opts (initial_locals w)))"

text \<open>The same from the point where \<open>os.listdir\<close> has returned \<open>names\<close>.\<close>

definition merge_from_listing ::
  "env \<Rightarrow> path \<Rightarrow> path \<Rightarrow> settings \<Rightarrow> string list \<Rightarrow> world \<Rightarrow> exn option \<times> locals" where
  "merge_from_listing E input_folder output_pdf opts names w =
     finally_block E
       (except_block (merge_listing E input_folder output_pdf opts names (initial_locals w)))"

subsection \<open>The main block\<close>

definition input_directory :: path where
  "input_directory = ''Experience''"

definition output_pdf_file :: path where
  "output_pdf_file = input_directory @ ''.pdf''"

definition main_settings :: settings where
  "main_settings =
     \<lparr>page_size = A4, fit_to_page = True, maintain_aspect_ratio = True,
      quality = 90, dpi = 300\<rparr>"

text \<open>Lines 147 to 153. An exception of \<open>os.makedirs\<close> is not caught.\<close>

definition main :: "env \<Rightarrow> world \<Rightarrow> exn option \<times> world" where
  "main E w =
     (if \<not> os_path_exists E input_directory w then
        (case os_makedirs E input_directory w of
           Inl e \<Rightarrow> (Some e, w)
         | Inr w1 \<Rightarrow>
             (None, print Please_add_files (print (Created_input_directory input_directory) w1)))
      else
        (case merge_all_to_pdf E input_directory output_pdf_file main_settings w of
           (raised, m) \<Rightarrow> (raised, world m)))"

subsection \<open>The specification's vocabulary\<close>

text \<open>
  The kinds of the specification's data model: an entry is a Document when its name ends
  in \<open>.pdf\<close>, an Image when it ends in one of the six image suffixes, each compared
  without regard to case, and Ignored otherwise.
\<close>

datatype kind = DocumentKind | ImageKind | IgnoredKind

definition classify :: "string \<Rightarrow> kind" where
  "classify filename =
     (if suffix ''.pdf'' (lower filename) then DocumentKind
      else if \<exists>ext \<in> set image_extensions. suffix ext (lower filename) then ImageKind
      else IgnoredKind)"

text \<open>
  The pages the specification expects of one entry, read off the folder as it is before
  the run: the pages of a Document, the one page converted from an Image.
\<close>

definition contribution :: "env \<Rightarrow> settings \<Rightarrow> path \<Rightarrow> world \<Rightarrow> string \<Rightarrow> page list" where
  "contribution E opts input_folder w filename =
     (case classify filename of
        DocumentKind \<Rightarrow>
          (case fs w (canon E (os_path_join input_folder filename)) of
             Some (PdfFile pages) \<Rightarrow> pages
           | _ \<Rightarrow> [])
      | ImageKind \<Rightarrow>
          (case fs w (canon E (os_path_join input_folder filename)) of
             Some (ImageFile img) \<Rightarrow>
               (case render E opts img of Inr d \<Rightarrow> [Converted d] | Inl e \<Rightarrow> [])
           | _ \<Rightarrow> [])
      | IgnoredKind \<Rightarrow> [])"

text \<open>The concatenation in ascending order of the file names.\<close>

definition expected_output ::
  "env \<Rightarrow> settings \<Rightarrow> path \<Rightarrow> world \<Rightarrow> string list \<Rightarrow> page list" where
  "expected_output E opts input_folder w names =
     concat (map (contribution E opts input_folder w) (sort names))"

text \<open>The world with the file at one place replaced (or absent), and the same for a state.\<close>

definition with_node :: "path \<Rightarrow> node option \<Rightarrow> world \<Rightarrow> world" where
  "with_node l x w = w\<lparr>fs := (fs w)(l := x)\<rparr>"

definition with_node_in :: "path \<Rightarrow> node option \<Rightarrow> locals \<Rightarrow> locals" where
  "with_node_in l x m = m\<lparr>world := with_node l x (world m)\<rparr>"

subsection \<open>An invariant of the loop\<close>

text \<open>Every recorded temporary file holds a PDF file until the clean-up.\<close>

definition temps_are_pdf :: "env \<Rightarrow> locals \<Rightarrow> bool" where
  "temps_are_pdf E m = (\<forall>p \<in> set (temp_files m). \<exists>pages. fs (world m) (canon E p) = Some (PdfFile pages))"

text \<open>
  The places a run can read or write: the folder, the output, and for every entry that is
  not Ignored the entry itself and its temporary file.
\<close>

definition touched :: "env \<Rightarrow> path \<Rightarrow> path \<Rightarrow> string list \<Rightarrow> path list" where
  "touched E input_folder output_pdf names =
     canon E input_folder # canon E output_pdf #
     concat (map (\<lambda>f. [canon E (os_path_join input_folder f), canon E (temp_name f)])
               (filter (\<lambda>f. classify f \<noteq> IgnoredKind) names))"

subsection \<open>Concrete files, environments and worlds\<close>

text \<open>A resolution of paths that drops a leading \<open>./\<close>: \<open>./x\<close> and \<open>x\<close> are the same file.\<close>

definition strip_dot :: "path \<Rightarrow> path" where
  "strip_dot p = (if prefix ''./'' p then drop 2 p else p)"

text \<open>Every permission granted; the encoder's limit is that of libjpeg.\<close>

definition permissive :: env where
  "permissive =
     \<lparr>canon = strip_dot, readable = (\<lambda>p. True), writable = (\<lambda>p. True),
      removable = (\<lambda>p. True), encodable = (\<lambda>w h. w \<le> 65500 \<and> h \<le> 65500)\<rparr>"

text \<open>The defaults of the two functions' keyword parameters.\<close>

definition default_settings :: settings where
  "default_settings =
     \<lparr>page_size = letter, fit_to_page = True, maintain_aspect_ratio = True,
      quality = 85, dpi = 300\<rparr>"

definition square_image :: pil_image where
  "square_image = \<lparr>img_width = 100, img_height = 100, img_mode = ''RGB''\<rparr>"

definition wide_image :: pil_image where
  "wide_image = \<lparr>img_width = 10000, img_height = 1, img_mode = ''RGB''\<rparr>"

definition poster_image :: pil_image where
  "poster_image = \<lparr>img_width = 3000, img_height = 2000, img_mode = ''CMYK''\<rparr>"

definition image_world :: world where
  "image_world =
     \<lparr>fs = [''in'' \<mapsto> Directory [''wide.png'', ''a.png'', ''poster.jpg''],
            ''in/a.png'' \<mapsto> ImageFile square_image,
            ''in/wide.png'' \<mapsto> ImageFile wide_image,
            ''in/poster.jpg'' \<mapsto> ImageFile poster_image],
      stdout = []\<rparr>"

definition fitted_square :: drawn where
  "fitted_square =
     \<lparr>pagesize = letter, x_pos = 20, y_pos = 110, new_width = 572, new_height = 572,
      jpeg_size = (572, 572), jpeg_mode = ''RGB'', jpeg_quality = 85, jpeg_dpi = 300\<rparr>"


definition native_settings :: settings where
  "native_settings = default_settings\<lparr>fit_to_page := False\<rparr>"

definition native_poster :: drawn where
  "native_poster =
     \<lparr>pagesize = letter, x_pos = 0, y_pos = 0, new_width = 3000, new_height = 2000,
      jpeg_size = (3000, 2000), jpeg_mode = ''RGB'', jpeg_quality = 85, jpeg_dpi = 300\<rparr>"

definition banner_image :: pil_image where
  "banner_image = \<lparr>img_width = 200, img_height = 50, img_mode = ''L''\<rparr>"

definition fitted_banner :: drawn where
  "fitted_banner =
     \<lparr>pagesize = letter, x_pos = 20, y_pos = 649 / 2, new_width = 572, new_height = 143,
      jpeg_size = (572, 143), jpeg_mode = ''RGB'', jpeg_quality = 85, jpeg_dpi = 300\<rparr>"

definition folder_world :: world where
  "folder_world =
     \<lparr>fs = [''in'' \<mapsto> Directory [''c.jpg'', ''notes.txt'', ''b.pdf'', ''a.png''],
            ''in/a.png'' \<mapsto> ImageFile square_image,
            ''in/b.pdf'' \<mapsto> PdfFile [Original 1, Original 2],
            ''in/c.jpg'' \<mapsto> ImageFile banner_image,
            ''in/notes.txt'' \<mapsto> OtherFile],
      stdout = []\<rparr>"


definition unreadable_temp :: env where
  "unreadable_temp = permissive\<lparr>readable := (\<lambda>p. p \<noteq> ''temp_a.png.pdf'')\<rparr>"

definition bare_world :: world where
  "bare_world = \<lparr>fs = Map.empty, stdout = []\<rparr>"

text \<open>The working directory as input folder, holding a document named like a temporary file.\<close>

definition alias_world :: world where
  "alias_world =
     \<lparr>fs = [''.'' \<mapsto> Directory [''temp_a.png.pdf'', ''a.png''],
            ''a.png'' \<mapsto> ImageFile square_image,
            ''temp_a.png.pdf'' \<mapsto> PdfFile [Original 1, Original 2, Original 3]],
      stdout = []\<rparr>"

text \<open>Folders with a subdirectory, named like a document or not, and the folder without it.\<close>

definition subdir_world :: world where
  "subdir_world =
     \<lparr>fs = [''in'' \<mapsto> Directory [''old.pdf'', ''b.pdf''],
            ''in/b.pdf'' \<mapsto> PdfFile [Original 1, Original 2],
            ''in/old.pdf'' \<mapsto> Directory [''x.pdf''],
            ''in/old.pdf/x.pdf'' \<mapsto> PdfFile [Original 9]],
      stdout = []\<rparr>"

definition plain_world :: world where
  "plain_world =
     \<lparr>fs = [''in'' \<mapsto> Directory [''b.pdf''],
            ''in/b.pdf'' \<mapsto> PdfFile [Original 1, Original 2]],
      stdout = []\<rparr>"

definition nested_world :: world where
  "nested_world =
     \<lparr>fs = [''in'' \<mapsto> Directory [''photos'', ''b.pdf''],
            ''in/b.pdf'' \<mapsto> PdfFile [Original 1, Original 2],
            ''in/photos'' \<mapsto> Directory [''x.pdf''],
            ''in/photos/x.pdf'' \<mapsto> PdfFile [Original 9]],
      stdout = []\<rparr>"

text \<open>
  Further images: a photograph of 4000 by 3000 pixels, whose exactly scaled height on a
  letter page is the whole number 429; an image of 279 by 279 pixels on a page one float
  narrower than letter (611.9999999999999 wide); an image of 13 by 23 pixels on a page
  944.9130434782609 wide. The page widths are written as the fractions the floats denote.
\<close>

definition fitted_poster :: drawn where
  "fitted_poster =
     \<lparr>pagesize = letter, x_pos = 20, y_pos = 411 / 2, new_width = 572, new_height = 381,
      jpeg_size = (572, 381), jpeg_mode = ''RGB'', jpeg_quality = 85, jpeg_dpi = 300\<rparr>"

definition photo_image :: pil_image where
  "photo_image = \<lparr>img_width = 4000, img_height = 3000, img_mode = ''RGB''\<rparr>"

definition fitted_photo :: drawn where
  "fitted_photo =
     \<lparr>pagesize = letter, x_pos = 20, y_pos = 182, new_width = 572, new_height = 428,
      jpeg_size = (572, 428), jpeg_mode = ''RGB'', jpeg_quality = 85, jpeg_dpi = 300\<rparr>"

definition tight_settings :: settings where
  "tight_settings = default_settings\<lparr>page_size := (5383208929591295 / 8796093022208, 792)\<rparr>"

definition tight_image :: pil_image where
  "tight_image = \<lparr>img_width = 279, img_height = 279, img_mode = ''RGB''\<rparr>"

definition fitted_tight :: drawn where
  "fitted_tight =
     \<lparr>pagesize = (5383208929591295 / 8796093022208, 792),
      x_pos = 351843720888319 / 17592186044416, y_pos = 110,
      new_width = 572, new_height = 572,
      jpeg_size = (572, 572), jpeg_mode = ''RGB'', jpeg_quality = 85, jpeg_dpi = 300\<rparr>"

definition skew_settings :: settings where
  "skew_settings = default_settings\<lparr>page_size := (8311543028332455 / 8796093022208, 2000)\<rparr>"

definition skew_image :: pil_image where
  "skew_image = \<lparr>img_width = 13, img_height = 23, img_mode = ''RGB''\<rparr>"

definition fitted_skew :: drawn where
  "fitted_skew =
     \<lparr>pagesize = (8311543028332455 / 8796093022208, 2000),
      x_pos = 359874936256423 / 17592186044416, y_pos = 200,
      new_width = 904, new_height = 1600,
      jpeg_size = (904, 1600), jpeg_mode = ''RGB'', jpeg_quality = 85, jpeg_dpi = 300\<rparr>"

definition photo_world :: world where
  "photo_world =
     \<lparr>fs = [''in'' \<mapsto> Directory [''photo.jpg'', ''skew.png'', ''tight.png''],
            ''in/photo.jpg'' \<mapsto> ImageFile photo_image,
            ''in/skew.png'' \<mapsto> ImageFile skew_image,
            ''in/tight.png'' \<mapsto> ImageFile tight_image],
      stdout = []\<rparr>"

section \<open>Properties\<close>

lemma is_Exception_all: "is_Exception e"
  by simp

subsection \<open>Rounding to the nearest float\<close>

declare exponent_up.simps [simp del] exponent_down.simps [simp del]

lemma exponent_up_bounds:
  "1 \<le> x \<Longrightarrow> 2 powi exponent_up x \<le> x \<and> x < 2 powi (exponent_up x + 1) \<and> 0 \<le> exponent_up x"
proof (induction x rule: exponent_up.induct)
  case (1 x)
  show ?case
  proof (cases "x < 2")
    case True
    then show ?thesis using 1(2) by (subst (1 2 3) exponent_up.simps) simp
  next
    case False
    then have ih: "2 powi exponent_up (x / 2) \<le> x / 2 \<and> x / 2 < 2 powi (exponent_up (x / 2) + 1)
        \<and> 0 \<le> exponent_up (x / 2)"
      using 1 by simp
    have e: "exponent_up x = exponent_up (x / 2) + 1"
      using False by (subst exponent_up.simps) simp
    show ?thesis unfolding e using ih by (simp add: power_int_add)
  qed
qed

lemma exponent_down_bounds:
  "0 < x \<Longrightarrow> x < 1 \<Longrightarrow> 2 powi exponent_down x \<le> x \<and> x < 2 powi (exponent_down x + 1)"
proof (induction x rule: exponent_down.induct)
  case (1 x)
  have e: "exponent_down x = exponent_down (2 * x) - 1"
    using 1(2,3) by (subst exponent_down.simps) simp
  show ?case
  proof (cases "2 * x < 1")
    case True
    then have "2 powi exponent_down (2 * x) \<le> 2 * x \<and> 2 * x < 2 powi (exponent_down (2 * x) + 1)"
      using 1 by simp
    then show ?thesis unfolding e by (simp add: power_int_add power_int_diff)
  next
    case False
    then have "exponent_down (2 * x) = 0" by (subst exponent_down.simps) simp
    then show ?thesis unfolding e using False 1(3) by simp
  qed
qed

lemma exponent_bounds:
  assumes "x \<noteq> 0"
  shows "2 powi exponent x \<le> \<bar>x\<bar>" and "\<bar>x\<bar> < 2 powi (exponent x + 1)"
  using assms exponent_up_bounds[of "\<bar>x\<bar>"] exponent_down_bounds[of "\<bar>x\<bar>"]
  by (auto simp: exponent_def)

lemma two_powi_mono: "a \<le> b \<Longrightarrow> (2::real) powi a \<le> 2 powi b"
  by (rule power_int_increasing) simp_all

lemma exponent_unique:
  assumes "2 powi e \<le> \<bar>x\<bar>" and "\<bar>x\<bar> < 2 powi (e + 1)"
  shows "exponent x = e"
proof -
  have nz: "x \<noteq> 0"
  proof
    assume "x = 0"
    with assms(1) have "(2::real) powi e \<le> 0" by simp
    moreover have "0 < (2::real) powi e" by simp
    ultimately show False by linarith
  qed
  note b = exponent_bounds[OF nz]
  have "\<not> exponent x + 1 \<le> e"
  proof
    assume "exponent x + 1 \<le> e"
    then have "(2::real) powi (exponent x + 1) \<le> 2 powi e" by (rule two_powi_mono)
    with b(2) assms(1) show False by linarith
  qed
  moreover have "\<not> e + 1 \<le> exponent x"
  proof
    assume "e + 1 \<le> exponent x"
    then have "(2::real) powi (e + 1) \<le> 2 powi exponent x" by (rule two_powi_mono)
    with b(1) assms(2) show False by linarith
  qed
  ultimately show ?thesis by linarith
qed

lemma round_half_even_close: "\<bar>real_of_int (round_half_even z) - z\<bar> \<le> 1 / 2"
  unfolding round_half_even_def Let_def by (auto; linarith)

lemma round_half_even_int [simp]: "round_half_even (of_int n) = n"
  by (simp add: round_half_even_def)


lemma round_half_even_le: "z \<le> real_of_int n \<Longrightarrow> round_half_even z \<le> n"
proof -
  assume a: "z \<le> real_of_int n"
  have f: "\<lfloor>z\<rfloor> \<le> n" using a by (simp add: floor_le_iff)
  show ?thesis
  proof (cases "\<lfloor>z\<rfloor> = n")
    case True
    then have "z - of_int \<lfloor>z\<rfloor> \<le> 0" using a by simp
    then show ?thesis using True by (simp add: round_half_even_def Let_def)
  next
    case False
    then have "\<lfloor>z\<rfloor> + 1 \<le> n" using f by simp
    then show ?thesis unfolding round_half_even_def Let_def by auto
  qed
qed

lemma fl_0 [simp]: "fl 0 = 0"
  using round_half_even_int[of 0] by (simp add: fl_def Let_def)

lemma fl_error_quantum:
  "\<bar>fl x - x\<bar> \<le> 2 powi (max (exponent x) (- 1022) - 52) / 2"
proof -
  define q :: real where "q = 2 powi (max (exponent x) (- 1022) - 52)"
  have q: "0 < q" by (simp add: q_def)
  have "fl x - x = (real_of_int (round_half_even (x / q)) - x / q) * q"
    using q by (simp add: fl_def Let_def q_def[symmetric] algebra_simps)
  then have "\<bar>fl x - x\<bar> = \<bar>real_of_int (round_half_even (x / q)) - x / q\<bar> * q"
    using q by (simp add: abs_mult)
  also have "\<dots> \<le> (1 / 2) * q"
    using q round_half_even_close[of "x / q"] by (intro mult_right_mono) simp_all
  finally show ?thesis by (simp add: q_def)
qed

lemma exponent_ge:
  assumes "2 powi e \<le> \<bar>x\<bar>"
  shows "e \<le> exponent x"
proof (rule ccontr)
  assume "\<not> e \<le> exponent x"
  then have "exponent x + 1 \<le> e" by simp
  then have "(2::real) powi (exponent x + 1) \<le> 2 powi e" by (rule two_powi_mono)
  moreover have "x \<noteq> 0"
  proof
    assume "x = 0"
    with assms have "(2::real) powi e \<le> 0" by simp
    moreover have "0 < (2::real) powi e" by simp
    ultimately show False by linarith
  qed
  ultimately show False using exponent_bounds(2)[of x] assms by linarith
qed

lemma exponent_less:
  assumes "x \<noteq> 0" and "\<bar>x\<bar> < 2 powi e"
  shows "exponent x < e"
proof (rule ccontr)
  assume "\<not> exponent x < e"
  then have "(2::real) powi e \<le> 2 powi exponent x" by (intro two_powi_mono) simp
  then show False using exponent_bounds(1)[OF assms(1)] assms(2) by linarith
qed

text \<open>Relative error of rounding in the normal range.\<close>

lemma fl_error:
  assumes "2 powi (- 1022) \<le> \<bar>x\<bar>"
  shows "\<bar>fl x - x\<bar> \<le> \<bar>x\<bar> / 2 ^ 53"
proof -
  have e: "- 1022 \<le> exponent x" using assms by (rule exponent_ge)
  have nz: "x \<noteq> 0" using assms e exponent_less[of x "- 1022"] by (cases "x = 0") auto
  have "\<bar>fl x - x\<bar> \<le> 2 powi (exponent x - 52) / 2"
    using fl_error_quantum[of x] e by (simp add: max_def)
  also have "\<dots> = 2 powi exponent x / 2 ^ 53"
    by (simp add: power_int_diff)
  also have "\<dots> \<le> \<bar>x\<bar> / 2 ^ 53"
    using exponent_bounds(1)[OF nz] by (simp add: divide_right_mono)
  finally show ?thesis .
qed

text \<open>Absolute error below the normal range.\<close>

lemma fl_error_small:
  assumes "\<bar>x\<bar> < 2 powi (- 1022)"
  shows "\<bar>fl x - x\<bar> \<le> 2 powi (- 1075)"
proof (cases "x = 0")
  case True
  then show ?thesis by simp
next
  case False
  then have "exponent x < - 1022" using assms by (rule exponent_less)
  then have "\<bar>fl x - x\<bar> \<le> 2 powi (- 1074) / 2"
    using fl_error_quantum[of x] by (simp add: max_def)
  also have "\<dots> = 2 powi (- 1075)"
    using power_int_diff[of "2::real" "- 1074" 1] by simp
  finally show ?thesis .
qed

lemma fl_value:
  assumes "2 powi e \<le> \<bar>x\<bar>" and "\<bar>x\<bar> < 2 powi (e + 1)" and "- 1022 \<le> e"
  shows "fl x = real_of_int (round_half_even (x / 2 powi (e - 52))) * 2 powi (e - 52)"
  using exponent_unique[OF assms(1,2)] assms(3) by (simp add: fl_def Let_def max_def)


lemma fl_nonpos: "x \<le> 0 \<Longrightarrow> fl x \<le> 0"
  using round_half_even_le[of "x / 2 powi (max (exponent x) (- 1022) - 52)" 0]
  by (simp add: fl_def Let_def mult_le_0_iff divide_le_0_iff)

text \<open>Numbers with a significand below 2^53 are floats: rounding leaves them unchanged.\<close>

lemma fl_exact:
  assumes x: "x = real_of_int m * 2 powi k" and m: "\<bar>m\<bar> < 2 ^ 53" and k: "- 1074 \<le> k"
  shows "fl x = x"
proof (cases "x = 0")
  case True
  then show ?thesis by simp
next
  case False
  define j where "j = max (exponent x) (- 1022) - 52"
  have "\<bar>x\<bar> = real_of_int \<bar>m\<bar> * 2 powi k" by (simp add: x abs_mult)
  also have "\<dots> < 2 ^ 53 * 2 powi k"
  proof (rule mult_strict_right_mono)
    have "real_of_int \<bar>m\<bar> < real_of_int (2 ^ 53)" using m by (simp only: of_int_less_iff)
    then show "real_of_int \<bar>m\<bar> < 2 ^ 53" by simp
  qed simp
  also have "\<dots> = 2 powi (53 + k)" by (simp add: power_int_add)
  finally have "exponent x < 53 + k" using False exponent_less by blast
  then have jk: "j \<le> k" using k by (simp add: j_def)
  have "x / 2 powi j = real_of_int m * 2 powi (k - j)"
    by (simp add: x power_int_diff)
  also have "\<dots> = real_of_int (m * 2 ^ nat (k - j))"
    using jk by (simp add: power_int_def)
  finally have "round_half_even (x / 2 powi j) = m * 2 ^ nat (k - j)"
    by (simp only: round_half_even_int)
  then have "fl x = real_of_int (m * 2 ^ nat (k - j)) * 2 powi j"
    by (simp add: fl_def Let_def j_def)
  also have "\<dots> = real_of_int m * (2 powi (k - j) * 2 powi j)"
    using jk by (simp add: power_int_def)
  also have "2 powi (k - j) * 2 powi j = (2::real) powi k"
    by (simp flip: power_int_add)
  finally show ?thesis by (simp add: x)
qed

lemma fl_of_int: "\<bar>m\<bar> < 2 ^ 53 \<Longrightarrow> fl (real_of_int m) = real_of_int m"
  using fl_exact[of "real_of_int m" m 0] by simp

lemma fl_of_nat: "n < 2 ^ 53 \<Longrightarrow> fl (real n) = real n"
  using fl_of_int[of "int n"] by simp

lemma fl_half_int: "\<bar>m\<bar> < 2 ^ 53 \<Longrightarrow> fl (real_of_int m / 2) = real_of_int m / 2"
  using fl_exact[of "real_of_int m / 2" m "-1"] by simp

text \<open>A float that is at least 1 comes from a number in the normal range.\<close>

lemma fl_ge_1_normal:
  assumes "1 \<le> fl x"
  shows "2 powi (- 1022) \<le> x"
proof (rule ccontr)
  assume n: "\<not> 2 powi (- 1022) \<le> x"
  have p: "(2::real) powi (- 1022) \<le> 1 / 4" "(2::real) powi (- 1075) \<le> 1 / 4"
    by (simp_all add: power_int_minus_divide)
  show False
  proof (cases "x \<le> 0")
    case True
    then have "fl x \<le> 0" by (rule fl_nonpos)
    with assms show False by simp
  next
    case False
    then have "\<bar>x\<bar> < 2 powi (- 1022)" using n by simp
    then have "\<bar>fl x - x\<bar> \<le> 2 powi (- 1075)" by (rule fl_error_small)
    then show False using assms n p by linarith
  qed
qed

lemma fl_upper:
  assumes "2 powi (- 1022) \<le> x"
  shows "fl x \<le> x * (1 + 1 / 2 ^ 53)"
proof -
  have "0 < x" using assms zero_less_power_int[of "2::real" "- 1022"] by linarith
  then have "\<bar>fl x - x\<bar> \<le> x / 2 ^ 53" using fl_error[of x] assms by simp
  moreover have "x * (1 + 1 / 2 ^ 53) = x + x / 2 ^ 53" by (simp add: algebra_simps)
  ultimately show ?thesis by linarith
qed

lemma fl_lower:
  assumes "2 powi (- 1022) \<le> x"
  shows "x * (1 - 1 / 2 ^ 53) \<le> fl x"
proof -
  have "0 < x" using assms zero_less_power_int[of "2::real" "- 1022"] by linarith
  then have "\<bar>fl x - x\<bar> \<le> x / 2 ^ 53" using fl_error[of x] assms by simp
  moreover have "x * (1 - 1 / 2 ^ 53) = x - x / 2 ^ 53" by (simp add: algebra_simps)
  ultimately show ?thesis by linarith
qed

lemma fl_eq:
  assumes "2 powi e \<le> \<bar>x\<bar>" and "\<bar>x\<bar> < 2 powi (e + 1)" and "- 1022 \<le> e"
    and "round_half_even (x / 2 powi (e - 52)) = m"
    and "y = real_of_int m * 2 powi (e - 52)"
  shows "fl x = y"
  using fl_value[OF assms(1,2,3)] assms(4,5) by simp

subsection \<open>Truncation and the operators on floats\<close>

lemma py_int_nonpos: "x \<le> 0 \<Longrightarrow> py_int x \<le> 0"
  by (auto simp: py_int_def ceiling_le_iff)

lemma py_int_le: "0 \<le> x \<Longrightarrow> real_of_int (py_int x) \<le> x"
  by (simp add: py_int_def)

lemma py_int_ge_1:
  assumes "1 \<le> py_int x"
  shows "1 \<le> x" and "real_of_int (py_int x) \<le> x" and "x - 1 < real_of_int (py_int x)"
proof -
  have pos: "0 \<le> x" using assms py_int_nonpos[of x] by (cases "0 \<le> x") auto
  then have f: "py_int x = \<lfloor>x\<rfloor>" by (simp add: py_int_def)
  show "1 \<le> x" using assms unfolding f by (simp add: le_floor_iff)
  show "real_of_int (py_int x) \<le> x" unfolding f by simp
  show "x - 1 < real_of_int (py_int x)" unfolding f by linarith
qed

lemma float_of_int_exact: "\<bar>n\<bar> < 2 ^ 53 \<Longrightarrow> float_of_int n = real_of_int n"
  by (simp add: float_of_int_def fl_of_int)

lemma float_of_nat_exact: "n < 2 ^ 53 \<Longrightarrow> float_of_int (int n) = real n"
  using float_of_int_exact[of "int n"] by simp


lemma float_of_int_2 [simp]: "float_of_int 2 = 2"
  using float_of_int_exact[of 2] by simp

lemma float_of_int_margin [simp]: "float_of_int (2 * margin) = 40"
  using float_of_int_exact[of 40] by (simp add: margin_def)

lemma available_width_eq: "available_width opts = fl (fst (page_size opts) - 40)"
  by (simp add: available_width_def float_sub_def)

lemma available_height_eq: "available_height opts = fl (snd (page_size opts) - 40)"
  by (simp add: available_height_def float_sub_def)

lemma centred_eq: "centred p n = fl (fl (p - fl (real_of_int n)) / 2)"
  unfolding centred_def float_of_int_2
  by (simp add: float_truediv_def float_sub_def float_of_int_def)

lemma to_RGB_fields [simp]:
  "img_width (to_RGB img) = img_width img"
  "img_height (to_RGB img) = img_height img"
  "img_mode (to_RGB img) = ''RGB''"
  by (simp_all add: to_RGB_def)

subsection \<open>A page that leaves no room\<close>





subsection \<open>What a successful conversion has done\<close>

lemma convert_success:
  assumes "convert_image_to_pdf E image_path output_pdf_path opts w = Inr w'"
  obtains img d where "Image_open E image_path w = Inr img" "render E opts img = Inr d"
    "w' = w\<lparr>fs := (fs w)(canon E output_pdf_path \<mapsto> PdfFile [Converted d])\<rparr>"
  using assms
  by (auto simp: convert_image_to_pdf_def write_file_def split: sum.splits option.splits node.splits if_splits)

lemma render_success:
  assumes "render E opts img = Inr d"
  obtains x y nw nh where "placement opts (to_RGB img) = Inr ((x, y), (nw, nh))"
    "d = \<lparr>pagesize = page_size opts, x_pos = x, y_pos = y, new_width = nw, new_height = nh,
          jpeg_size = (nw, nh), jpeg_mode = ''RGB'', jpeg_quality = quality opts, jpeg_dpi = dpi opts\<rparr>"
    "encodable E nw nh"
  using assms
  by (auto simp: render_def Let_def split: sum.splits prod.splits if_splits)

lemma placement_to_RGB [simp]: "placement opts (to_RGB img) = placement opts img"
  by (simp add: placement_def target_size_def resize_ratio_def width_ratio_def height_ratio_def)

lemma target_size_to_RGB [simp]: "target_size opts (to_RGB img) = target_size opts img"
  by (simp add: target_size_def resize_ratio_def width_ratio_def height_ratio_def)

lemma placement_fit_success:
  assumes "fit_to_page opts" "placement opts img = Inr ((x, y), (nw, nh))"
  shows "0 < img_width img" "0 < img_height img" "(nw, nh) = target_size opts img" "1 \<le> nw" "1 \<le> nh"
    "x = centred (fst (page_size opts)) nw"
    "y = centred (snd (page_size opts)) nh"
  using assms by (auto simp: placement_def split: if_splits prod.splits)

subsection \<open>The rounding error of the scaling\<close>

text \<open>
  A side \<open>W\<close> scaled by the smaller of the two rounded quotients, the product rounded
  again: when the result is at least 1, no number involved is subnormal, and the result
  differs from the exactly scaled side by two relative rounding errors of \<open>2 ^ - 53\<close>.
\<close>

lemma scaled_bounds:
  fixes a b W H :: real
  assumes W: "0 < W" "W < 2 ^ 53" and H: "0 < H" "H < 2 ^ 53"
    and y: "1 \<le> fl (W * min (fl (a / W)) (fl (b / H)))"
  shows "W * min (a / W) (b / H) * (1 - 1 / 2 ^ 53)\<^sup>2 \<le> fl (W * min (fl (a / W)) (fl (b / H)))"
    and "fl (W * min (fl (a / W)) (fl (b / H))) \<le> W * min (a / W) (b / H) * (1 + 1 / 2 ^ 53)\<^sup>2"
proof -
  define r where "r = min (fl (a / W)) (fl (b / H))"
  define \<rho> where "\<rho> = min (a / W) (b / H)"
  define \<nu> :: real where "\<nu> = 2 powi (- 1022)"
  define c1 :: real where "c1 = 1 - 1 / 2 ^ 53"
  define c2 :: real where "c2 = 1 + 1 / 2 ^ 53"
  have c: "0 < c1" "c1 \<le> 1" "1 \<le> c2" "c2 \<le> 2" by (simp_all add: c1_def c2_def)
  have \<nu>: "0 < \<nu>" "\<nu> * 2 ^ 55 \<le> 1 / 4" "2 powi (- 1075) \<le> \<nu>"
    by (simp_all add: \<nu>_def power_int_minus_divide)
  have y': "1 \<le> fl (W * r)" using y by (simp add: r_def)
  have Wr: "\<nu> \<le> W * r" using fl_ge_1_normal[OF y'] by (simp add: \<nu>_def)
  have rpos: "0 < r"
  proof (rule ccontr)
    assume "\<not> 0 < r"
    then have "W * r \<le> 0" using W(1) by (simp add: mult_nonneg_nonpos)
    with Wr \<nu>(1) show False by linarith
  qed
  have up: "fl (W * r) \<le> W * r * c2"
    using fl_upper[of "W * r"] Wr by (simp add: \<nu>_def c2_def)
  have lo: "W * r * c1 \<le> fl (W * r)"
    using fl_lower[of "W * r"] Wr by (simp add: \<nu>_def c1_def)
  have normal: "\<nu> \<le> q" if q: "r \<le> fl q" for q
  proof (rule ccontr)
    assume n: "\<not> \<nu> \<le> q"
    have "0 < q"
    proof (rule ccontr)
      assume "\<not> 0 < q"
      then have "fl q \<le> 0" by (intro fl_nonpos) simp
      with q rpos show False by linarith
    qed
    then have "\<bar>q\<bar> < 2 powi (- 1022)" using n by (simp add: \<nu>_def)
    then have "\<bar>fl q - q\<bar> \<le> 2 powi (- 1075)" by (rule fl_error_small)
    then have "fl q \<le> 2 * \<nu>" using n \<nu>(3) by linarith
    then have "r \<le> 2 * \<nu>" using q by linarith
    then have "W * r \<le> 2 ^ 53 * (2 * \<nu>)"
      using W rpos by (intro mult_mono) simp_all
    then have "W * r * c2 \<le> 2 ^ 53 * (2 * \<nu>) * 2"
    proof (rule mult_mono)
      show "c2 \<le> 2" by (rule c(4))
      show "0 \<le> 2 ^ 53 * (2 * \<nu>)" using \<nu>(1) by simp
      show "0 \<le> c2" using c(3) by simp
    qed
    also have "\<dots> = \<nu> * 2 ^ 55" by simp
    finally show False using up y' \<nu>(2) by linarith
  qed
  have na: "\<nu> \<le> a / W" by (rule normal) (simp add: r_def)
  have nb: "\<nu> \<le> b / H" by (rule normal) (simp add: r_def)
  have fa: "a / W * c1 \<le> fl (a / W)" "fl (a / W) \<le> a / W * c2"
    using fl_lower[of "a / W"] fl_upper[of "a / W"] na by (simp_all add: \<nu>_def c1_def c2_def)
  have fb: "b / H * c1 \<le> fl (b / H)" "fl (b / H) \<le> b / H * c2"
    using fl_lower[of "b / H"] fl_upper[of "b / H"] nb by (simp_all add: \<nu>_def c1_def c2_def)
  have \<rho>pos: "0 < \<rho>" using na nb \<nu>(1) by (simp add: \<rho>_def)
  have rlo: "\<rho> * c1 \<le> r"
  proof -
    have "\<rho> \<le> a / W" "\<rho> \<le> b / H" by (simp_all add: \<rho>_def)
    then have "\<rho> * c1 \<le> a / W * c1" "\<rho> * c1 \<le> b / H * c1"
      using c(1) by (simp_all only: mult_right_mono less_imp_le)
    then show ?thesis using fa(1) fb(1) by (simp add: r_def)
  qed
  have rup: "r \<le> \<rho> * c2"
  proof (cases "a / W \<le> b / H")
    case True
    then have "\<rho> = a / W" by (simp add: \<rho>_def)
    moreover have "r \<le> fl (a / W)" by (simp add: r_def)
    ultimately show ?thesis using fa(2) by simp
  next
    case False
    then have "\<rho> = b / H" by (simp add: \<rho>_def)
    moreover have "r \<le> fl (b / H)" by (simp add: r_def)
    ultimately show ?thesis using fb(2) by simp
  qed
  have "W * \<rho> * c1\<^sup>2 = W * (\<rho> * c1) * c1" by (simp add: power2_eq_square)
  also have "\<dots> \<le> W * r * c1"
    using W(1) c(1) rlo by (intro mult_right_mono mult_left_mono) simp_all
  also note lo
  finally show "W * min (a / W) (b / H) * (1 - 1 / 2 ^ 53)\<^sup>2 \<le> fl (W * min (fl (a / W)) (fl (b / H)))"
    by (simp only: \<rho>_def c1_def r_def)
  note up
  also have "W * r * c2 \<le> W * (\<rho> * c2) * c2"
    using W(1) c(3) rup by (intro mult_right_mono mult_left_mono) simp_all
  also have "\<dots> = W * \<rho> * c2\<^sup>2" by (simp add: power2_eq_square)
  finally show "fl (W * min (fl (a / W)) (fl (b / H))) \<le> W * min (a / W) (b / H) * (1 + 1 / 2 ^ 53)\<^sup>2"
    by (simp only: \<rho>_def c2_def r_def)
qed

lemma target_size_maintain:
  assumes "maintain_aspect_ratio opts" "img_width img < 2 ^ 53" "img_height img < 2 ^ 53"
  shows "target_size opts img =
     (py_int (fl (real (img_width img) *
          min (fl (available_width opts / real (img_width img)))
              (fl (available_height opts / real (img_height img))))),
      py_int (fl (real (img_height img) *
          min (fl (available_width opts / real (img_width img)))
              (fl (available_height opts / real (img_height img))))))"
  using assms
  by (simp add: target_size_def resize_ratio_def width_ratio_def height_ratio_def
      float_mul_def float_truediv_def float_of_nat_exact)

lemma target_size_bounds:
  assumes m: "maintain_aspect_ratio opts"
    and w: "0 < img_width img" "img_width img < 2 ^ 53"
    and h: "0 < img_height img" "img_height img < 2 ^ 53"
    and t: "target_size opts img = (nw, nh)" and n: "1 \<le> nw" "1 \<le> nh"
  defines "\<rho> \<equiv> min (available_width opts / real (img_width img))
                    (available_height opts / real (img_height img))"
  shows "real (img_width img) * \<rho> * (1 - 1 / 2 ^ 53)\<^sup>2 - 1 < real_of_int nw"
    and "real_of_int nw \<le> real (img_width img) * \<rho> * (1 + 1 / 2 ^ 53)\<^sup>2"
    and "real (img_height img) * \<rho> * (1 - 1 / 2 ^ 53)\<^sup>2 - 1 < real_of_int nh"
    and "real_of_int nh \<le> real (img_height img) * \<rho> * (1 + 1 / 2 ^ 53)\<^sup>2"
proof -
  let ?W = "real (img_width img)" and ?H = "real (img_height img)"
  let ?a = "available_width opts" and ?b = "available_height opts"
  let ?yw = "fl (?W * min (fl (?a / ?W)) (fl (?b / ?H)))"
  let ?yh = "fl (?H * min (fl (?b / ?H)) (fl (?a / ?W)))"
  have W: "0 < ?W" "?W < 2 ^ 53" using w by simp_all
  have H: "0 < ?H" "?H < 2 ^ 53" using h by simp_all
  have ts: "nw = py_int ?yw" "nh = py_int ?yh"
    using t target_size_maintain[OF m w(2) h(2)] by (simp_all add: min.commute)
  have yw: "1 \<le> ?yw" "real_of_int nw \<le> ?yw" "?yw - 1 < real_of_int nw"
    using py_int_ge_1[of ?yw] n(1) unfolding ts by simp_all
  have yh: "1 \<le> ?yh" "real_of_int nh \<le> ?yh" "?yh - 1 < real_of_int nh"
    using py_int_ge_1[of ?yh] n(2) unfolding ts by simp_all
  note bw = scaled_bounds[OF W H yw(1)]
  note bh = scaled_bounds[OF H W yh(1)]
  have \<rho>': "min (?b / ?H) (?a / ?W) = \<rho>" by (simp add: \<rho>_def min.commute)
  show "?W * \<rho> * (1 - 1 / 2 ^ 53)\<^sup>2 - 1 < real_of_int nw"
    using bw(1) yw(3) unfolding \<rho>_def by linarith
  show "real_of_int nw \<le> ?W * \<rho> * (1 + 1 / 2 ^ 53)\<^sup>2"
    using bw(2) yw(2) unfolding \<rho>_def by linarith
  show "?H * \<rho> * (1 - 1 / 2 ^ 53)\<^sup>2 - 1 < real_of_int nh"
    using bh(1) yh(3) unfolding \<rho>' by linarith
  show "real_of_int nh \<le> ?H * \<rho> * (1 + 1 / 2 ^ 53)\<^sup>2"
    using bh(2) yh(2) unfolding \<rho>' by linarith
qed

text \<open>The exactly scaled sides are within the available sides.\<close>

lemma scaled_within_available:
  fixes a b W H :: real
  assumes "0 < W" "0 < H"
  shows "W * min (a / W) (b / H) \<le> a" and "H * min (a / W) (b / H) \<le> b"
proof -
  have "W * min (a / W) (b / H) \<le> W * (a / W)"
    using assms by (intro mult_left_mono) simp_all
  then show "W * min (a / W) (b / H) \<le> a" using assms by simp
  have "H * min (a / W) (b / H) \<le> H * (b / H)"
    using assms by (intro mult_left_mono) simp_all
  then show "H * min (a / W) (b / H) \<le> b" using assms by simp
qed

lemma target_within_available:
  assumes m: "maintain_aspect_ratio opts"
    and w: "0 < img_width img" "img_width img < 2 ^ 53"
    and h: "0 < img_height img" "img_height img < 2 ^ 53"
    and t: "target_size opts img = (nw, nh)" and n: "1 \<le> nw" "1 \<le> nh"
  shows "real_of_int nw \<le> available_width opts * (1 + 1 / 2 ^ 53)\<^sup>2"
    and "real_of_int nh \<le> available_height opts * (1 + 1 / 2 ^ 53)\<^sup>2"
proof -
  let ?W = "real (img_width img)" and ?H = "real (img_height img)"
  let ?a = "available_width opts" and ?b = "available_height opts"
  note b = target_size_bounds[OF m w h t n]
  have W: "0 < ?W" and H: "0 < ?H" using w h by simp_all
  note s = scaled_within_available[OF W H, of ?a ?b]
  have c: "0 \<le> (1 + 1 / 2 ^ 53 :: real)\<^sup>2" by simp
  have "?W * min (?a / ?W) (?b / ?H) * (1 + 1 / 2 ^ 53)\<^sup>2 \<le> ?a * (1 + 1 / 2 ^ 53)\<^sup>2"
    using s(1) c by (rule mult_right_mono)
  with b(2) show "real_of_int nw \<le> ?a * (1 + 1 / 2 ^ 53)\<^sup>2" by linarith
  have "?H * min (?a / ?W) (?b / ?H) * (1 + 1 / 2 ^ 53)\<^sup>2 \<le> ?b * (1 + 1 / 2 ^ 53)\<^sup>2"
    using s(2) c by (rule mult_right_mono)
  with b(4) show "real_of_int nh \<le> ?b * (1 + 1 / 2 ^ 53)\<^sup>2" by linarith
qed

text \<open>
  On a page side that is a whole number (of at most 2 ^ 52 points) nothing is rounded:
  the available side is the page side less 40, a block that is within the available side
  up to rounding is within it exactly, and the position is exactly half the difference.
\<close>

lemma whole_side_exact:
  assumes p: "p = real_of_int \<lfloor>p\<rfloor>" "\<bar>p\<bar> \<le> 2 ^ 52"
    and n: "1 \<le> n" "real_of_int n \<le> fl (p - 40) * (1 + 1 / 2 ^ 53)\<^sup>2"
  shows "fl (p - 40) = p - 40" and "real_of_int n \<le> p - 40"
    and "centred p n = (p - real_of_int n) / 2"
    and "20 \<le> centred p n" and "centred p n + real_of_int n \<le> p - 20"
proof -
  define P where "P = \<lfloor>p\<rfloor>"
  have pP: "p = real_of_int P" using p(1) by (simp add: P_def)
  have Pb: "\<bar>P\<bar> \<le> 2 ^ 52"
  proof -
    have "real_of_int \<bar>P\<bar> \<le> real_of_int (2 ^ 52)" using p(2) by (simp add: pP)
    then show ?thesis by (simp only: of_int_le_iff)
  qed
  have av: "fl (p - 40) = real_of_int (P - 40)"
    using fl_of_int[of "P - 40"] Pb by (simp add: pP)
  then show "fl (p - 40) = p - 40" by (simp add: pP)
  define A where "A = P - 40"
  have A: "A \<le> 2 ^ 52 - 40" using Pb by (simp add: A_def)
  have nA: "real_of_int n \<le> real_of_int A * (1 + 1 / 2 ^ 53)\<^sup>2"
    using n(2) unfolding av A_def .
  have Apos: "0 < A"
  proof (rule ccontr)
    assume "\<not> 0 < A"
    then have "real_of_int A * (1 + 1 / 2 ^ 53)\<^sup>2 \<le> 0"
      by (intro mult_nonpos_nonneg) simp_all
    with nA n(1) show False by linarith
  qed
  have "real_of_int A * (1 + 1 / 2 ^ 53)\<^sup>2 =
        real_of_int A + real_of_int A * (2 / 2 ^ 53 + 1 / 2 ^ 106)"
    by (simp add: power2_eq_square algebra_simps)
  moreover have "real_of_int A * (2 / 2 ^ 53 + 1 / 2 ^ 106) < 1"
  proof -
    have "real_of_int A \<le> real_of_int (2 ^ 52 - 40)" using A by (simp only: of_int_le_iff)
    then have "real_of_int A * (2 / 2 ^ 53 + 1 / 2 ^ 106) \<le>
               real_of_int (2 ^ 52 - 40) * (2 / 2 ^ 53 + 1 / 2 ^ 106)"
      by (rule mult_right_mono) simp
    also have "\<dots> < 1" by simp
    finally show ?thesis .
  qed
  ultimately have "real_of_int n < real_of_int A + 1" using nA by linarith
  then have "real_of_int n < real_of_int (A + 1)" by simp
  then have "n < A + 1" by (simp only: of_int_less_iff)
  then have nle: "n \<le> A" by simp
  then show le: "real_of_int n \<le> p - 40" by (simp add: pP A_def)
  have n53: "\<bar>n\<bar> < 2 ^ 53" using n(1) nle A by simp
  have d53: "\<bar>P - n\<bar> < 2 ^ 53" using n(1) nle A by (simp add: A_def)
  have "centred p n = fl (fl (real_of_int (P - n)) / 2)"
    using fl_of_int[OF n53] by (simp add: centred_eq pP)
  also have "\<dots> = fl (real_of_int (P - n) / 2)"
    using fl_of_int[OF d53] by simp
  also have "\<dots> = real_of_int (P - n) / 2"
    using fl_half_int[OF d53] .
  finally show c: "centred p n = (p - real_of_int n) / 2" by (simp add: pP)
  show "20 \<le> centred p n" unfolding c using le by simp
  show "centred p n + real_of_int n \<le> p - 20" unfolding c using le by (simp add: field_simps)
qed

lemma fl_error_any: "\<bar>fl x - x\<bar> \<le> \<bar>x\<bar> / 2 ^ 53 + 2 powi (- 1075)"
proof (cases "2 powi (- 1022) \<le> \<bar>x\<bar>")
  case True
  have "0 \<le> (2::real) powi (- 1075)" by simp
  with fl_error[OF True] show ?thesis by linarith
next
  case False
  then have "\<bar>fl x - x\<bar> \<le> 2 powi (- 1075)" by (intro fl_error_small) simp
  moreover have "0 \<le> \<bar>x\<bar> / 2 ^ 53" by simp
  ultimately show ?thesis by linarith
qed

lemma fl_pos_normal:
  assumes "1 / 4 \<le> fl x"
  shows "2 powi (- 1022) \<le> x"
proof (rule ccontr)
  assume n: "\<not> 2 powi (- 1022) \<le> x"
  have p: "(2::real) powi (- 1022) \<le> 1 / 16" "(2::real) powi (- 1075) \<le> 1 / 16"
    by (simp_all add: power_int_minus_divide)
  show False
  proof (cases "x \<le> 0")
    case True
    then have "fl x \<le> 0" by (rule fl_nonpos)
    with assms show False by simp
  next
    case False
    then have "\<bar>x\<bar> < 2 powi (- 1022)" using n by simp
    then have "\<bar>fl x - x\<bar> \<le> 2 powi (- 1075)" by (rule fl_error_small)
    then show False using assms n p by linarith
  qed
qed

text \<open>The block is within the page side less 40, up to three roundings.\<close>

lemma within_page_less_margins:
  assumes n: "1 \<le> n" "real_of_int n \<le> fl (p - 40) * (1 + 1 / 2 ^ 53)\<^sup>2"
  shows "real_of_int n \<le> (p - 40) * (1 + 1 / 2 ^ 53) ^ 3"
proof -
  define c :: real where "c = 1 + 1 / 2 ^ 53"
  have c: "1 \<le> c" "c\<^sup>2 \<le> 4" by (simp_all add: c_def power2_eq_square)
  have c2: "0 < c\<^sup>2" using c(1) by simp
  have "1 \<le> fl (p - 40) * c\<^sup>2" using n by (simp add: c_def)
  then have "1 / 4 \<le> fl (p - 40)"
  proof -
    assume a: "1 \<le> fl (p - 40) * c\<^sup>2"
    show ?thesis
    proof (rule ccontr)
      assume "\<not> 1 / 4 \<le> fl (p - 40)"
      then have l: "fl (p - 40) < 1 / 4" by simp
      have "fl (p - 40) * c\<^sup>2 < (1 / 4) * c\<^sup>2"
        using l c2 by (rule mult_strict_right_mono)
      also have "\<dots> \<le> (1 / 4) * 4" using c(2) by (intro mult_left_mono) simp_all
      finally show False using a by simp
    qed
  qed
  then have "2 powi (- 1022) \<le> p - 40" by (rule fl_pos_normal)
  then have "fl (p - 40) \<le> (p - 40) * c" unfolding c_def by (rule fl_upper)
  then have "fl (p - 40) * c\<^sup>2 \<le> (p - 40) * c * c\<^sup>2"
    using c2 by (intro mult_right_mono) simp_all
  also have "\<dots> = (p - 40) * c ^ 3" by (simp add: power2_eq_square power3_eq_cube)
  finally show ?thesis using n(2) by (simp add: c_def)
qed

text \<open>The position is half the difference of page side and block side, up to three roundings.\<close>

lemma centred_close:
  assumes "1 \<le> n"
  shows "\<bar>centred p n - (p - real_of_int n) / 2\<bar> \<le> (\<bar>p\<bar> + real_of_int n) / 2 ^ 52 + 2 powi (- 1074)"
proof -
  define u :: real where "u = 1 / 2 ^ 53"
  define \<eta> :: real where "\<eta> = 2 powi (- 1075)"
  define N where "N = real_of_int n"
  define a where "a = fl N"
  define z where "z = p - a"
  define b where "b = fl z"
  define c where "c = fl (b / 2)"
  define A1 where "A1 = \<bar>c - b / 2\<bar>"
  define A2 where "A2 = \<bar>b - z\<bar>"
  define A3 where "A3 = \<bar>a - N\<bar>"
  define Z where "Z = \<bar>z\<bar>"
  define B where "B = \<bar>b\<bar>"
  define P where "P = \<bar>p\<bar>"
  define ZU where "ZU = Z * u"
  define BU where "BU = B * u"
  define NU where "NU = N * u"
  define PU where "PU = P * u"
  have u: "0 < u" "u \<le> 1 / 4" by (simp_all add: u_def)
  have \<eta>: "0 < \<eta>" "2 * \<eta> = 2 powi (- 1074)"
    using power_int_add[of "2::real" "- 1075" 1] by (simp_all add: \<eta>_def)
  have N: "1 \<le> N" using assms by (simp add: N_def)
  have nn: "0 \<le> Z" "0 \<le> B" "0 \<le> P" by (simp_all add: Z_def B_def P_def)
  have nnu: "0 \<le> ZU" "0 \<le> NU" "0 \<le> PU"
    using nn N u(1) by (simp_all add: ZU_def NU_def PU_def)
  have "2 powi (- 1022) \<le> \<bar>N\<bar>"
  proof -
    have "(2::real) powi (- 1022) \<le> 1" by (simp add: power_int_minus_divide)
    with N show ?thesis by linarith
  qed
  then have ea: "A3 \<le> NU" using fl_error[of N] N by (simp add: a_def u_def A3_def NU_def)
  have eb: "A2 \<le> ZU + \<eta>"
    using fl_error_any[of z] by (simp add: b_def u_def \<eta>_def A2_def ZU_def Z_def)
  have ec: "A1 \<le> BU / 2 + \<eta>"
    using fl_error_any[of "b / 2"] by (simp add: c_def u_def \<eta>_def A1_def BU_def B_def)
  have za: "Z \<le> P + N + NU"
  proof -
    have "\<bar>z\<bar> \<le> \<bar>p\<bar> + \<bar>a\<bar>" unfolding z_def by linarith
    moreover have "\<bar>a\<bar> \<le> N + \<bar>a - N\<bar>" using N by linarith
    ultimately show ?thesis using ea unfolding Z_def P_def A3_def by linarith
  qed
  have bz: "B \<le> Z + ZU + \<eta>"
  proof -
    have "\<bar>b\<bar> \<le> \<bar>z\<bar> + \<bar>b - z\<bar>" by linarith
    then show ?thesis using eb unfolding B_def Z_def A2_def by linarith
  qed
  have t1: "\<bar>c - (p - N) / 2\<bar> \<le> A1 + A2 / 2 + A3 / 2"
  proof -
    define d1 where "d1 = c - b / 2"
    define d2 where "d2 = (b - z) / 2"
    define d3 where "d3 = (a - N) / 2"
    have e: "c - (p - N) / 2 = d1 + d2 - d3"
      by (simp add: d1_def d2_def d3_def z_def field_simps)
    have "\<bar>d1 + d2 - d3\<bar> \<le> \<bar>d1\<bar> + \<bar>d2\<bar> + \<bar>d3\<bar>" by linarith
    moreover have "\<bar>d2\<bar> = A2 / 2" "\<bar>d3\<bar> = A3 / 2" "\<bar>d1\<bar> = A1"
      by (simp_all add: d1_def d2_def d3_def A1_def A2_def A3_def)
    ultimately show ?thesis unfolding e by simp
  qed
  have bu: "BU \<le> ZU + ZU / 4 + \<eta> / 4"
  proof -
    have "B * u \<le> (Z + ZU + \<eta>) * u" using bz u(1) by (intro mult_right_mono) simp_all
    also have "\<dots> = ZU + ZU * u + \<eta> * u" by (simp add: ZU_def algebra_simps)
    also have "\<dots> \<le> ZU + ZU * (1 / 4) + \<eta> * (1 / 4)"
      using nnu(1) \<eta>(1) u(2) by (intro add_mono mult_left_mono) simp_all
    finally show ?thesis by (simp add: BU_def)
  qed
  have zu: "ZU \<le> PU + NU + NU / 4"
  proof -
    have "Z * u \<le> (P + N + NU) * u" using za u(1) by (intro mult_right_mono) simp_all
    also have "\<dots> = PU + NU + NU * u" by (simp add: PU_def NU_def algebra_simps)
    also have "\<dots> \<le> PU + NU + NU * (1 / 4)"
      using nnu(2) u(2) by (intro add_mono mult_left_mono) simp_all
    finally show ?thesis by (simp add: ZU_def)
  qed
  have "\<bar>c - (p - N) / 2\<bar> \<le> 2 * PU + 2 * NU + 2 * \<eta>"
    using t1 ea eb ec bu zu nnu \<eta>(1) by linarith
  moreover have "2 * PU + 2 * NU = (\<bar>p\<bar> + N) / 2 ^ 52"
    by (simp add: PU_def NU_def P_def u_def algebra_simps)
  moreover have "centred p n = c"
    by (simp add: centred_eq c_def b_def z_def a_def N_def)
  ultimately show ?thesis unfolding \<eta>(2) N_def by simp
qed

subsection \<open>Evaluation of the concrete conversions\<close>

text \<open>
  The roundings of each conversion used below, each checked against its definition, and
  the position and size that result.
\<close>

lemma rounded_letter_100x100:
  "fl (40) = 40"
  "fl (572) = 572"
  "fl (752) = 752"
  "fl (100) = 100"
  "fl (143 / 25) = 6440147467139809 / 1125899906842624"
  "fl (188 / 25) = 2116691824864133 / 281474976710656"
  "fl (161003686678495225 / 281474976710656) = 572"
  "fl (2) = 2"
  "fl (20) = 20"
  "fl (220) = 220"
  "fl (110) = 110"
proof -
  show "fl (40) = 40"
    by (rule fl_eq[where e = "5" and m = "5629499534213120"]) (simp_all add: round_half_even_def)
  show "fl (572) = 572"
    by (rule fl_eq[where e = "9" and m = "5031365208702976"]) (simp_all add: round_half_even_def)
  show "fl (752) = 752"
    by (rule fl_eq[where e = "9" and m = "6614661952700416"]) (simp_all add: round_half_even_def)
  show "fl (100) = 100"
    by (rule fl_eq[where e = "6" and m = "7036874417766400"]) (simp_all add: round_half_even_def)
  show "fl (143 / 25) = 6440147467139809 / 1125899906842624"
    by (rule fl_eq[where e = "2" and m = "6440147467139809"]) (simp_all add: round_half_even_def)
  show "fl (188 / 25) = 2116691824864133 / 281474976710656"
    by (rule fl_eq[where e = "2" and m = "8466767299456532"]) (simp_all add: round_half_even_def)
  show "fl (161003686678495225 / 281474976710656) = 572"
    by (rule fl_eq[where e = "9" and m = "5031365208702976"]) (simp_all add: round_half_even_def)
  show "fl (2) = 2"
    by (rule fl_eq[where e = "1" and m = "4503599627370496"]) (simp_all add: round_half_even_def)
  show "fl (20) = 20"
    by (rule fl_eq[where e = "4" and m = "5629499534213120"]) (simp_all add: round_half_even_def)
  show "fl (220) = 220"
    by (rule fl_eq[where e = "7" and m = "7740561859543040"]) (simp_all add: round_half_even_def)
  show "fl (110) = 110"
    by (rule fl_eq[where e = "6" and m = "7740561859543040"]) (simp_all add: round_half_even_def)
qed

lemma placement_letter_100x100:
  assumes "page_size opts = (612, 792)" "fit_to_page opts" "maintain_aspect_ratio opts"
    and "img_width img = 100" "img_height img = 100"
  shows "placement opts img = Inr ((20, 110), (572, 572))"
  by (simp add: placement_def target_size_def resize_ratio_def width_ratio_def height_ratio_def
        available_width_def available_height_def centred_def float_sub_def float_mul_def
        float_truediv_def float_of_int_def margin_def py_int_def
      assms rounded_letter_100x100)

lemma rounded_letter_200x50:
  "fl (40) = 40"
  "fl (572) = 572"
  "fl (752) = 752"
  "fl (200) = 200"
  "fl (50) = 50"
  "fl (143 / 50) = 6440147467139809 / 2251799813685248"
  "fl (376 / 25) = 2116691824864133 / 140737488355328"
  "fl (161003686678495225 / 281474976710656) = 572"
  "fl (161003686678495225 / 1125899906842624) = 143"
  "fl (2) = 2"
  "fl (20) = 20"
  "fl (143) = 143"
  "fl (649) = 649"
  "fl (649 / 2) = 649 / 2"
proof -
  show "fl (40) = 40"
    by (rule fl_eq[where e = "5" and m = "5629499534213120"]) (simp_all add: round_half_even_def)
  show "fl (572) = 572"
    by (rule fl_eq[where e = "9" and m = "5031365208702976"]) (simp_all add: round_half_even_def)
  show "fl (752) = 752"
    by (rule fl_eq[where e = "9" and m = "6614661952700416"]) (simp_all add: round_half_even_def)
  show "fl (200) = 200"
    by (rule fl_eq[where e = "7" and m = "7036874417766400"]) (simp_all add: round_half_even_def)
  show "fl (50) = 50"
    by (rule fl_eq[where e = "5" and m = "7036874417766400"]) (simp_all add: round_half_even_def)
  show "fl (143 / 50) = 6440147467139809 / 2251799813685248"
    by (rule fl_eq[where e = "1" and m = "6440147467139809"]) (simp_all add: round_half_even_def)
  show "fl (376 / 25) = 2116691824864133 / 140737488355328"
    by (rule fl_eq[where e = "3" and m = "8466767299456532"]) (simp_all add: round_half_even_def)
  show "fl (161003686678495225 / 281474976710656) = 572"
    by (rule fl_eq[where e = "9" and m = "5031365208702976"]) (simp_all add: round_half_even_def)
  show "fl (161003686678495225 / 1125899906842624) = 143"
    by (rule fl_eq[where e = "7" and m = "5031365208702976"]) (simp_all add: round_half_even_def)
  show "fl (2) = 2"
    by (rule fl_eq[where e = "1" and m = "4503599627370496"]) (simp_all add: round_half_even_def)
  show "fl (20) = 20"
    by (rule fl_eq[where e = "4" and m = "5629499534213120"]) (simp_all add: round_half_even_def)
  show "fl (143) = 143"
    by (rule fl_eq[where e = "7" and m = "5031365208702976"]) (simp_all add: round_half_even_def)
  show "fl (649) = 649"
    by (rule fl_eq[where e = "9" and m = "5708664371412992"]) (simp_all add: round_half_even_def)
  show "fl (649 / 2) = 649 / 2"
    by (rule fl_eq[where e = "8" and m = "5708664371412992"]) (simp_all add: round_half_even_def)
qed

lemma placement_letter_200x50:
  assumes "page_size opts = (612, 792)" "fit_to_page opts" "maintain_aspect_ratio opts"
    and "img_width img = 200" "img_height img = 50"
  shows "placement opts img = Inr ((20, 649 / 2), (572, 143))"
  by (simp add: placement_def target_size_def resize_ratio_def width_ratio_def height_ratio_def
        available_width_def available_height_def centred_def float_sub_def float_mul_def
        float_truediv_def float_of_int_def margin_def py_int_def
      assms rounded_letter_200x50)

lemma rounded_letter_3000x2000:
  "fl (40) = 40"
  "fl (572) = 572"
  "fl (752) = 752"
  "fl (3000) = 3000"
  "fl (2000) = 2000"
  "fl (143 / 750) = 6869490631615797 / 36028797018963968"
  "fl (47 / 125) = 3386706919782613 / 9007199254740992"
  "fl (2576058986855923875 / 4503599627370496) = 572"
  "fl (858686328951974625 / 2251799813685248) = 3354243472468651 / 8796093022208"
  "fl (2) = 2"
  "fl (20) = 20"
  "fl (381) = 381"
  "fl (411) = 411"
  "fl (411 / 2) = 411 / 2"
proof -
  show "fl (40) = 40"
    by (rule fl_eq[where e = "5" and m = "5629499534213120"]) (simp_all add: round_half_even_def)
  show "fl (572) = 572"
    by (rule fl_eq[where e = "9" and m = "5031365208702976"]) (simp_all add: round_half_even_def)
  show "fl (752) = 752"
    by (rule fl_eq[where e = "9" and m = "6614661952700416"]) (simp_all add: round_half_even_def)
  show "fl (3000) = 3000"
    by (rule fl_eq[where e = "11" and m = "6597069766656000"]) (simp_all add: round_half_even_def)
  show "fl (2000) = 2000"
    by (rule fl_eq[where e = "10" and m = "8796093022208000"]) (simp_all add: round_half_even_def)
  show "fl (143 / 750) = 6869490631615797 / 36028797018963968"
    by (rule fl_eq[where e = "- 3" and m = "6869490631615797"]) (simp_all add: round_half_even_def)
  show "fl (47 / 125) = 3386706919782613 / 9007199254740992"
    by (rule fl_eq[where e = "- 2" and m = "6773413839565226"]) (simp_all add: round_half_even_def)
  show "fl (2576058986855923875 / 4503599627370496) = 572"
    by (rule fl_eq[where e = "9" and m = "5031365208702976"]) (simp_all add: round_half_even_def)
  show "fl (858686328951974625 / 2251799813685248) = 3354243472468651 / 8796093022208"
    by (rule fl_eq[where e = "8" and m = "6708486944937302"]) (simp_all add: round_half_even_def)
  show "fl (2) = 2"
    by (rule fl_eq[where e = "1" and m = "4503599627370496"]) (simp_all add: round_half_even_def)
  show "fl (20) = 20"
    by (rule fl_eq[where e = "4" and m = "5629499534213120"]) (simp_all add: round_half_even_def)
  show "fl (381) = 381"
    by (rule fl_eq[where e = "8" and m = "6702622882922496"]) (simp_all add: round_half_even_def)
  show "fl (411) = 411"
    by (rule fl_eq[where e = "8" and m = "7230388464254976"]) (simp_all add: round_half_even_def)
  show "fl (411 / 2) = 411 / 2"
    by (rule fl_eq[where e = "7" and m = "7230388464254976"]) (simp_all add: round_half_even_def)
qed

lemma placement_letter_3000x2000:
  assumes "page_size opts = (612, 792)" "fit_to_page opts" "maintain_aspect_ratio opts"
    and "img_width img = 3000" "img_height img = 2000"
  shows "placement opts img = Inr ((20, 411 / 2), (572, 381))"
  by (simp add: placement_def target_size_def resize_ratio_def width_ratio_def height_ratio_def
        available_width_def available_height_def centred_def float_sub_def float_mul_def
        float_truediv_def float_of_int_def margin_def py_int_def
      assms rounded_letter_3000x2000)

lemma rounded_letter_10000x1:
  "fl (40) = 40"
  "fl (572) = 572"
  "fl (752) = 752"
  "fl (10000) = 10000"
  "fl (1) = 1"
  "fl (143 / 2500) = 2060847189484739 / 36028797018963968"
  "fl (1288029493427961875 / 2251799813685248) = 572"
  "fl (2060847189484739 / 36028797018963968) = 2060847189484739 / 36028797018963968"
proof -
  show "fl (40) = 40"
    by (rule fl_eq[where e = "5" and m = "5629499534213120"]) (simp_all add: round_half_even_def)
  show "fl (572) = 572"
    by (rule fl_eq[where e = "9" and m = "5031365208702976"]) (simp_all add: round_half_even_def)
  show "fl (752) = 752"
    by (rule fl_eq[where e = "9" and m = "6614661952700416"]) (simp_all add: round_half_even_def)
  show "fl (10000) = 10000"
    by (rule fl_eq[where e = "13" and m = "5497558138880000"]) (simp_all add: round_half_even_def)
  show "fl (1) = 1"
    by (rule fl_eq[where e = "0" and m = "4503599627370496"]) (simp_all add: round_half_even_def)
  show "fl (143 / 2500) = 2060847189484739 / 36028797018963968"
    by (rule fl_eq[where e = "- 5" and m = "8243388757938956"]) (simp_all add: round_half_even_def)
  show "fl (1288029493427961875 / 2251799813685248) = 572"
    by (rule fl_eq[where e = "9" and m = "5031365208702976"]) (simp_all add: round_half_even_def)
  show "fl (2060847189484739 / 36028797018963968) = 2060847189484739 / 36028797018963968"
    by (rule fl_eq[where e = "- 5" and m = "8243388757938956"]) (simp_all add: round_half_even_def)
qed

lemma placement_letter_10000x1:
  assumes "page_size opts = (612, 792)" "fit_to_page opts" "maintain_aspect_ratio opts"
    and "img_width img = 10000" "img_height img = 1"
  shows "placement opts img = Inl ValueError"
  by (simp add: placement_def target_size_def resize_ratio_def width_ratio_def height_ratio_def
        available_width_def available_height_def centred_def float_sub_def float_mul_def
        float_truediv_def float_of_int_def margin_def py_int_def
      assms rounded_letter_10000x1)

lemma rounded_letter_4000x3000:
  "fl (40) = 40"
  "fl (572) = 572"
  "fl (752) = 752"
  "fl (4000) = 4000"
  "fl (3000) = 3000"
  "fl (143 / 1000) = 5152117973711847 / 36028797018963968"
  "fl (94 / 375) = 4515609226376817 / 18014398509481984"
  "fl (644014746713980875 / 1125899906842624) = 572"
  "fl (1932044240141942625 / 4503599627370496) = 7547047813054463 / 17592186044416"
  "fl (2) = 2"
  "fl (20) = 20"
  "fl (428) = 428"
  "fl (364) = 364"
  "fl (182) = 182"
proof -
  show "fl (40) = 40"
    by (rule fl_eq[where e = "5" and m = "5629499534213120"]) (simp_all add: round_half_even_def)
  show "fl (572) = 572"
    by (rule fl_eq[where e = "9" and m = "5031365208702976"]) (simp_all add: round_half_even_def)
  show "fl (752) = 752"
    by (rule fl_eq[where e = "9" and m = "6614661952700416"]) (simp_all add: round_half_even_def)
  show "fl (4000) = 4000"
    by (rule fl_eq[where e = "11" and m = "8796093022208000"]) (simp_all add: round_half_even_def)
  show "fl (3000) = 3000"
    by (rule fl_eq[where e = "11" and m = "6597069766656000"]) (simp_all add: round_half_even_def)
  show "fl (143 / 1000) = 5152117973711847 / 36028797018963968"
    by (rule fl_eq[where e = "- 3" and m = "5152117973711847"]) (simp_all add: round_half_even_def)
  show "fl (94 / 375) = 4515609226376817 / 18014398509481984"
    by (rule fl_eq[where e = "- 2" and m = "4515609226376817"]) (simp_all add: round_half_even_def)
  show "fl (644014746713980875 / 1125899906842624) = 572"
    by (rule fl_eq[where e = "9" and m = "5031365208702976"]) (simp_all add: round_half_even_def)
  show "fl (1932044240141942625 / 4503599627370496) = 7547047813054463 / 17592186044416"
    by (rule fl_eq[where e = "8" and m = "7547047813054463"]) (simp_all add: round_half_even_def)
  show "fl (2) = 2"
    by (rule fl_eq[where e = "1" and m = "4503599627370496"]) (simp_all add: round_half_even_def)
  show "fl (20) = 20"
    by (rule fl_eq[where e = "4" and m = "5629499534213120"]) (simp_all add: round_half_even_def)
  show "fl (428) = 428"
    by (rule fl_eq[where e = "8" and m = "7529455627010048"]) (simp_all add: round_half_even_def)
  show "fl (364) = 364"
    by (rule fl_eq[where e = "8" and m = "6403555720167424"]) (simp_all add: round_half_even_def)
  show "fl (182) = 182"
    by (rule fl_eq[where e = "7" and m = "6403555720167424"]) (simp_all add: round_half_even_def)
qed

lemma placement_letter_4000x3000:
  assumes "page_size opts = (612, 792)" "fit_to_page opts" "maintain_aspect_ratio opts"
    and "img_width img = 4000" "img_height img = 3000"
  shows "placement opts img = Inr ((20, 182), (572, 428))"
  by (simp add: placement_def target_size_def resize_ratio_def width_ratio_def height_ratio_def
        available_width_def available_height_def centred_def float_sub_def float_mul_def
        float_truediv_def float_of_int_def margin_def py_int_def
      assms rounded_letter_4000x3000)

lemma rounded_tight_279x279:
  "fl (40) = 40"
  "fl (5031365208702975 / 8796093022208) = 5031365208702975 / 8796093022208"
  "fl (752) = 752"
  "fl (279) = 279"
  "fl (559040578744775 / 272678883688448) = 4616593166408465 / 2251799813685248"
  "fl (752 / 279) = 6069367239753787 / 2251799813685248"
  "fl (1288029493427961735 / 2251799813685248) = 572"
  "fl (572) = 572"
  "fl (351843720888319 / 8796093022208) = 351843720888319 / 8796093022208"
  "fl (2) = 2"
  "fl (351843720888319 / 17592186044416) = 351843720888319 / 17592186044416"
  "fl (220) = 220"
  "fl (110) = 110"
proof -
  show "fl (40) = 40"
    by (rule fl_eq[where e = "5" and m = "5629499534213120"]) (simp_all add: round_half_even_def)
  show "fl (5031365208702975 / 8796093022208) = 5031365208702975 / 8796093022208"
    by (rule fl_eq[where e = "9" and m = "5031365208702975"]) (simp_all add: round_half_even_def)
  show "fl (752) = 752"
    by (rule fl_eq[where e = "9" and m = "6614661952700416"]) (simp_all add: round_half_even_def)
  show "fl (279) = 279"
    by (rule fl_eq[where e = "8" and m = "4908219906392064"]) (simp_all add: round_half_even_def)
  show "fl (559040578744775 / 272678883688448) = 4616593166408465 / 2251799813685248"
    by (rule fl_eq[where e = "1" and m = "4616593166408465"]) (simp_all add: round_half_even_def)
  show "fl (752 / 279) = 6069367239753787 / 2251799813685248"
    by (rule fl_eq[where e = "1" and m = "6069367239753787"]) (simp_all add: round_half_even_def)
  show "fl (1288029493427961735 / 2251799813685248) = 572"
    by (rule fl_eq[where e = "9" and m = "5031365208702976"]) (simp_all add: round_half_even_def)
  show "fl (572) = 572"
    by (rule fl_eq[where e = "9" and m = "5031365208702976"]) (simp_all add: round_half_even_def)
  show "fl (351843720888319 / 8796093022208) = 351843720888319 / 8796093022208"
    by (rule fl_eq[where e = "5" and m = "5629499534213104"]) (simp_all add: round_half_even_def)
  show "fl (2) = 2"
    by (rule fl_eq[where e = "1" and m = "4503599627370496"]) (simp_all add: round_half_even_def)
  show "fl (351843720888319 / 17592186044416) = 351843720888319 / 17592186044416"
    by (rule fl_eq[where e = "4" and m = "5629499534213104"]) (simp_all add: round_half_even_def)
  show "fl (220) = 220"
    by (rule fl_eq[where e = "7" and m = "7740561859543040"]) (simp_all add: round_half_even_def)
  show "fl (110) = 110"
    by (rule fl_eq[where e = "6" and m = "7740561859543040"]) (simp_all add: round_half_even_def)
qed

lemma placement_tight_279x279:
  assumes "page_size opts = (5383208929591295 / 8796093022208, 792)" "fit_to_page opts" "maintain_aspect_ratio opts"
    and "img_width img = 279" "img_height img = 279"
  shows "placement opts img = Inr ((351843720888319 / 17592186044416, 110), (572, 572))"
  by (simp add: placement_def target_size_def resize_ratio_def width_ratio_def height_ratio_def
        available_width_def available_height_def centred_def float_sub_def float_mul_def
        float_truediv_def float_of_int_def margin_def py_int_def
      assms rounded_tight_279x279)

lemma rounded_skew_13x23:
  "fl (40) = 40"
  "fl (7959699307444135 / 8796093022208) = 7959699307444135 / 8796093022208"
  "fl (1960) = 1960"
  "fl (13) = 13"
  "fl (23) = 23"
  "fl (7959699307444135 / 114349209288704) = 2449138248444349 / 35184372088832"
  "fl (1960 / 23) = 5996640808183541 / 70368744177664"
  "fl (31838797229776537 / 35184372088832) = 3979849653722067 / 4398046511104"
  "fl (56330179714220027 / 35184372088832) = 7041272464277503 / 4398046511104"
  "fl (904) = 904"
  "fl (359874936256423 / 8796093022208) = 359874936256423 / 8796093022208"
  "fl (2) = 2"
  "fl (359874936256423 / 17592186044416) = 359874936256423 / 17592186044416"
  "fl (1600) = 1600"
  "fl (400) = 400"
  "fl (200) = 200"
proof -
  show "fl (40) = 40"
    by (rule fl_eq[where e = "5" and m = "5629499534213120"]) (simp_all add: round_half_even_def)
  show "fl (7959699307444135 / 8796093022208) = 7959699307444135 / 8796093022208"
    by (rule fl_eq[where e = "9" and m = "7959699307444135"]) (simp_all add: round_half_even_def)
  show "fl (1960) = 1960"
    by (rule fl_eq[where e = "10" and m = "8620171161763840"]) (simp_all add: round_half_even_def)
  show "fl (13) = 13"
    by (rule fl_eq[where e = "3" and m = "7318349394477056"]) (simp_all add: round_half_even_def)
  show "fl (23) = 23"
    by (rule fl_eq[where e = "4" and m = "6473924464345088"]) (simp_all add: round_half_even_def)
  show "fl (7959699307444135 / 114349209288704) = 2449138248444349 / 35184372088832"
    by (rule fl_eq[where e = "6" and m = "4898276496888698"]) (simp_all add: round_half_even_def)
  show "fl (1960 / 23) = 5996640808183541 / 70368744177664"
    by (rule fl_eq[where e = "6" and m = "5996640808183541"]) (simp_all add: round_half_even_def)
  show "fl (31838797229776537 / 35184372088832) = 3979849653722067 / 4398046511104"
    by (rule fl_eq[where e = "9" and m = "7959699307444134"]) (simp_all add: round_half_even_def)
  show "fl (56330179714220027 / 35184372088832) = 7041272464277503 / 4398046511104"
    by (rule fl_eq[where e = "10" and m = "7041272464277503"]) (simp_all add: round_half_even_def)
  show "fl (904) = 904"
    by (rule fl_eq[where e = "9" and m = "7951668092076032"]) (simp_all add: round_half_even_def)
  show "fl (359874936256423 / 8796093022208) = 359874936256423 / 8796093022208"
    by (rule fl_eq[where e = "5" and m = "5757998980102768"]) (simp_all add: round_half_even_def)
  show "fl (2) = 2"
    by (rule fl_eq[where e = "1" and m = "4503599627370496"]) (simp_all add: round_half_even_def)
  show "fl (359874936256423 / 17592186044416) = 359874936256423 / 17592186044416"
    by (rule fl_eq[where e = "4" and m = "5757998980102768"]) (simp_all add: round_half_even_def)
  show "fl (1600) = 1600"
    by (rule fl_eq[where e = "10" and m = "7036874417766400"]) (simp_all add: round_half_even_def)
  show "fl (400) = 400"
    by (rule fl_eq[where e = "8" and m = "7036874417766400"]) (simp_all add: round_half_even_def)
  show "fl (200) = 200"
    by (rule fl_eq[where e = "7" and m = "7036874417766400"]) (simp_all add: round_half_even_def)
qed

lemma placement_skew_13x23:
  assumes "page_size opts = (8311543028332455 / 8796093022208, 2000)" "fit_to_page opts" "maintain_aspect_ratio opts"
    and "img_width img = 13" "img_height img = 23"
  shows "placement opts img = Inr ((359874936256423 / 17592186044416, 200), (904, 1600))"
  by (simp add: placement_def target_size_def resize_ratio_def width_ratio_def height_ratio_def
        available_width_def available_height_def centred_def float_sub_def float_mul_def
        float_truediv_def float_of_int_def margin_def py_int_def
      assms rounded_skew_13x23)

lemma letter_eq: "letter = (612, 792)"
  using fl_of_int[of 612] fl_of_int[of 792] float_of_int_exact[of 11]
  by (simp add: letter_def inch_def float_mul_def)

lemmas os_defs = read_file_def write_file_def Image_open_def read_pdf_def os_listdir_def
  os_remove_def os_path_join_def os_path_exists_def os_makedirs_def

lemma strip_dot_plain [simp]: "strip_dot (CHR ''i'' # p) = CHR ''i'' # p"  "strip_dot (CHR ''t'' # p) = CHR ''t'' # p"
  by (simp_all add: strip_dot_def)

lemmas geometry_defs = placement_letter_100x100 placement_letter_200x50 placement_letter_3000x2000
  placement_letter_10000x1 placement_letter_4000x3000 placement_tight_279x279 placement_skew_13x23

lemma convert_square:
  "convert_image_to_pdf permissive ''in/a.png'' ''temp_a.png.pdf'' default_settings image_world =
   Inr (image_world\<lparr>fs := (fs image_world)(''temp_a.png.pdf'' \<mapsto> PdfFile [Converted fitted_square])\<rparr>)"
  by (simp add: convert_image_to_pdf_def render_def os_defs geometry_defs permissive_def
      default_settings_def image_world_def square_image_def fitted_square_def letter_eq)

lemma Image_open_square: "Image_open permissive ''in/a.png'' image_world = Inr square_image"
  by (simp add: os_defs permissive_def image_world_def)

lemma Image_open_poster: "Image_open permissive ''in/poster.jpg'' image_world = Inr poster_image"
  by (simp add: os_defs permissive_def image_world_def)

subsection \<open>The kinds of entries\<close>

lemma pdf_ext_apart: "\<forall>ext \<in> set image_extensions. \<not> suffix ''.pdf'' ext \<and> \<not> suffix ext ''.pdf''"
  by code_simp

lemma pdf_not_image: "is_pdf_name f \<Longrightarrow> \<not> is_image_name f"
proof
  assume p: "is_pdf_name f" and i: "is_image_name f"
  from i obtain ext where e: "ext \<in> set image_extensions" "suffix ext (lower f)"
    by (auto simp: is_image_name_def endswith_def list_ex_iff)
  from p have "suffix ''.pdf'' (lower f)" by (simp add: is_pdf_name_def endswith_def)
  with e(2) have "suffix ''.pdf'' ext \<or> suffix ext ''.pdf''"
    using suffix_same_cases by blast
  with pdf_ext_apart e(1) show False by blast
qed

lemma classify_Document: "classify f = DocumentKind \<longleftrightarrow> is_pdf_name f"
  by (simp add: classify_def is_pdf_name_def endswith_def)

lemma classify_Image: "classify f = ImageKind \<longleftrightarrow> is_image_name f"
  using pdf_not_image[of f]
  by (auto simp: classify_def is_pdf_name_def is_image_name_def endswith_def list_ex_iff)

lemma classify_Ignored: "classify f = IgnoredKind \<longleftrightarrow> \<not> is_pdf_name f \<and> \<not> is_image_name f"
  by (auto simp: classify_def is_pdf_name_def is_image_name_def endswith_def list_ex_iff)

lemma process_file_by_kind:
  "process_file E opts input_folder f m =
     (case classify f of
        DocumentKind \<Rightarrow> add_pdf E (os_path_join input_folder f) m
      | ImageKind \<Rightarrow> add_image E opts (os_path_join input_folder f) f m
      | IgnoredKind \<Rightarrow> (None, m))"
proof (cases "classify f")
  case DocumentKind
  then have "is_pdf_name f" by (simp add: classify_Document)
  with DocumentKind show ?thesis by (simp add: process_file_def)
next
  case ImageKind
  then have "is_image_name f" "\<not> is_pdf_name f"
    using pdf_not_image[of f] by (auto simp: classify_Image)
  with ImageKind show ?thesis by (simp add: process_file_def)
next
  case IgnoredKind
  then have "\<not> is_pdf_name f" "\<not> is_image_name f" by (simp_all add: classify_Ignored)
  with IgnoredKind show ?thesis by (simp add: process_file_def)
qed

lemma process_files_filter:
  "process_files E opts input_folder (filter (\<lambda>f. classify f \<noteq> IgnoredKind) names) m =
   process_files E opts input_folder names m"
proof (induction names arbitrary: m)
  case Nil
  show ?case by simp
next
  case (Cons f names)
  show ?case
  proof (cases "classify f = IgnoredKind")
    case True
    then show ?thesis using Cons by (simp add: process_file_by_kind)
  next
    case False
    then show ?thesis using Cons by (simp split: prod.splits option.splits)
  qed
qed

lemma merge_listing_filter:
  "merge_listing E input_folder output_pdf opts (filter (\<lambda>f. classify f \<noteq> IgnoredKind) names) m =
   merge_listing E input_folder output_pdf opts names m"
  by (simp add: merge_listing_def sort_key_def[symmetric] filter_sort[symmetric] process_files_filter)

subsection \<open>One entry of the folder\<close>

lemma read_pdf_written:
  "read_pdf E p (w\<lparr>fs := (fs w)(canon E p \<mapsto> PdfFile pages)\<rparr>) =
     (if readable E (canon E p) then Inr pages else Inl PermissionError)"
  by (simp add: read_pdf_def read_file_def)

lemma add_pdf_result:
  "add_pdf E p m =
     (case read_pdf E p (world m) of
        Inl e \<Rightarrow> (Some e, m)
      | Inr pages \<Rightarrow> (None, m\<lparr>merger := merger m @ pages\<rparr>))"
  by (simp add: add_pdf_def merger_append_def split: sum.splits)

text \<open>The three ways through the conversion of one image.\<close>

lemma add_image_cases:
  assumes "add_image E opts p f m = (r, m')"
  obtains
    (convert_failed) e where "convert_image_to_pdf E p (temp_name f) opts (world m) = Inl e"
      "r = Some e" "m' = m"
  | (append_failed) img d where "Image_open E p (world m) = Inr img" "render E opts img = Inr d"
      "\<not> readable E (canon E (temp_name f))" "r = Some PermissionError"
      "m' = m\<lparr>world := (world m)\<lparr>fs := (fs (world m))(canon E (temp_name f) \<mapsto> PdfFile [Converted d])\<rparr>\<rparr>"
  | (added) img d where "Image_open E p (world m) = Inr img" "render E opts img = Inr d"
      "readable E (canon E (temp_name f))" "r = None"
      "m' = m\<lparr>merger := merger m @ [Converted d], temp_files := temp_files m @ [temp_name f],
               world := (world m)\<lparr>fs := (fs (world m))(canon E (temp_name f) \<mapsto> PdfFile [Converted d])\<rparr>\<rparr>"
proof (cases "convert_image_to_pdf E p (temp_name f) opts (world m)")
  case (Inl e)
  with assms have "r = Some e" "m' = m" by (auto simp: add_image_def Let_def)
  with Inl show ?thesis by (rule convert_failed)
next
  case (Inr w1)
  then obtain img d where io: "Image_open E p (world m) = Inr img" and rd: "render E opts img = Inr d"
    and w1: "w1 = (world m)\<lparr>fs := (fs (world m))(canon E (temp_name f) \<mapsto> PdfFile [Converted d])\<rparr>"
    by (rule convert_success)
  show ?thesis
  proof (cases "readable E (canon E (temp_name f))")
    case True
    with assms Inr w1 have "r = None"
      "m' = m\<lparr>merger := merger m @ [Converted d], temp_files := temp_files m @ [temp_name f],
               world := (world m)\<lparr>fs := (fs (world m))(canon E (temp_name f) \<mapsto> PdfFile [Converted d])\<rparr>\<rparr>"
      by (auto simp: add_image_def Let_def merger_append_def read_pdf_written)
    with io rd True show ?thesis by (rule added)
  next
    case False
    with assms Inr w1 have "r = Some PermissionError"
      "m' = m\<lparr>world := (world m)\<lparr>fs := (fs (world m))(canon E (temp_name f) \<mapsto> PdfFile [Converted d])\<rparr>\<rparr>"
      by (auto simp: add_image_def Let_def merger_append_def read_pdf_written)
    with io rd False show ?thesis by (rule append_failed)
  qed
qed

subsection \<open>What the loop leaves unchanged\<close>

lemma process_file_stdout:
  "process_file E opts folder f m = (r, m') \<Longrightarrow> stdout (world m') = stdout (world m)"
  unfolding process_file_by_kind
  by (cases "classify f")
    (auto simp: add_pdf_result split: sum.splits elim!: add_image_cases)

lemma process_files_stdout:
  "process_files E opts folder names m = (r, m') \<Longrightarrow> stdout (world m') = stdout (world m)"
proof (induction names arbitrary: m)
  case Nil
  then show ?case by simp
next
  case (Cons f names)
  obtain r1 m1 where s: "process_file E opts folder f m = (r1, m1)" by (cases "process_file E opts folder f m")
  show ?case
  proof (cases r1)
    case None
    with Cons.prems s have "process_files E opts folder names m1 = (r, m')" by simp
    then have "stdout (world m') = stdout (world m1)" by (rule Cons.IH)
    with process_file_stdout[OF s] show ?thesis by simp
  next
    case (Some e)
    with Cons.prems s have "m' = m1" by simp
    with process_file_stdout[OF s] show ?thesis by simp
  qed
qed

lemma process_file_temps:
  assumes "process_file E opts folder f m = (r, m')" "temps_are_pdf E m"
  shows "temps_are_pdf E m'"
  using assms unfolding process_file_by_kind
  by (cases "classify f")
    (auto simp: add_pdf_result temps_are_pdf_def split: sum.splits elim!: add_image_cases)

lemma process_files_temps:
  "process_files E opts folder names m = (r, m') \<Longrightarrow> temps_are_pdf E m \<Longrightarrow> temps_are_pdf E m'"
proof (induction names arbitrary: m)
  case Nil
  then show ?case by simp
next
  case (Cons f names)
  obtain r1 m1 where s: "process_file E opts folder f m = (r1, m1)" by (cases "process_file E opts folder f m")
  have t: "temps_are_pdf E m1" using s Cons.prems(2) by (rule process_file_temps)
  show ?case
  proof (cases r1)
    case None
    with Cons.prems s have "process_files E opts folder names m1 = (r, m')" by simp
    then show ?thesis using t by (rule Cons.IH)
  next
    case (Some e)
    with Cons.prems s have "m' = m1" by simp
    with t show ?thesis by simp
  qed
qed

subsection \<open>The clean-up\<close>

lemma os_remove_fs:
  "fs (case os_remove E t w of Inl e \<Rightarrow> w | Inr w1 \<Rightarrow> w1) l =
     (if l = canon E t \<and> removable E l \<and> (\<exists>n. fs w l = Some n \<and> (\<forall>names. n \<noteq> Directory names))
      then None else fs w l)"
  by (auto simp: os_remove_def split: option.splits node.splits)

lemma os_remove_stdout:
  "stdout (case os_remove E t w of Inl e \<Rightarrow> w | Inr w1 \<Rightarrow> w1) = stdout w"
  by (auto simp: os_remove_def split: option.splits node.splits)

lemma remove_temp_files_stdout: "stdout (remove_temp_files E ps w) = stdout w"
  by (induction ps arbitrary: w) (simp_all add: os_remove_stdout)

lemma remove_temp_files_keeps:
  "fs (remove_temp_files E ps w) l = None \<or> fs (remove_temp_files E ps w) l = fs w l"
proof (induction ps arbitrary: w)
  case Nil
  show ?case by simp
next
  case (Cons t ps)
  let ?w1 = "case os_remove E t w of Inl e \<Rightarrow> w | Inr w1 \<Rightarrow> w1"
  have "fs ?w1 l = None \<or> fs ?w1 l = fs w l" by (simp add: os_remove_fs)
  with Cons[of ?w1] show ?case by auto
qed

lemma remove_temp_files_untouched:
  "l \<notin> canon E ` set ps \<Longrightarrow> fs (remove_temp_files E ps w) l = fs w l"
  by (induction ps arbitrary: w) (auto simp: os_remove_fs)

lemma remove_temp_files_removed:
  assumes "p \<in> set ps" "removable E (canon E p)"
    and "\<forall>names. fs w (canon E p) \<noteq> Some (Directory names)"
  shows "fs (remove_temp_files E ps w) (canon E p) = None"
  using assms
proof (induction ps arbitrary: w)
  case Nil
  then show ?case by simp
next
  case (Cons t ps)
  let ?w1 = "case os_remove E t w of Inl e \<Rightarrow> w | Inr w1 \<Rightarrow> w1"
  have nd: "\<forall>names. fs ?w1 (canon E p) \<noteq> Some (Directory names)"
    using Cons.prems(3) by (simp add: os_remove_fs)
  show ?case
  proof (cases "p = t")
    case True
    have "fs ?w1 (canon E p) = None"
      using Cons.prems(2,3) True by (cases "fs w (canon E t)") (auto simp: os_remove_fs)
    then have "fs (remove_temp_files E ps ?w1) (canon E p) = None"
      using remove_temp_files_keeps[of E ps ?w1 "canon E p"] by auto
    then show ?thesis by simp
  next
    case False
    with Cons.prems(1) have "p \<in> set ps" by simp
    then have "fs (remove_temp_files E ps ?w1) (canon E p) = None"
      using Cons.prems(2) nd by (rule Cons.IH)
    then show ?thesis by simp
  qed
qed

subsection \<open>The shape of a run\<close>

lemma merge_listing_cases:
  assumes "merge_listing E folder out opts names m = (r, m')"
  obtains
    (loop_failed) e where "process_files E opts folder (sort names) m = (Some e, m')" "r = Some e"
  | (write_failed) e m1 where "process_files E opts folder (sort names) m = (None, m1)"
      "merger_write E out m1 = Inl e" "r = Some e" "m' = m1"
  | (written) m1 where "process_files E opts folder (sort names) m = (None, m1)"
      "write_file E out (PdfFile (merger m1)) (world m1) =
         Inr ((world m1)\<lparr>fs := (fs (world m1))(canon E out \<mapsto> PdfFile (merger m1))\<rparr>)"
      "r = None"
      "m' = m1\<lparr>world := print (Successfully_created out)
                 ((world m1)\<lparr>fs := (fs (world m1))(canon E out \<mapsto> PdfFile (merger m1))\<rparr>)\<rparr>"
proof (cases "process_files E opts folder (sort names) m")
  case (Pair r1 m1)
  show ?thesis
  proof (cases r1)
    case (Some e)
    with Pair assms have "r = Some e" "m' = m1" by (auto simp: merge_listing_def)
    with Pair Some show ?thesis by (auto intro: loop_failed)
  next
    case None
    show ?thesis
    proof (cases "merger_write E out m1")
      case (Inl e)
      with Pair None assms have "r = Some e" "m' = m1" by (auto simp: merge_listing_def)
      with Pair None Inl show ?thesis by (auto intro: write_failed)
    next
      case (Inr m2)
      then have w: "write_file E out (PdfFile (merger m1)) (world m1) =
         Inr ((world m1)\<lparr>fs := (fs (world m1))(canon E out \<mapsto> PdfFile (merger m1))\<rparr>)"
        and m2: "m2 = m1\<lparr>world := (world m1)\<lparr>fs := (fs (world m1))(canon E out \<mapsto> PdfFile (merger m1))\<rparr>\<rparr>"
        by (auto simp: merger_write_def write_file_def split: sum.splits option.splits node.splits if_splits)
      from Pair None Inr assms have "r = None"
        "m' = m2\<lparr>world := print (Successfully_created out) (world m2)\<rparr>"
        by (auto simp: merge_listing_def)
      with Pair None w m2 show ?thesis by (auto intro: written)
    qed
  qed
qed

lemma merge_listing_stdout:
  assumes "merge_listing E folder out opts names m = (r, m')"
  shows "stdout (world m') =
         stdout (world m) @ (case r of None \<Rightarrow> [Successfully_created out] | Some e \<Rightarrow> [])"
  using assms
  by (cases rule: merge_listing_cases) (auto simp: print_def dest: process_files_stdout)

lemma merge_listing_temps:
  assumes "merge_listing E folder out opts names m = (r, m')" "temps_are_pdf E m"
  shows "temps_are_pdf E m'"
  using assms(1)
proof (cases rule: merge_listing_cases)
  case (loop_failed e)
  then show ?thesis using assms(2) process_files_temps by blast
next
  case (write_failed e m1)
  then show ?thesis using assms(2) process_files_temps by blast
next
  case (written m1)
  then have "temps_are_pdf E m1" using assms(2) process_files_temps by blast
  then show ?thesis unfolding written(4) by (auto simp: temps_are_pdf_def print_def)
qed

lemma try_block_stdout:
  assumes "try_block E folder out opts m = (r, m')"
  shows "stdout (world m') =
         stdout (world m) @ (case r of None \<Rightarrow> [Successfully_created out] | Some e \<Rightarrow> [])"
  using assms merge_listing_stdout
  by (auto simp: try_block_def split: sum.splits)

lemma try_block_temps:
  assumes "try_block E folder out opts m = (r, m')" "temps_are_pdf E m"
  shows "temps_are_pdf E m'"
  using assms merge_listing_temps
  by (auto simp: try_block_def split: sum.splits)

lemma temps_are_pdf_initial: "temps_are_pdf E (initial_locals w)"
  by (simp add: temps_are_pdf_def initial_locals_def)

text \<open>The \<open>except\<close> and \<open>finally\<close> clauses applied to the result of the \<open>try\<close> block.\<close>

lemma after_try:
  "finally_block E (except_block (r, m)) =
     (None, m\<lparr>merger := [],
              world := remove_temp_files E (temp_files m)
                (case r of None \<Rightarrow> world m | Some e \<Rightarrow> print (Error_occurred e) (world m))\<rparr>)"
  by (cases r) (simp_all add: finally_block_def except_block_def)

lemma after_try_removed:
  assumes "temps_are_pdf E m" "p \<in> set (temp_files m)" "removable E (canon E p)"
  shows "fs (world (snd (finally_block E (except_block (r, m))))) (canon E p) = None"
proof -
  let ?w = "case r of None \<Rightarrow> world m | Some e \<Rightarrow> print (Error_occurred e) (world m)"
  have "fs ?w = fs (world m)" by (cases r) (simp_all add: print_def)
  then have "\<forall>names. fs ?w (canon E p) \<noteq> Some (Directory names)"
    using assms(1,2) by (auto simp: temps_are_pdf_def)
  with assms(2,3) have "fs (remove_temp_files E (temp_files m) ?w) (canon E p) = None"
    by (rule remove_temp_files_removed)
  then show ?thesis by (simp add: after_try)
qed

lemma merge_all_to_pdf_after_try:
  assumes "try_block E folder out opts (initial_locals w) = (r, m)"
  shows "merge_all_to_pdf E folder out opts w =
     (None, m\<lparr>merger := [],
              world := remove_temp_files E (temp_files m)
                (case r of None \<Rightarrow> world m | Some e \<Rightarrow> print (Error_occurred e) (world m))\<rparr>)"
  by (simp add: merge_all_to_pdf_def assms after_try)

lemma merge_temps_removed:
  assumes "p \<in> set (temp_files (snd (merge_all_to_pdf E folder out opts w)))"
    and "removable E (canon E p)"
  shows "fs (world (snd (merge_all_to_pdf E folder out opts w))) (canon E p) = None"
proof -
  obtain r m where t: "try_block E folder out opts (initial_locals w) = (r, m)"
    by (cases "try_block E folder out opts (initial_locals w)")
  have tp: "temps_are_pdf E m" using t temps_are_pdf_initial by (rule try_block_temps)
  have "p \<in> set (temp_files m)" using assms(1) by (simp add: merge_all_to_pdf_after_try[OF t])
  with tp have "fs (world (snd (finally_block E (except_block (r, m))))) (canon E p) = None"
    using assms(2) by (rule after_try_removed)
  then show ?thesis by (simp add: merge_all_to_pdf_def t)
qed

subsection \<open>Evaluation of whole runs\<close>

lemma names_folder:
  "is_pdf_name ''a.png'' = False" "is_image_name ''a.png'' = True"
  "is_pdf_name ''b.pdf'' = True"
  "is_pdf_name ''c.jpg'' = False" "is_image_name ''c.jpg'' = True"
  "is_pdf_name ''notes.txt'' = False" "is_image_name ''notes.txt'' = False"
  by code_simp+

lemma joins_folder:
  "os_path_join ''in'' ''a.png'' = ''in/a.png''"
  "os_path_join ''in'' ''b.pdf'' = ''in/b.pdf''"
  "os_path_join ''in'' ''c.jpg'' = ''in/c.jpg''"
  by code_simp+

lemmas run_defs = merge_all_to_pdf_def try_block_def merge_listing_def process_file_def
  add_pdf_def add_image_def merger_append_def merger_write_def except_block_def finally_block_def
  initial_locals_def convert_image_to_pdf_def render_def to_RGB_def temp_name_def print_def
  read_file_def write_file_def Image_open_def read_pdf_def os_listdir_def os_remove_def
  strip_dot_def Let_def

lemma names_images:
  "is_pdf_name ''poster.jpg'' = False" "is_image_name ''poster.jpg'' = True"
  "is_pdf_name ''wide.png'' = False" "is_image_name ''wide.png'' = True"
  by code_simp+

lemma joins_images:
  "os_path_join ''in'' ''poster.jpg'' = ''in/poster.jpg''"
  "os_path_join ''in'' ''wide.png'' = ''in/wide.png''"
  by code_simp+

lemmas example_defs = permissive_def default_settings_def letter_eq
  folder_world_def image_world_def square_image_def banner_image_def wide_image_def
  poster_image_def fitted_square_def fitted_banner_def
  names_folder joins_folder names_images joins_images

subsection \<open>The pages a run collects\<close>

lemma contribution_cong:
  "fs w (canon E (os_path_join folder f)) = fs w' (canon E (os_path_join folder f)) \<Longrightarrow>
   contribution E opts folder w f = contribution E opts folder w' f"
  unfolding contribution_def by (cases "classify f") simp_all

lemma read_pdf_Inr:
  "read_pdf E p w = Inr pages \<Longrightarrow> fs w (canon E p) = Some (PdfFile pages)"
  by (auto simp: read_pdf_def read_file_def split: option.splits node.splits if_splits sum.splits)

lemma Image_open_Inr:
  "Image_open E p w = Inr img \<Longrightarrow> fs w (canon E p) = Some (ImageFile img)"
  by (auto simp: Image_open_def read_file_def split: option.splits node.splits if_splits sum.splits)

text \<open>What one entry has done when the loop goes on after it.\<close>

lemma process_file_None:
  assumes "process_file E opts folder f m = (None, m')"
  shows "merger m' = merger m @ contribution E opts folder (world m) f"
    and "temp_files m' = temp_files m @ (if classify f = ImageKind then [temp_name f] else [])"
    and "classify f = ImageKind \<Longrightarrow> length (contribution E opts folder (world m) f) = 1"
    and "l \<noteq> canon E (temp_name f) \<or> classify f \<noteq> ImageKind \<Longrightarrow> fs (world m') l = fs (world m) l"
    and "stdout (world m') = stdout (world m)"
proof -
  show "stdout (world m') = stdout (world m)" using assms by (rule process_file_stdout)
  consider (doc) "classify f = DocumentKind" | (img) "classify f = ImageKind" | (ign) "classify f = IgnoredKind"
    by (cases "classify f") auto
  then have "merger m' = merger m @ contribution E opts folder (world m) f \<and>
    temp_files m' = temp_files m @ (if classify f = ImageKind then [temp_name f] else []) \<and>
    (classify f = ImageKind \<longrightarrow> length (contribution E opts folder (world m) f) = 1) \<and>
    (l \<noteq> canon E (temp_name f) \<or> classify f \<noteq> ImageKind \<longrightarrow> fs (world m') l = fs (world m) l)"
  proof cases
    case doc
    with assms have a: "add_pdf E (os_path_join folder f) m = (None, m')"
      by (simp add: process_file_by_kind)
    then obtain pages where r: "read_pdf E (os_path_join folder f) (world m) = Inr pages"
      and m': "m' = m\<lparr>merger := merger m @ pages\<rparr>"
      by (auto simp: add_pdf_result split: sum.splits)
    from r have "contribution E opts folder (world m) f = pages"
      by (simp add: contribution_def doc read_pdf_Inr)
    then show ?thesis using doc m' by simp
  next
    case img
    with assms have a: "add_image E opts (os_path_join folder f) f m = (None, m')"
      by (simp add: process_file_by_kind)
    from a show ?thesis
    proof (cases rule: add_image_cases)
      case (added im d)
      from added(1,2) have "contribution E opts folder (world m) f = [Converted d]"
        by (simp add: contribution_def img Image_open_Inr)
      then show ?thesis using img added(5) by auto
    qed simp_all
  next
    case ign
    with assms have "m' = m" by (simp add: process_file_by_kind)
    then show ?thesis using ign by (simp add: contribution_def)
  qed
  then show "merger m' = merger m @ contribution E opts folder (world m) f"
    and "temp_files m' = temp_files m @ (if classify f = ImageKind then [temp_name f] else [])"
    and "classify f = ImageKind \<Longrightarrow> length (contribution E opts folder (world m) f) = 1"
    and "l \<noteq> canon E (temp_name f) \<or> classify f \<noteq> ImageKind \<Longrightarrow> fs (world m') l = fs (world m) l"
    by blast+
qed

text \<open>
  The loop, when it ends without an exception and no temporary file takes the place of
  an entry of the folder: the pages are the contributions of the entries in the order of
  the list, read off the world before the loop.
\<close>

lemma process_files_None:
  assumes "process_files E opts folder names m = (None, m')"
    and "\<forall>f \<in> set names. \<forall>g \<in> set names. classify f = ImageKind \<longrightarrow>
           canon E (temp_name f) \<noteq> canon E (os_path_join folder g)"
  shows "merger m' = merger m @ concat (map (contribution E opts folder (world m)) names) \<and>
         temp_files m' = temp_files m @ map temp_name (filter (\<lambda>f. classify f = ImageKind) names) \<and>
         (\<forall>f \<in> set names. classify f = ImageKind \<longrightarrow>
            length (contribution E opts folder (world m) f) = 1)"
  using assms
proof (induction names arbitrary: m)
  case Nil
  then show ?case by simp
next
  case (Cons f names)
  obtain r1 m1 where s: "process_file E opts folder f m = (r1, m1)"
    by (cases "process_file E opts folder f m")
  have r1: "r1 = None" using Cons.prems(1) s by (cases r1) simp_all
  with s Cons.prems(1) have rest: "process_files E opts folder names m1 = (None, m')" by simp
  note one = process_file_None[OF s[unfolded r1]]
  have same: "contribution E opts folder (world m1) g = contribution E opts folder (world m) g"
    if "g \<in> set names" for g
  proof (rule contribution_cong)
    have "canon E (os_path_join folder g) \<noteq> canon E (temp_name f) \<or> classify f \<noteq> ImageKind"
      using Cons.prems(2) that by auto
    then show "fs (world m1) (canon E (os_path_join folder g)) = fs (world m) (canon E (os_path_join folder g))"
      by (rule one(4))
  qed
  have "\<forall>f \<in> set names. \<forall>g \<in> set names. classify f = ImageKind \<longrightarrow>
           canon E (temp_name f) \<noteq> canon E (os_path_join folder g)"
    using Cons.prems(2) by simp
  from Cons.IH[OF rest this]
  have ih: "merger m' = merger m1 @ concat (map (contribution E opts folder (world m1)) names)"
    "temp_files m' = temp_files m1 @ map temp_name (filter (\<lambda>f. classify f = ImageKind) names)"
    "\<forall>f \<in> set names. classify f = ImageKind \<longrightarrow> length (contribution E opts folder (world m1) f) = 1"
    by blast+
  have maps: "map (contribution E opts folder (world m1)) names = map (contribution E opts folder (world m)) names"
    using same by simp
  show ?case
  proof (intro conjI ballI impI)
    show "merger m' = merger m @ concat (map (contribution E opts folder (world m)) (f # names))"
      using ih(1) one(1) maps by simp
    show "temp_files m' = temp_files m @ map temp_name (filter (\<lambda>f. classify f = ImageKind) (f # names))"
      using ih(2) one(2) by simp
    fix g assume "g \<in> set (f # names)" "classify g = ImageKind"
    then show "length (contribution E opts folder (world m) g) = 1"
      using one(3) ih(3) same by auto
  qed
qed

lemma sum_list_map_insort:
  "sum_list (map g (insort x xs)) = g x + sum_list (map g xs)" for g :: "'a::linorder \<Rightarrow> nat"
  by (induction xs) simp_all

lemma sum_list_map_sort:
  "sum_list (map g (sort xs)) = sum_list (map g xs)" for g :: "'a::linorder \<Rightarrow> nat"
  by (induction xs) (simp_all add: sum_list_map_insort)

text \<open>The number of pages expected, when every Image contributes one page.\<close>

lemma count_by_kind:
  assumes "\<forall>f \<in> set names. classify f = ImageKind \<longrightarrow> length (c f) = 1"
    and "\<forall>f \<in> set names. classify f = IgnoredKind \<longrightarrow> c f = []"
  shows "sum_list (map (\<lambda>f. length (c f)) names) =
         sum_list (map (\<lambda>f. length (c f)) (filter (\<lambda>f. classify f = DocumentKind) names)) +
         length (filter (\<lambda>f. classify f = ImageKind) names)"
  using assms
proof (induction names)
  case Nil
  show ?case by simp
next
  case (Cons f names)
  then show ?case by (cases "classify f") simp_all
qed

lemma contribution_Ignored: "classify f = IgnoredKind \<Longrightarrow> contribution E opts folder w f = []"
  by (simp add: contribution_def)

lemma merge_all_to_pdf_stdout:
  assumes "try_block E folder out opts (initial_locals w) = (r, m)"
  shows "stdout (world (snd (merge_all_to_pdf E folder out opts w))) =
         stdout w @ [case r of None \<Rightarrow> Successfully_created out | Some e \<Rightarrow> Error_occurred e]"
  using try_block_stdout[OF assms]
  by (cases r) (simp_all add: merge_all_to_pdf_after_try[OF assms] remove_temp_files_stdout
      print_def initial_locals_def)

lemma kinds_folder:
  "classify ''a.png'' = ImageKind" "classify ''b.pdf'' = DocumentKind"
  "classify ''c.jpg'' = ImageKind" "classify ''notes.txt'' = IgnoredKind"
  "classify ''temp_a.png.pdf'' = DocumentKind"
  by code_simp+

lemma names_alias:
  "is_pdf_name ''temp_a.png.pdf'' = True"
  "os_path_join ''.'' ''a.png'' = ''./a.png''"
  "os_path_join ''.'' ''temp_a.png.pdf'' = ''./temp_a.png.pdf''"
  by code_simp+

lemma merge_from_listing_filter:
  "merge_from_listing E input_folder output_pdf opts (filter (\<lambda>f. classify f \<noteq> IgnoredKind) names) w =
   merge_from_listing E input_folder output_pdf opts names w"
  by (simp add: merge_from_listing_def merge_listing_filter)

lemma merge_all_to_pdf_from_listing:
  "os_listdir E input_folder w = Inr names \<Longrightarrow>
   merge_all_to_pdf E input_folder output_pdf opts w =
   merge_from_listing E input_folder output_pdf opts names w"
  by (simp add: merge_all_to_pdf_def merge_from_listing_def try_block_def initial_locals_def)

subsection \<open>Places a run does not touch\<close>

lemma with_node_fs [simp]: "fs (with_node l x w) = (fs w)(l := x)"
  and with_node_stdout [simp]: "stdout (with_node l x w) = stdout w"
  by (simp_all add: with_node_def)

lemma with_node_in_fields [simp]:
  "world (with_node_in l x m) = with_node l x (world m)"
  "merger (with_node_in l x m) = merger m"
  "temp_files (with_node_in l x m) = temp_files m"
  by (simp_all add: with_node_in_def)

lemma with_node_update:
  "k \<noteq> l \<Longrightarrow> (with_node l x w)\<lparr>fs := ((fs w)(l := x))(k := y)\<rparr> =
     with_node l x (w\<lparr>fs := (fs w)(k := y)\<rparr>)"
  by (simp add: with_node_def fun_upd_twist)

lemma with_node_print: "print line (with_node l x w) = with_node l x (print line w)"
  by (simp add: print_def with_node_def)

lemma read_file_frame:
  "canon E p \<noteq> l \<Longrightarrow> read_file E p (with_node l x w) = read_file E p w"
  by (simp add: read_file_def)

lemma read_pdf_frame:
  "canon E p \<noteq> l \<Longrightarrow> read_pdf E p (with_node l x w) = read_pdf E p w"
  by (simp add: read_pdf_def read_file_frame)

lemma Image_open_frame:
  "canon E p \<noteq> l \<Longrightarrow> Image_open E p (with_node l x w) = Image_open E p w"
  by (simp add: Image_open_def read_file_frame)

lemma write_file_frame:
  "canon E p \<noteq> l \<Longrightarrow>
   write_file E p n (with_node l x w) = map_sum id (with_node l x) (write_file E p n w)"
  by (auto simp: write_file_def with_node_update split: option.splits node.splits)

lemma os_remove_frame:
  "canon E t \<noteq> l \<Longrightarrow>
   (case os_remove E t (with_node l x w) of Inl e \<Rightarrow> with_node l x w | Inr w1 \<Rightarrow> w1) =
   with_node l x (case os_remove E t w of Inl e \<Rightarrow> w | Inr w1 \<Rightarrow> w1)"
  by (auto simp: os_remove_def with_node_update split: option.splits node.splits)

lemma remove_temp_files_frame:
  "l \<notin> canon E ` set ps \<Longrightarrow>
   remove_temp_files E ps (with_node l x w) = with_node l x (remove_temp_files E ps w)"
proof (induction ps arbitrary: w)
  case Nil
  show ?case by simp
next
  case (Cons t ps)
  then have "canon E t \<noteq> l" "l \<notin> canon E ` set ps" by auto
  then show ?case using Cons.IH by (simp add: os_remove_frame)
qed

lemma convert_frame:
  assumes "canon E image_path \<noteq> l" "canon E output_pdf_path \<noteq> l"
  shows "convert_image_to_pdf E image_path output_pdf_path opts (with_node l x w) =
         map_sum id (with_node l x) (convert_image_to_pdf E image_path output_pdf_path opts w)"
  using assms
  by (simp add: convert_image_to_pdf_def Image_open_frame write_file_frame split: sum.splits)

lemma merger_append_frame:
  "canon E p \<noteq> l \<Longrightarrow>
   merger_append E p (with_node_in l x m) = map_sum id (with_node_in l x) (merger_append E p m)"
  by (simp add: merger_append_def read_pdf_frame with_node_in_def split: sum.splits)

lemma add_pdf_frame:
  "canon E p \<noteq> l \<Longrightarrow>
   add_pdf E p (with_node_in l x m) = map_prod id (with_node_in l x) (add_pdf E p m)"
  by (simp add: add_pdf_def merger_append_frame split: sum.splits)

lemma with_node_in_world:
  "(with_node_in l x m)\<lparr>world := with_node l x w\<rparr> = with_node_in l x (m\<lparr>world := w\<rparr>)"
  by (simp add: with_node_in_def)

lemma with_node_in_temp_files:
  "(with_node_in l x m)\<lparr>temp_files := ts\<rparr> = with_node_in l x (m\<lparr>temp_files := ts\<rparr>)"
  by (simp add: with_node_in_def)

lemma add_image_frame:
  assumes "canon E p \<noteq> l" "canon E (temp_name f) \<noteq> l"
  shows "add_image E opts p f (with_node_in l x m) =
         map_prod id (with_node_in l x) (add_image E opts p f m)"
  using assms
  by (simp add: add_image_def Let_def convert_frame with_node_in_world merger_append_frame
      with_node_in_temp_files split: sum.splits)

lemma process_file_frame:
  assumes "classify f \<noteq> IgnoredKind \<longrightarrow>
           canon E (os_path_join folder f) \<noteq> l \<and> canon E (temp_name f) \<noteq> l"
  shows "process_file E opts folder f (with_node_in l x m) =
         map_prod id (with_node_in l x) (process_file E opts folder f m)"
  using assms unfolding process_file_by_kind
  by (cases "classify f") (simp_all add: add_pdf_frame add_image_frame)

lemma process_files_frame:
  assumes "\<forall>f \<in> set names. classify f \<noteq> IgnoredKind \<longrightarrow>
           canon E (os_path_join folder f) \<noteq> l \<and> canon E (temp_name f) \<noteq> l"
  shows "process_files E opts folder names (with_node_in l x m) =
         map_prod id (with_node_in l x) (process_files E opts folder names m)"
  using assms
proof (induction names arbitrary: m)
  case Nil
  show ?case by simp
next
  case (Cons f names)
  have one: "process_file E opts folder f (with_node_in l x m) =
         map_prod id (with_node_in l x) (process_file E opts folder f m)"
    using Cons.prems by (intro process_file_frame) simp
  obtain r1 m1 where s: "process_file E opts folder f m = (r1, m1)"
    by (cases "process_file E opts folder f m")
  show ?case
  proof (cases r1)
    case None
    then show ?thesis using one s Cons.IH[of m1] Cons.prems by simp
  next
    case (Some e)
    then show ?thesis using one s by simp
  qed
qed

lemma merger_write_frame:
  "canon E p \<noteq> l \<Longrightarrow>
   merger_write E p (with_node_in l x m) = map_sum id (with_node_in l x) (merger_write E p m)"
  by (simp add: merger_write_def write_file_frame with_node_in_world split: sum.splits)

lemma merge_listing_frame:
  assumes "canon E out \<noteq> l"
    and "\<forall>f \<in> set names. classify f \<noteq> IgnoredKind \<longrightarrow>
           canon E (os_path_join folder f) \<noteq> l \<and> canon E (temp_name f) \<noteq> l"
  shows "merge_listing E folder out opts names (with_node_in l x m) =
         map_prod id (with_node_in l x) (merge_listing E folder out opts names m)"
proof -
  have "\<forall>f \<in> set (sort names). classify f \<noteq> IgnoredKind \<longrightarrow>
           canon E (os_path_join folder f) \<noteq> l \<and> canon E (temp_name f) \<noteq> l"
    using assms(2) by simp
  then have loop: "process_files E opts folder (sort names) (with_node_in l x m) =
         map_prod id (with_node_in l x) (process_files E opts folder (sort names) m)"
    by (rule process_files_frame)
  show ?thesis
    unfolding merge_listing_def loop
    by (simp add: merger_write_frame[OF assms(1)] with_node_print with_node_in_world
        split: prod.splits option.splits sum.splits)
qed

text \<open>The temporary files recorded by the loop are those of entries of the list.\<close>

lemma process_file_temp_files:
  "process_file E opts folder f m = (r, m') \<Longrightarrow>
   set (temp_files m') \<subseteq> set (temp_files m) \<union> (if classify f = IgnoredKind then {} else {temp_name f})"
  unfolding process_file_by_kind
  by (cases "classify f")
    (auto simp: add_pdf_result split: sum.splits elim!: add_image_cases)

lemma process_files_temp_files:
  "process_files E opts folder names m = (r, m') \<Longrightarrow>
   set (temp_files m') \<subseteq> set (temp_files m) \<union> temp_name ` {f \<in> set names. classify f \<noteq> IgnoredKind}"
proof (induction names arbitrary: m)
  case Nil
  then show ?case by simp
next
  case (Cons f names)
  obtain r1 m1 where s: "process_file E opts folder f m = (r1, m1)"
    by (cases "process_file E opts folder f m")
  note one = process_file_temp_files[OF s]
  show ?case
  proof (cases r1)
    case None
    with Cons.prems s have "process_files E opts folder names m1 = (r, m')" by simp
    from Cons.IH[OF this] one show ?thesis by (auto split: if_splits)
  next
    case (Some e)
    with Cons.prems s have "m' = m1" by simp
    with one show ?thesis by (auto split: if_splits)
  qed
qed

lemma merge_listing_temp_files:
  assumes "merge_listing E folder out opts names m = (r, m')"
  shows "set (temp_files m') \<subseteq> set (temp_files m) \<union> temp_name ` {f \<in> set names. classify f \<noteq> IgnoredKind}"
  using assms
  by (cases rule: merge_listing_cases) (auto dest!: process_files_temp_files)

lemma except_block_frame:
  "except_block (map_prod id (with_node_in l x) r) = map_prod id (with_node_in l x) (except_block r)"
  by (cases r) (simp add: except_block_def with_node_print with_node_in_world split: option.splits)

lemma finally_block_frame:
  assumes "l \<notin> canon E ` set (temp_files (snd r))"
  shows "finally_block E (map_prod id (with_node_in l x) r) =
         map_prod id (with_node_in l x) (finally_block E r)"
  using assms
  by (cases r) (simp add: finally_block_def remove_temp_files_frame with_node_in_def)

lemma except_block_temp_files: "temp_files (snd (except_block r)) = temp_files (snd r)"
  by (cases r) (simp add: except_block_def split: option.splits)

lemma initial_locals_frame: "initial_locals (with_node l x w) = with_node_in l x (initial_locals w)"
  by (simp add: initial_locals_def with_node_in_def)

lemma touched_iff:
  "l \<notin> set (touched E folder out names) \<longleftrightarrow>
     canon E folder \<noteq> l \<and> canon E out \<noteq> l \<and>
     (\<forall>f \<in> set names. classify f \<noteq> IgnoredKind \<longrightarrow>
        canon E (os_path_join folder f) \<noteq> l \<and> canon E (temp_name f) \<noteq> l)"
  by (auto simp: touched_def)

text \<open>A run neither reads nor writes a place that is not among the touched ones.\<close>

lemma merge_from_listing_frame:
  assumes "l \<notin> set (touched E folder out names)"
  shows "merge_from_listing E folder out opts names (with_node l x w) =
         map_prod id (with_node_in l x) (merge_from_listing E folder out opts names w)"
proof -
  from assms have out: "canon E out \<noteq> l"
    and entries: "\<forall>f \<in> set names. classify f \<noteq> IgnoredKind \<longrightarrow>
        canon E (os_path_join folder f) \<noteq> l \<and> canon E (temp_name f) \<noteq> l"
    by (simp_all add: touched_iff)
  let ?r = "merge_listing E folder out opts names (initial_locals w)"
  have "set (temp_files (snd ?r)) \<subseteq> temp_name ` {f \<in> set names. classify f \<noteq> IgnoredKind}"
    using merge_listing_temp_files[of E folder out opts names "initial_locals w" "fst ?r" "snd ?r"]
    by (simp add: initial_locals_def)
  then have "l \<notin> canon E ` set (temp_files (snd (except_block ?r)))"
    using entries unfolding except_block_temp_files by auto
  then show ?thesis
    unfolding merge_from_listing_def initial_locals_frame merge_listing_frame[OF out entries]
      except_block_frame
    by (rule finally_block_frame)
qed

lemma os_listdir_frame:
  "canon E p \<noteq> l \<Longrightarrow> os_listdir E p (with_node l x w) = os_listdir E p w"
  by (simp add: os_listdir_def)

lemma merge_all_to_pdf_frame:
  assumes "os_listdir E folder w = Inr names" "l \<notin> set (touched E folder out names)"
  shows "merge_all_to_pdf E folder out opts (with_node l x w) =
         map_prod id (with_node_in l x) (merge_all_to_pdf E folder out opts w)"
proof -
  from assms(2) have "canon E folder \<noteq> l" by (simp add: touched_iff)
  then have "os_listdir E folder (with_node l x w) = Inr names"
    using assms(1) by (simp add: os_listdir_frame)
  then show ?thesis
    by (simp add: merge_all_to_pdf_from_listing assms(1) merge_from_listing_frame[OF assms(2)])
qed

lemma touched_removeAll:
  "classify d = IgnoredKind \<Longrightarrow>
   touched E folder out (removeAll d names) = touched E folder out names"
proof -
  assume d: "classify d = IgnoredKind"
  have "filter (\<lambda>f. classify f \<noteq> IgnoredKind) (removeAll d names) =
        filter (\<lambda>f. classify f \<noteq> IgnoredKind) names"
    using d by (induction names) auto
  then show ?thesis by (simp add: touched_def)
qed

lemma merge_from_listing_removeAll:
  assumes "classify d = IgnoredKind"
  shows "merge_from_listing E folder out opts (removeAll d names) w =
         merge_from_listing E folder out opts names w"
proof -
  have "filter (\<lambda>f. classify f \<noteq> IgnoredKind) (removeAll d names) =
        filter (\<lambda>f. classify f \<noteq> IgnoredKind) names"
    using assms by (induction names) auto
  then show ?thesis
    using merge_from_listing_filter[of E folder out opts "removeAll d names" w]
      merge_from_listing_filter[of E folder out opts names w] by simp
qed

lemma with_node_same: "with_node l (fs w l) w = w"
  by (simp add: with_node_def)

lemma merge_all_to_pdf_untouched:
  assumes "os_listdir E folder w = Inr names" "l \<notin> set (touched E folder out names)"
  shows "fs (world (snd (merge_all_to_pdf E folder out opts w))) l = fs w l"
proof -
  have "merge_all_to_pdf E folder out opts w =
        map_prod id (with_node_in l (fs w l)) (merge_all_to_pdf E folder out opts w)"
    using merge_all_to_pdf_frame[OF assms, of opts "fs w l"] by (simp add: with_node_same)
  then have "world (snd (merge_all_to_pdf E folder out opts w)) =
        with_node l (fs w l) (world (snd (merge_all_to_pdf E folder out opts w)))"
    by (metis snd_map_prod with_node_in_fields(1))
  then have "fs (world (snd (merge_all_to_pdf E folder out opts w))) l =
        fs (with_node l (fs w l) (world (snd (merge_all_to_pdf E folder out opts w)))) l"
    by simp
  then show ?thesis by simp
qed

lemma names_subdirs:
  "is_pdf_name ''old.pdf'' = True"
  "is_pdf_name ''photos'' = False" "is_image_name ''photos'' = False"
  "classify ''photos'' = IgnoredKind"
  "os_path_join ''in'' ''old.pdf'' = ''in/old.pdf''"
  "os_path_join ''in'' ''photos'' = ''in/photos''"
  by code_simp+

subsection \<open>The temporary files of a successful run\<close>

text \<open>A loop that ends without an exception has recorded the temporary file of every image.\<close>

lemma process_files_recorded:
  "process_files E opts folder names m = (None, m') \<Longrightarrow>
   temp_files m' = temp_files m @ map temp_name (filter (\<lambda>f. classify f = ImageKind) names)"
proof (induction names arbitrary: m)
  case Nil
  then show ?case by simp
next
  case (Cons f names)
  obtain r1 m1 where s: "process_file E opts folder f m = (r1, m1)"
    by (cases "process_file E opts folder f m")
  have r1: "r1 = None" using Cons.prems s by (cases r1) simp_all
  with s Cons.prems have rest: "process_files E opts folder names m1 = (None, m')" by simp
  from Cons.IH[OF rest] process_file_None(2)[OF s[unfolded r1]] show ?case by simp
qed

lemma successful_run_records_all:
  assumes "os_listdir E folder w = Inr names"
    and "stdout (world (snd (merge_all_to_pdf E folder out opts w))) =
         stdout w @ [Successfully_created out]"
  shows "temp_files (snd (merge_all_to_pdf E folder out opts w)) =
         map temp_name (filter (\<lambda>f. classify f = ImageKind) (sort names))"
proof -
  let ?m0 = "initial_locals w"
  obtain r m where t: "try_block E folder out opts ?m0 = (r, m)"
    by (cases "try_block E folder out opts ?m0")
  have r: "r = None"
    using merge_all_to_pdf_stdout[OF t] assms(2) by (cases r) simp_all
  have w0: "world ?m0 = w" "temp_files ?m0 = []" by (simp_all add: initial_locals_def)
  from t assms(1) have "merge_listing E folder out opts names ?m0 = (None, m)"
    by (simp add: try_block_def r w0(1))
  then obtain m1 where loop: "process_files E opts folder (sort names) ?m0 = (None, m1)"
    and m: "temp_files m = temp_files m1"
    by (cases rule: merge_listing_cases) auto
  from process_files_recorded[OF loop] m show ?thesis
    by (simp add: merge_all_to_pdf_after_try[OF t] w0(2))
qed

subsection \<open>The temporary files of every run\<close>

lemma process_files_append:
  "process_files E opts folder (xs @ ys) m =
     (case process_files E opts folder xs m of
        (Some e, m1) \<Rightarrow> (Some e, m1)
      | (None, m1) \<Rightarrow> process_files E opts folder ys m1)"
  by (induction xs arbitrary: m) (auto split: prod.splits option.splits)

text \<open>An entry that raises records no temporary file.\<close>

lemma process_file_failed:
  assumes "process_file E opts folder f m = (Some e, m')"
  shows "temp_files m' = temp_files m" and "merger m' = merger m"
  using assms unfolding process_file_by_kind
  by (cases "classify f"; auto simp: add_pdf_result split: sum.splits elim!: add_image_cases)+

text \<open>
  The loop has gone through the entries \<open>finished\<close> and either ended or been left by an
  exception at the next entry: the temporary files recorded are those of the images among
  \<open>finished\<close>.
\<close>

lemma process_files_stopped:
  assumes d: "fst (process_files E opts folder finished m) = None"
    and r: "rest = [] \<or>
       fst (process_file E opts folder (hd rest) (snd (process_files E opts folder finished m))) \<noteq> None"
  shows "temp_files (snd (process_files E opts folder (finished @ rest) m)) =
         temp_files m @ map temp_name (filter (\<lambda>f. classify f = ImageKind) finished)"
    and "fst (process_files E opts folder (finished @ rest) m) =
         (if rest = [] then None
          else fst (process_file E opts folder (hd rest) (snd (process_files E opts folder finished m))))"
proof -
  obtain md where pd: "process_files E opts folder finished m = (None, md)"
    using d by (cases "process_files E opts folder finished m") simp
  note rec = process_files_recorded[OF pd]
  show "temp_files (snd (process_files E opts folder (finished @ rest) m)) =
         temp_files m @ map temp_name (filter (\<lambda>f. classify f = ImageKind) finished)"
  proof (cases rest)
    case Nil
    then show ?thesis using pd rec by simp
  next
    case (Cons f rest')
    with r pd obtain e m' where pf: "process_file E opts folder f md = (Some e, m')"
      by (cases "process_file E opts folder f md") auto
    then have "process_files E opts folder (finished @ rest) m = (Some e, m')"
      by (simp add: process_files_append pd Cons)
    then show ?thesis using process_file_failed(1)[OF pf] rec by simp
  qed
  show "fst (process_files E opts folder (finished @ rest) m) =
         (if rest = [] then None
          else fst (process_file E opts folder (hd rest) (snd (process_files E opts folder finished m))))"
  proof (cases rest)
    case Nil
    then show ?thesis using pd by simp
  next
    case (Cons f rest')
    with r pd obtain e m' where pf: "process_file E opts folder f md = (Some e, m')"
      by (cases "process_file E opts folder f md") auto
    then have "process_files E opts folder (finished @ rest) m = (Some e, m')"
      by (simp add: process_files_append pd Cons)
    then show ?thesis using pf pd Cons by simp
  qed
qed

lemma merge_all_to_pdf_temp_files:
  assumes "os_listdir E folder w = Inr names"
  shows "temp_files (snd (merge_all_to_pdf E folder out opts w)) =
         temp_files (snd (process_files E opts folder (sort names) (initial_locals w)))"
proof -
  let ?m0 = "initial_locals w"
  obtain r m where t: "try_block E folder out opts ?m0 = (r, m)"
    by (cases "try_block E folder out opts ?m0")
  have w0: "world ?m0 = w" by (simp add: initial_locals_def)
  from t assms have ml: "merge_listing E folder out opts names ?m0 = (r, m)"
    by (simp add: try_block_def w0)
  obtain r1 m1 where p: "process_files E opts folder (sort names) ?m0 = (r1, m1)"
    by (cases "process_files E opts folder (sort names) ?m0")
  have "temp_files m = temp_files m1"
    using ml p by (auto simp: merge_listing_def merger_write_def split: option.splits sum.splits)
  then show ?thesis by (simp add: merge_all_to_pdf_after_try[OF t] p)
qed

lemma recorded_on_every_run:
  assumes "os_listdir E folder w = Inr names" and "sort names = finished @ rest"
    and "fst (process_files E opts folder finished (initial_locals w)) = None"
    and "rest = [] \<or>
       fst (process_file E opts folder (hd rest)
              (snd (process_files E opts folder finished (initial_locals w)))) \<noteq> None"
  shows "temp_files (snd (merge_all_to_pdf E folder out opts w)) =
         map temp_name (filter (\<lambda>f. classify f = ImageKind) finished)"
  using process_files_stopped(1)[OF assms(3,4)] merge_all_to_pdf_temp_files[OF assms(1), of out opts]
  by (simp add: assms(2) initial_locals_def)

lemma listing_failed:
  assumes "os_listdir E folder w = Inl e"
  shows "merge_all_to_pdf E folder out opts w =
         (None, \<lparr>merger = [], temp_files = [], world = print (Error_occurred e) w\<rparr>)"
proof -
  have "try_block E folder out opts (initial_locals w) = (Some e, initial_locals w)"
    using assms by (simp add: try_block_def initial_locals_def)
  from merge_all_to_pdf_after_try[OF this] show ?thesis by (simp add: initial_locals_def)
qed

text \<open>The error line of a run whose loop or final write raises.\<close>

lemma loop_failed:
  assumes "os_listdir E folder w = Inr names"
    and "fst (process_files E opts folder (sort names) (initial_locals w)) = Some e"
  shows "stdout (world (snd (merge_all_to_pdf E folder out opts w))) = stdout w @ [Error_occurred e]"
proof -
  obtain m1 where p: "process_files E opts folder (sort names) (initial_locals w) = (Some e, m1)"
    using assms(2) by (cases "process_files E opts folder (sort names) (initial_locals w)") simp
  have "try_block E folder out opts (initial_locals w) = (Some e, m1)"
    using assms(1) p by (simp add: try_block_def merge_listing_def initial_locals_def)
  from merge_all_to_pdf_stdout[OF this] show ?thesis by simp
qed

lemma write_failed:
  assumes "os_listdir E folder w = Inr names"
    and "fst (process_files E opts folder (sort names) (initial_locals w)) = None"
    and "merger_write E out (snd (process_files E opts folder (sort names) (initial_locals w))) = Inl e"
  shows "stdout (world (snd (merge_all_to_pdf E folder out opts w))) = stdout w @ [Error_occurred e]"
proof -
  obtain m1 where p: "process_files E opts folder (sort names) (initial_locals w) = (None, m1)"
    using assms(2) by (cases "process_files E opts folder (sort names) (initial_locals w)") simp
  have "try_block E folder out opts (initial_locals w) = (Some e, m1)"
    using assms(1,3) p by (simp add: try_block_def merge_listing_def initial_locals_def)
  from merge_all_to_pdf_stdout[OF this] show ?thesis by simp
qed

text \<open>The three ways in which an entry raises.\<close>

lemma process_file_raises:
  "classify f = DocumentKind \<Longrightarrow> merger_append E (os_path_join folder f) m = Inl e \<Longrightarrow>
   fst (process_file E opts folder f m) = Some e"
  "classify f = ImageKind \<Longrightarrow>
   convert_image_to_pdf E (os_path_join folder f) (temp_name f) opts (world m) = Inl e \<Longrightarrow>
   fst (process_file E opts folder f m) = Some e"
  "classify f = ImageKind \<Longrightarrow>
   convert_image_to_pdf E (os_path_join folder f) (temp_name f) opts (world m) = Inr w1 \<Longrightarrow>
   merger_append E (temp_name f) (m\<lparr>world := w1\<rparr>) = Inl e \<Longrightarrow>
   fst (process_file E opts folder f m) = Some e"
  by (simp_all add: process_file_by_kind add_pdf_def add_image_def Let_def)




lemma kinds_images: "classify ''poster.jpg'' = ImageKind" "classify ''wide.png'' = ImageKind"
  by code_simp+

section \<open>The claims about \<open>convert_image_to_pdf\<close>\<close>

text \<open>
  Claim C3, as amended. With \<open>fit_to_page\<close> and \<open>maintain_aspect_ratio\<close> set, whenever
  \<open>convert_image_to_pdf\<close> succeeds on an image with sides below 2 ^ 53, the file it has
  written holds one page whose image block has both sides at least 1 and lies within the
  page less 40 units up to rounding: a side is at most (page side - 40) (1 + 2 ^ - 53) ^ 3.
  The block is centred up to rounding: its position is \<open>(page - block) / 2\<close> as computed in
  floats, which differs from the exact (page - block) / 2 by at most
  (|page| + block) / 2 ^ 52 + 2 ^ - 1074. On a page side that is a whole number the block
  lies exactly within the margins of 20 units and is exactly centred.
\<close>

theorem fitted_block_within_margins:
  assumes "fit_to_page opts" and "maintain_aspect_ratio opts"
    and "convert_image_to_pdf E image_path output_pdf_path opts w = Inr w'"
    and "Image_open E image_path w = Inr img"
    and "img_width img < 2 ^ 53" and "img_height img < 2 ^ 53"
  shows "\<exists>d. fs w' (canon E output_pdf_path) = Some (PdfFile [Converted d]) \<and>
           pagesize d = page_size opts \<and>
           1 \<le> new_width d \<and> 1 \<le> new_height d \<and>
           real_of_int (new_width d) \<le> (fst (page_size opts) - 40) * (1 + 1 / 2 ^ 53) ^ 3 \<and>
           real_of_int (new_height d) \<le> (snd (page_size opts) - 40) * (1 + 1 / 2 ^ 53) ^ 3 \<and>
           x_pos d = fl (fl (fst (page_size opts) - fl (real_of_int (new_width d))) / 2) \<and>
           y_pos d = fl (fl (snd (page_size opts) - fl (real_of_int (new_height d))) / 2) \<and>
           \<bar>x_pos d - (fst (page_size opts) - real_of_int (new_width d)) / 2\<bar>
             \<le> (\<bar>fst (page_size opts)\<bar> + real_of_int (new_width d)) / 2 ^ 52 + 2 powi (- 1074) \<and>
           \<bar>y_pos d - (snd (page_size opts) - real_of_int (new_height d)) / 2\<bar>
             \<le> (\<bar>snd (page_size opts)\<bar> + real_of_int (new_height d)) / 2 ^ 52 + 2 powi (- 1074) \<and>
           (whole_points (fst (page_size opts)) \<longrightarrow>
              real_of_int (new_width d) \<le> fst (page_size opts) - 40 \<and>
              x_pos d = (fst (page_size opts) - real_of_int (new_width d)) / 2 \<and>
              20 \<le> x_pos d \<and>
              x_pos d + real_of_int (new_width d) \<le> fst (page_size opts) - 20) \<and>
           (whole_points (snd (page_size opts)) \<longrightarrow>
              real_of_int (new_height d) \<le> snd (page_size opts) - 40 \<and>
              y_pos d = (snd (page_size opts) - real_of_int (new_height d)) / 2 \<and>
              20 \<le> y_pos d \<and>
              y_pos d + real_of_int (new_height d) \<le> snd (page_size opts) - 20)"
proof -
  from assms(3) obtain img' d where io: "Image_open E image_path w = Inr img'"
    and r: "render E opts img' = Inr d"
    and w': "w' = w\<lparr>fs := (fs w)(canon E output_pdf_path \<mapsto> PdfFile [Converted d])\<rparr>"
    by (rule convert_success)
  from io assms(4) have [simp]: "img' = img" by simp
  from r obtain x y nw nh where p: "placement opts (to_RGB img) = Inr ((x, y), (nw, nh))"
    and d: "d = \<lparr>pagesize = page_size opts, x_pos = x, y_pos = y, new_width = nw, new_height = nh,
          jpeg_size = (nw, nh), jpeg_mode = ''RGB'', jpeg_quality = quality opts, jpeg_dpi = dpi opts\<rparr>"
    by (auto elim: render_success)
  from p have p': "placement opts img = Inr ((x, y), (nw, nh))" by simp
  note f = placement_fit_success[OF assms(1) p']
  note a = target_within_available[OF assms(2) f(1) assms(5) f(2) assms(6) f(3)[symmetric] f(4,5)]
  have aw: "real_of_int nw \<le> fl (fst (page_size opts) - 40) * (1 + 1 / 2 ^ 53)\<^sup>2"
    and ah: "real_of_int nh \<le> fl (snd (page_size opts) - 40) * (1 + 1 / 2 ^ 53)\<^sup>2"
    using a by (simp_all only: available_width_eq available_height_eq)
  have fw: "real_of_int nw \<le> (fst (page_size opts) - 40) * (1 + 1 / 2 ^ 53) ^ 3"
    using f(4) aw by (rule within_page_less_margins)
  have fh: "real_of_int nh \<le> (snd (page_size opts) - 40) * (1 + 1 / 2 ^ 53) ^ 3"
    using f(5) ah by (rule within_page_less_margins)
  have xe: "x = fl (fl (fst (page_size opts) - fl (real_of_int nw)) / 2)"
    and ye: "y = fl (fl (snd (page_size opts) - fl (real_of_int nh)) / 2)"
    using f(6,7) by (simp_all only: centred_eq)
  have xc: "\<bar>x - (fst (page_size opts) - real_of_int nw) / 2\<bar>
      \<le> (\<bar>fst (page_size opts)\<bar> + real_of_int nw) / 2 ^ 52 + 2 powi (- 1074)"
    unfolding f(6) using f(4) by (rule centred_close)
  have yc: "\<bar>y - (snd (page_size opts) - real_of_int nh) / 2\<bar>
      \<le> (\<bar>snd (page_size opts)\<bar> + real_of_int nh) / 2 ^ 52 + 2 powi (- 1074)"
    unfolding f(7) using f(5) by (rule centred_close)
  have ww: "real_of_int nw \<le> fst (page_size opts) - 40 \<and>
        x = (fst (page_size opts) - real_of_int nw) / 2 \<and> 20 \<le> x \<and>
        x + real_of_int nw \<le> fst (page_size opts) - 20"
    if "whole_points (fst (page_size opts))"
    using whole_side_exact[of "fst (page_size opts)" nw] that f(4) aw
    unfolding f(6) whole_points_def by blast
  have wh: "real_of_int nh \<le> snd (page_size opts) - 40 \<and>
        y = (snd (page_size opts) - real_of_int nh) / 2 \<and> 20 \<le> y \<and>
        y + real_of_int nh \<le> snd (page_size opts) - 20"
    if "whole_points (snd (page_size opts))"
    using whole_side_exact[of "snd (page_size opts)" nh] that f(5) ah
    unfolding f(7) whole_points_def by blast
  have sel: "fs w' (canon E output_pdf_path) = Some (PdfFile [Converted d])"
    "pagesize d = page_size opts" "new_width d = nw" "new_height d = nh" "x_pos d = x" "y_pos d = y"
    by (simp_all add: w' d)
  show ?thesis
    unfolding ex_simps
    apply (rule exI[of _ d])
    unfolding sel
    using f(4,5) fw fh xe ye xc yc ww wh by blast
qed

theorem fitted_block_within_margins_witness:
  "\<exists>d. fs (image_world\<lparr>fs := (fs image_world)(''temp_a.png.pdf'' \<mapsto> PdfFile [Converted fitted_square])\<rparr>)
          (canon permissive ''temp_a.png.pdf'') = Some (PdfFile [Converted d]) \<and>
        pagesize d = page_size default_settings \<and>
        1 \<le> new_width d \<and> 1 \<le> new_height d \<and>
        real_of_int (new_width d) \<le> 612 - 40 \<and>
        x_pos d = (612 - real_of_int (new_width d)) / 2 \<and>
        20 \<le> x_pos d \<and> x_pos d + real_of_int (new_width d) \<le> 612 - 20 \<and>
        real_of_int (new_height d) \<le> 792 - 40 \<and>
        y_pos d = (792 - real_of_int (new_height d)) / 2 \<and>
        20 \<le> y_pos d \<and> y_pos d + real_of_int (new_height d) \<le> 792 - 20"
proof -
  have h: "fit_to_page default_settings" "maintain_aspect_ratio default_settings"
    by (simp_all add: default_settings_def)
  have s: "img_width square_image < 2 ^ 53" "img_height square_image < 2 ^ 53"
    by (simp_all add: square_image_def)
  have p: "page_size default_settings = (612, 792)"
    by (simp add: default_settings_def letter_eq)
  have wp: "whole_points 612" "whole_points 792"
    by (simp_all add: whole_points_def)
  from fitted_block_within_margins [OF h convert_square Image_open_square s]
  show ?thesis unfolding p fst_conv snd_conv using wp by blast
qed

text \<open>
  Claim C3 as stated fails in two ways. The conversion does not produce a block for every
  image and every page size: an image of 10000 by 1 pixels on a letter page is scaled by
  0.0572; the height truncates to 0 and \<open>Image.resize\<close> raises \<open>ValueError\<close>. And a block
  that is produced can pass the margin by a rounding error: on a page 611.9999999999999
  wide an image of 279 by 279 pixels is scaled to a width of 572, more than the page
  width less 40, and is placed at 19.99999999999994, less than 20.
\<close>

theorem block_missing_or_beyond_margin:
  "convert_image_to_pdf permissive ''in/wide.png'' ''temp_wide.png.pdf'' default_settings image_world =
     Inl ValueError \<and>
   convert_image_to_pdf permissive ''in/tight.png'' ''temp_tight.png.pdf'' tight_settings photo_world =
     Inr (photo_world\<lparr>fs := (fs photo_world)(''temp_tight.png.pdf'' \<mapsto> PdfFile [Converted fitted_tight])\<rparr>) \<and>
   fst (page_size tight_settings) - 40 < real_of_int (new_width fitted_tight) \<and>
   x_pos fitted_tight < 20"
  by (simp add: convert_image_to_pdf_def render_def os_defs geometry_defs permissive_def
      default_settings_def image_world_def wide_image_def letter_eq
      tight_settings_def tight_image_def photo_world_def fitted_tight_def)

text \<open>
  Claim C5, as amended. With \<open>fit_to_page\<close> and \<open>maintain_aspect_ratio\<close> set, both sides of an
  image are multiplied by the one factor min (available width / width, available height /
  height), each operation rounded to the nearest float, and each product is truncated to
  an integer. When both results are at least 1 (and the image opens with sides below
  2 ^ 53, the encoder accepts the size and the output can be written), the conversion
  succeeds and draws a block of exactly these sides. Each side differs from the exactly
  scaled side by the truncation and two roundings: it is at most the exactly scaled side
  times (1 + 2 ^ - 53) ^ 2, and more than the exactly scaled side times (1 - 2 ^ - 53) ^ 2
  less 1.
\<close>

theorem aspect_ratio_single_factor:
  fixes opts :: settings and img :: pil_image
  defines "aw \<equiv> fl (fst (page_size opts) - 40)"
    and "ah \<equiv> fl (snd (page_size opts) - 40)"
    and "W \<equiv> real (img_width img)" and "H \<equiv> real (img_height img)"
  defines "r \<equiv> min (fl (aw / W)) (fl (ah / H))"
    and "\<rho> \<equiv> min (aw / W) (ah / H)"
  defines "nw \<equiv> py_int (fl (W * r))" and "nh \<equiv> py_int (fl (H * r))"
  assumes "fit_to_page opts" and "maintain_aspect_ratio opts"
    and "Image_open E image_path w = Inr img"
    and "img_width img < 2 ^ 53" and "img_height img < 2 ^ 53"
    and "1 \<le> nw" and "1 \<le> nh" and "encodable E nw nh"
    and "writable E (canon E output_pdf_path)"
    and "\<forall>names. fs w (canon E output_pdf_path) \<noteq> Some (Directory names)"
  shows "convert_image_to_pdf E image_path output_pdf_path opts w =
           Inr (w\<lparr>fs := (fs w)(canon E output_pdf_path \<mapsto> PdfFile [Converted
              \<lparr>pagesize = page_size opts,
               x_pos = fl (fl (fst (page_size opts) - fl (real_of_int nw)) / 2),
               y_pos = fl (fl (snd (page_size opts) - fl (real_of_int nh)) / 2),
               new_width = nw, new_height = nh, jpeg_size = (nw, nh),
               jpeg_mode = ''RGB'', jpeg_quality = quality opts, jpeg_dpi = dpi opts\<rparr>])\<rparr>) \<and>
         W * \<rho> * (1 - 1 / 2 ^ 53)\<^sup>2 - 1 < real_of_int nw \<and>
         real_of_int nw \<le> W * \<rho> * (1 + 1 / 2 ^ 53)\<^sup>2 \<and>
         H * \<rho> * (1 - 1 / 2 ^ 53)\<^sup>2 - 1 < real_of_int nh \<and>
         real_of_int nh \<le> H * \<rho> * (1 + 1 / 2 ^ 53)\<^sup>2"
proof -
  have ts: "target_size opts img = (nw, nh)"
    using target_size_maintain[OF assms(10,12,13)]
    by (simp add: nw_def nh_def r_def aw_def ah_def W_def H_def available_width_eq available_height_eq)
  have wpos: "0 < img_width img"
  proof (rule ccontr)
    assume "\<not> 0 < img_width img"
    then have "nw = 0" by (simp add: nw_def W_def py_int_def)
    with assms(14) show False by simp
  qed
  have hpos: "0 < img_height img"
  proof (rule ccontr)
    assume "\<not> 0 < img_height img"
    then have "nh = 0" by (simp add: nh_def H_def py_int_def)
    with assms(15) show False by simp
  qed
  have pl: "placement opts img =
      Inr ((centred (fst (page_size opts)) nw, centred (snd (page_size opts)) nh), (nw, nh))"
    using assms(9,14,15) wpos hpos by (simp add: placement_def ts)
  have nd: "fs w (canon E output_pdf_path) = Some (Directory names) \<longleftrightarrow> False" for names
    using assms(18) by simp
  have cv: "convert_image_to_pdf E image_path output_pdf_path opts w =
           Inr (w\<lparr>fs := (fs w)(canon E output_pdf_path \<mapsto> PdfFile [Converted
              \<lparr>pagesize = page_size opts,
               x_pos = fl (fl (fst (page_size opts) - fl (real_of_int nw)) / 2),
               y_pos = fl (fl (snd (page_size opts) - fl (real_of_int nh)) / 2),
               new_width = nw, new_height = nh, jpeg_size = (nw, nh),
               jpeg_mode = ''RGB'', jpeg_quality = quality opts, jpeg_dpi = dpi opts\<rparr>])\<rparr>)"
    using assms(11,16,17,18)
    by (auto simp: convert_image_to_pdf_def render_def Let_def pl write_file_def centred_eq
        split: option.splits node.splits)
  note b = target_size_bounds[OF assms(10) wpos assms(12) hpos assms(13) ts assms(14,15)]
  show ?thesis
    using cv b by (simp only: \<rho>_def W_def H_def aw_def ah_def available_width_eq available_height_eq)
qed

theorem aspect_ratio_single_factor_witness:
  "convert_image_to_pdf permissive ''in/poster.jpg'' ''temp_poster.jpg.pdf'' default_settings image_world =
     Inr (image_world\<lparr>fs := (fs image_world)(''temp_poster.jpg.pdf'' \<mapsto> PdfFile [Converted fitted_poster])\<rparr>) \<and>
   3000 * (143 / 750) * (1 - 1 / 2 ^ 53)\<^sup>2 - 1 < real_of_int (new_width fitted_poster) \<and>
   real_of_int (new_width fitted_poster) \<le> 3000 * (143 / 750) * (1 + 1 / 2 ^ 53)\<^sup>2 \<and>
   2000 * (143 / 750) * (1 - 1 / 2 ^ 53)\<^sup>2 - 1 < real_of_int (new_height fitted_poster) \<and>
   real_of_int (new_height fitted_poster) \<le> 2000 * (143 / 750) * (1 + 1 / 2 ^ 53)\<^sup>2"
proof -
  have h: "fit_to_page default_settings" "maintain_aspect_ratio default_settings"
    by (simp_all add: default_settings_def)
  have s: "img_width poster_image < 2 ^ 53" "img_height poster_image < 2 ^ 53"
    by (simp_all add: poster_image_def)
  have p: "page_size default_settings = (612, 792)"
    by (simp add: default_settings_def letter_eq)
  have i: "img_width poster_image = 3000" "img_height poster_image = 2000"
    by (simp_all add: poster_image_def)
  have q: "quality default_settings = 85" "dpi default_settings = 300"
    by (simp_all add: default_settings_def)
  have c: "canon permissive ''temp_poster.jpg.pdf'' = ''temp_poster.jpg.pdf''"
    by (simp add: permissive_def)
  have e: "encodable permissive 572 381" "writable permissive ''temp_poster.jpg.pdf''"
    by (simp_all add: permissive_def)
  have n: "\<forall>names. fs image_world ''temp_poster.jpg.pdf'' \<noteq> Some (Directory names)"
    by (simp add: image_world_def)
  show ?thesis
    using aspect_ratio_single_factor [OF h Image_open_poster s, of "''temp_poster.jpg.pdf''"]
    unfolding p i q c fst_conv snd_conv
    using e n
    by (simp add: rounded_letter_3000x2000 py_int_def fitted_poster_def letter_eq)
qed

text \<open>
  Claim C5 as stated fails: the deviation is not that of truncation alone and can exceed
  1 unit. A photograph of 4000 by 3000 pixels on a letter page has the factor 0.143 and
  the exactly scaled height 429, a whole number, but the float nearest to 0.143 is below
  it, the product is 428.99999999999994 and the height drawn is 428. On a page
  944.9130434782609 wide an image of 13 by 23 pixels gets the height 1600, while the
  exactly scaled height is above 1601.
\<close>

theorem scaled_side_off_by_rounding:
  "convert_image_to_pdf permissive ''in/photo.jpg'' ''temp_photo.jpg.pdf'' default_settings photo_world =
     Inr (photo_world\<lparr>fs := (fs photo_world)(''temp_photo.jpg.pdf'' \<mapsto> PdfFile [Converted fitted_photo])\<rparr>) \<and>
   new_height fitted_photo = 428 \<and>
   py_int (real (img_height photo_image) *
           min ((fst (page_size default_settings) - 40) / real (img_width photo_image))
               ((snd (page_size default_settings) - 40) / real (img_height photo_image))) = 429 \<and>
   convert_image_to_pdf permissive ''in/skew.png'' ''temp_skew.png.pdf'' skew_settings photo_world =
     Inr (photo_world\<lparr>fs := (fs photo_world)(''temp_skew.png.pdf'' \<mapsto> PdfFile [Converted fitted_skew])\<rparr>) \<and>
   1 < real (img_height skew_image) *
         min ((fst (page_size skew_settings) - 40) / real (img_width skew_image))
             ((snd (page_size skew_settings) - 40) / real (img_height skew_image))
       - real_of_int (new_height fitted_skew)"
  by (simp add: convert_image_to_pdf_def render_def os_defs geometry_defs permissive_def
      default_settings_def photo_world_def photo_image_def fitted_photo_def letter_eq
      skew_settings_def skew_image_def fitted_skew_def py_int_def)

text \<open>
  Claim C8. With \<open>fit_to_page\<close> unset, the image is drawn at the origin (0, 0) with its own
  pixel width and height as the size of the block, whatever the page size and the dpi;
  the image is not resized (the JPEG drawn has the pixel size of the input).
\<close>

theorem unfitted_image_at_origin:
  assumes "\<not> fit_to_page opts"
  shows "placement opts img = Inr ((0, 0), (int (img_width img), int (img_height img))) \<and>
         (Image_open E image_path w = Inr img \<and>
          encodable E (int (img_width img)) (int (img_height img)) \<longrightarrow>
          convert_image_to_pdf E image_path output_pdf_path opts w =
          write_file E output_pdf_path
            (PdfFile [Converted
               \<lparr>pagesize = page_size opts, x_pos = 0, y_pos = 0,
                new_width = int (img_width img), new_height = int (img_height img),
                jpeg_size = (int (img_width img), int (img_height img)),
                jpeg_mode = ''RGB'', jpeg_quality = quality opts, jpeg_dpi = dpi opts\<rparr>]) w)"
  using assms
  by (simp add: convert_image_to_pdf_def render_def placement_def)

theorem unfitted_image_at_origin_witness:
  "convert_image_to_pdf permissive ''in/poster.jpg'' ''temp_poster.jpg.pdf'' native_settings image_world =
   Inr (image_world\<lparr>fs := (fs image_world)(''temp_poster.jpg.pdf'' \<mapsto> PdfFile [Converted native_poster])\<rparr>)"
proof -
  have nofit: "\<not> fit_to_page native_settings"
    by (simp add: native_settings_def default_settings_def)
  have enc: "encodable permissive (int (img_width poster_image)) (int (img_height poster_image))"
    by (simp add: permissive_def poster_image_def)
  show ?thesis
    using unfitted_image_at_origin [OF nofit, of poster_image permissive "''in/poster.jpg''" image_world
        "''temp_poster.jpg.pdf''"] Image_open_poster enc
    by (simp add: write_file_def permissive_def image_world_def poster_image_def native_poster_def
        native_settings_def default_settings_def)
qed



section \<open>The claims about \<open>merge_all_to_pdf\<close> and the main block\<close>




text \<open>
  A temporary file is recorded only after \<open>merger.append\<close> has returned. When the append
  of a temporary file raises (here: the file may be written but not read), the file is
  on disk and not in \<open>temp_files\<close>; the clean-up leaves it, although it may be removed.
\<close>

lemma unrecorded_temp_file_stays:
  "fs folder_world ''temp_a.png.pdf'' = None \<and>
   removable unreadable_temp ''temp_a.png.pdf'' \<and>
   temp_files (snd (merge_all_to_pdf unreadable_temp ''in'' ''out.pdf'' default_settings folder_world)) = [] \<and>
   fs (world (snd (merge_all_to_pdf unreadable_temp ''in'' ''out.pdf'' default_settings folder_world)))
     ''temp_a.png.pdf'' = Some (PdfFile [Converted fitted_square]) \<and>
   stdout (world (snd (merge_all_to_pdf unreadable_temp ''in'' ''out.pdf'' default_settings folder_world))) =
     [Error_occurred PermissionError]"
  by (simp add: run_defs geometry_defs example_defs unreadable_temp_def)

text \<open>
  Claim C4, as amended. No exception leaves \<open>merge_all_to_pdf\<close>, and the function returns
  no value: a failure is reported by the printed line "Error occurred" and by nothing
  else. A failure of the listing, of the append of a document, of the conversion of an
  image or the append of its temporary file, or of the final write is caught and printed
  so, and the clean-up runs before the function returns: the merger is closed, and each
  temporary file recorded up to the failure is removed unless its removal fails.
\<close>

theorem failures_caught_and_cleaned:
  "fst (merge_all_to_pdf E input_folder output_pdf opts w) = None \<and>
   (\<forall>e. os_listdir E input_folder w = Inl e \<longrightarrow>
      snd (merge_all_to_pdf E input_folder output_pdf opts w) =
        \<lparr>merger = [], temp_files = [], world = print (Error_occurred e) w\<rparr>) \<and>
   (\<forall>names finished f rest md wc e.
      os_listdir E input_folder w = Inr names \<and> sort names = finished @ f # rest \<and>
      process_files E opts input_folder finished (initial_locals w) = (None, md) \<and>
      (classify f = DocumentKind \<and> merger_append E (os_path_join input_folder f) md = Inl e \<or>
       classify f = ImageKind \<and>
         convert_image_to_pdf E (os_path_join input_folder f) (temp_name f) opts (world md) = Inl e \<or>
       classify f = ImageKind \<and>
         convert_image_to_pdf E (os_path_join input_folder f) (temp_name f) opts (world md) = Inr wc \<and>
         merger_append E (temp_name f) (md\<lparr>world := wc\<rparr>) = Inl e) \<longrightarrow>
      stdout (world (snd (merge_all_to_pdf E input_folder output_pdf opts w))) =
        stdout w @ [Error_occurred e] \<and>
      temp_files (snd (merge_all_to_pdf E input_folder output_pdf opts w)) =
        map temp_name (filter (\<lambda>f. classify f = ImageKind) finished)) \<and>
   (\<forall>names mw e.
      os_listdir E input_folder w = Inr names \<and>
      process_files E opts input_folder (sort names) (initial_locals w) = (None, mw) \<and>
      merger_write E output_pdf mw = Inl e \<longrightarrow>
      stdout (world (snd (merge_all_to_pdf E input_folder output_pdf opts w))) =
        stdout w @ [Error_occurred e] \<and>
      temp_files (snd (merge_all_to_pdf E input_folder output_pdf opts w)) =
        map temp_name (filter (\<lambda>f. classify f = ImageKind) (sort names))) \<and>
   (\<forall>p \<in> set (temp_files (snd (merge_all_to_pdf E input_folder output_pdf opts w))).
      removable E (canon E p) \<longrightarrow>
      fs (world (snd (merge_all_to_pdf E input_folder output_pdf opts w))) (canon E p) = None) \<and>
   merger (snd (merge_all_to_pdf E input_folder output_pdf opts w)) = []"
proof (intro conjI allI impI ballI)
  show "fst (merge_all_to_pdf E input_folder output_pdf opts w) = None"
    by (cases "try_block E input_folder output_pdf opts (initial_locals w)")
      (simp add: merge_all_to_pdf_after_try)
  show "merger (snd (merge_all_to_pdf E input_folder output_pdf opts w)) = []"
    by (cases "try_block E input_folder output_pdf opts (initial_locals w)")
      (simp add: merge_all_to_pdf_after_try)
next
  fix e assume "os_listdir E input_folder w = Inl e"
  then show "snd (merge_all_to_pdf E input_folder output_pdf opts w) =
        \<lparr>merger = [], temp_files = [], world = print (Error_occurred e) w\<rparr>"
    by (simp add: listing_failed)
next
  fix names finished f rest md wc e
  assume a: "os_listdir E input_folder w = Inr names \<and> sort names = finished @ f # rest \<and>
      process_files E opts input_folder finished (initial_locals w) = (None, md) \<and>
      (classify f = DocumentKind \<and> merger_append E (os_path_join input_folder f) md = Inl e \<or>
       classify f = ImageKind \<and>
         convert_image_to_pdf E (os_path_join input_folder f) (temp_name f) opts (world md) = Inl e \<or>
       classify f = ImageKind \<and>
         convert_image_to_pdf E (os_path_join input_folder f) (temp_name f) opts (world md) = Inr wc \<and>
         merger_append E (temp_name f) (md\<lparr>world := wc\<rparr>) = Inl e)"
  then have pf: "fst (process_file E opts input_folder f md) = Some e"
    using process_file_raises by blast
  from a have pd: "process_files E opts input_folder finished (initial_locals w) = (None, md)"
    and li: "os_listdir E input_folder w = Inr names"
    and so: "sort names = finished @ f # rest" by simp_all
  have d: "fst (process_files E opts input_folder finished (initial_locals w)) = None"
    by (simp add: pd)
  have r: "f # rest = [] \<or>
       fst (process_file E opts input_folder (hd (f # rest))
              (snd (process_files E opts input_folder finished (initial_locals w)))) \<noteq> None"
    by (simp add: pd pf)
  have "fst (process_files E opts input_folder (sort names) (initial_locals w)) = Some e"
    using process_files_stopped(2)[OF d r] by (simp add: so pd pf)
  with li show "stdout (world (snd (merge_all_to_pdf E input_folder output_pdf opts w))) =
        stdout w @ [Error_occurred e]"
    by (rule loop_failed)
  show "temp_files (snd (merge_all_to_pdf E input_folder output_pdf opts w)) =
        map temp_name (filter (\<lambda>f. classify f = ImageKind) finished)"
    using li so d r by (rule recorded_on_every_run)
next
  fix names mw e
  assume a: "os_listdir E input_folder w = Inr names \<and>
      process_files E opts input_folder (sort names) (initial_locals w) = (None, mw) \<and>
      merger_write E output_pdf mw = Inl e"
  then show "stdout (world (snd (merge_all_to_pdf E input_folder output_pdf opts w))) =
        stdout w @ [Error_occurred e]"
    using write_failed[of E input_folder w names opts output_pdf e] by simp
  from a have "sort names = sort names @ []"
    "fst (process_files E opts input_folder (sort names) (initial_locals w)) = None"
    "([]::string list) = [] \<or>
       fst (process_file E opts input_folder (hd [])
              (snd (process_files E opts input_folder (sort names) (initial_locals w)))) \<noteq> None"
    by simp_all
  with a show "temp_files (snd (merge_all_to_pdf E input_folder output_pdf opts w)) =
        map temp_name (filter (\<lambda>f. classify f = ImageKind) (sort names))"
    using recorded_on_every_run[of E input_folder w names "sort names" "[]" opts output_pdf] by blast
next
  fix p
  assume "p \<in> set (temp_files (snd (merge_all_to_pdf E input_folder output_pdf opts w)))"
    "removable E (canon E p)"
  then show "fs (world (snd (merge_all_to_pdf E input_folder output_pdf opts w))) (canon E p) = None"
    by (rule merge_temps_removed)
qed

theorem failures_caught_and_cleaned_witness:
  "fst (merge_all_to_pdf permissive ''in'' ''out.pdf'' default_settings image_world) = None \<and>
   stdout (world (snd (merge_all_to_pdf permissive ''in'' ''out.pdf'' default_settings image_world))) =
     [Error_occurred ValueError] \<and>
   temp_files (snd (merge_all_to_pdf permissive ''in'' ''out.pdf'' default_settings image_world)) =
     [''temp_a.png.pdf'', ''temp_poster.jpg.pdf''] \<and>
   fs (world (snd (merge_all_to_pdf permissive ''in'' ''out.pdf'' default_settings image_world)))
     ''temp_a.png.pdf'' = None \<and>
   snd (merge_all_to_pdf permissive ''in'' ''out.pdf'' default_settings bare_world) =
     \<lparr>merger = [], temp_files = [], world = print (Error_occurred FileNotFoundError) bare_world\<rparr> \<and>
   stdout (world (snd (merge_all_to_pdf permissive ''in'' ''in'' default_settings folder_world))) =
     [Error_occurred IsADirectoryError] \<and>
   fs (world (snd (merge_all_to_pdf permissive ''in'' ''in'' default_settings folder_world)))
     ''temp_c.jpg.pdf'' = None"
proof -
  let ?run = "\<lambda>w. merge_all_to_pdf permissive ''in'' ''out.pdf'' default_settings w"
  let ?md = "snd (process_files permissive default_settings ''in'' [''a.png'', ''poster.jpg'']
                 (initial_locals image_world))"
  note T = failures_caught_and_cleaned [of permissive "''in''" _ default_settings]
  have li: "os_listdir permissive ''in'' image_world = Inr [''wide.png'', ''a.png'', ''poster.jpg'']"
    by (simp add: os_listdir_def permissive_def strip_dot_def image_world_def)
  have so: "sort [''wide.png'', ''a.png'', ''poster.jpg''] = [''a.png'', ''poster.jpg''] @ ''wide.png'' # []"
    by simp
  have "fst (process_files permissive default_settings ''in'' [''a.png'', ''poster.jpg'']
              (initial_locals image_world)) = None"
    by (simp add: run_defs geometry_defs example_defs)
  then have pd: "process_files permissive default_settings ''in'' [''a.png'', ''poster.jpg'']
              (initial_locals image_world) = (None, ?md)"
    by (simp add: prod_eq_iff)
  have cv: "convert_image_to_pdf permissive (os_path_join ''in'' ''wide.png'') (temp_name ''wide.png'')
              default_settings (world ?md) = Inl ValueError"
    by (simp add: run_defs geometry_defs example_defs)
  have s: "stdout image_world = []" by (simp add: image_world_def)
  note A = T [of "''out.pdf''" image_world, THEN conjunct2, THEN conjunct2, THEN conjunct1, rule_format,
      where finished = "[''a.png'', ''poster.jpg'']" and f = "''wide.png''" and rest = "[]"
        and md = ?md and e = ValueError]
  have run: "stdout (world (snd (?run image_world))) = [Error_occurred ValueError] \<and>
      temp_files (snd (?run image_world)) = [''temp_a.png.pdf'', ''temp_poster.jpg.pdf'']"
    using A li so pd cv by (simp add: kinds_folder kinds_images temp_name_def s)
  have rm: "removable permissive (canon permissive p)" for p
    by (simp add: permissive_def)
  have c: "canon permissive ''temp_a.png.pdf'' = ''temp_a.png.pdf''"
    "canon permissive ''temp_c.jpg.pdf'' = ''temp_c.jpg.pdf''"
    by (simp_all add: permissive_def strip_dot_def)
  note R = T [THEN conjunct2, THEN conjunct2, THEN conjunct2, THEN conjunct2, THEN conjunct1,
      rule_format, OF _ rm]
  have gone: "fs (world (snd (?run image_world))) ''temp_a.png.pdf'' = None"
    using R [of "''temp_a.png.pdf''" "''out.pdf''" image_world] run unfolding c by simp
  have lb: "os_listdir permissive ''in'' bare_world = Inl FileNotFoundError"
    by (simp add: os_listdir_def bare_world_def)
  have bare: "snd (?run bare_world) =
     \<lparr>merger = [], temp_files = [], world = print (Error_occurred FileNotFoundError) bare_world\<rparr>"
    using T [of "''out.pdf''" bare_world, THEN conjunct2, THEN conjunct1, rule_format, OF lb] .
  let ?mw = "snd (process_files permissive default_settings ''in'' (sort [''c.jpg'', ''notes.txt'', ''b.pdf'', ''a.png''])
                 (initial_locals folder_world))"
  have lf: "os_listdir permissive ''in'' folder_world = Inr [''c.jpg'', ''notes.txt'', ''b.pdf'', ''a.png'']"
    by (simp add: os_listdir_def permissive_def strip_dot_def folder_world_def)
  have "fst (process_files permissive default_settings ''in'' (sort [''c.jpg'', ''notes.txt'', ''b.pdf'', ''a.png''])
                 (initial_locals folder_world)) = None"
    by (simp add: run_defs geometry_defs example_defs)
  then have pf: "process_files permissive default_settings ''in'' (sort [''c.jpg'', ''notes.txt'', ''b.pdf'', ''a.png''])
                 (initial_locals folder_world) = (None, ?mw)"
    by (simp add: prod_eq_iff)
  have wr: "merger_write permissive ''in'' ?mw = Inl IsADirectoryError"
    by (simp add: run_defs geometry_defs example_defs)
  have sf: "stdout folder_world = []" by (simp add: folder_world_def)
  note W = T [of "''in''" folder_world, THEN conjunct2, THEN conjunct2, THEN conjunct2, THEN conjunct1,
      rule_format, where names = "[''c.jpg'', ''notes.txt'', ''b.pdf'', ''a.png'']" and mw = ?mw
        and e = IsADirectoryError]
  have wrun: "stdout (world (snd (merge_all_to_pdf permissive ''in'' ''in'' default_settings folder_world))) =
       [Error_occurred IsADirectoryError] \<and>
     temp_files (snd (merge_all_to_pdf permissive ''in'' ''in'' default_settings folder_world)) =
       [''temp_a.png.pdf'', ''temp_c.jpg.pdf'']"
    using W lf pf wr by (simp add: kinds_folder temp_name_def sf)
  have wgone: "fs (world (snd (merge_all_to_pdf permissive ''in'' ''in'' default_settings folder_world)))
     ''temp_c.jpg.pdf'' = None"
    using R [of "''temp_c.jpg.pdf''" "''in''" folder_world] wrun unfolding c by simp
  from T [of "''out.pdf''" image_world, THEN conjunct1] run gone bare wrun wgone
  show ?thesis by simp
qed

text \<open>
  Claim C4 as stated fails: a failure is not reported as a result. The function has no
  \<open>return\<close> statement; the call on a folder with an image that cannot be converted comes
  back to the caller as the call on a folder that merges well does, with no exception and
  no value, and the two differ in the line printed only.
\<close>

theorem failure_not_in_result:
  "fst (merge_all_to_pdf permissive ''in'' ''out.pdf'' default_settings image_world) =
   fst (merge_all_to_pdf permissive ''in'' ''out.pdf'' default_settings folder_world) \<and>
   fst (merge_all_to_pdf permissive ''in'' ''out.pdf'' default_settings image_world) = None \<and>
   stdout (world (snd (merge_all_to_pdf permissive ''in'' ''out.pdf'' default_settings image_world))) =
     [Error_occurred ValueError] \<and>
   fs (world (snd (merge_all_to_pdf permissive ''in'' ''out.pdf'' default_settings image_world)))
     ''out.pdf'' = None \<and>
   stdout (world (snd (merge_all_to_pdf permissive ''in'' ''out.pdf'' default_settings folder_world))) =
     [Successfully_created ''out.pdf'']"
  by (simp add: run_defs geometry_defs example_defs)

text \<open>
  Claim C9. When the input directory \<open>Experience\<close> does not exist and may be created, the
  main block creates it, prints the two lines that tell the user to fill it and run the
  script again, and ends: nothing is merged and no other file, the output file
  included, is written.
\<close>

theorem main_creates_missing_directory:
  assumes "\<not> os_path_exists E input_directory w"
    and "writable E (canon E input_directory)"
  shows "main E w =
           (None, w\<lparr>fs := (fs w)(canon E input_directory \<mapsto> Directory []),
                    stdout := stdout w @ [Created_input_directory input_directory, Please_add_files]\<rparr>) \<and>
         (canon E output_pdf_file \<noteq> canon E input_directory \<longrightarrow>
            fs (snd (main E w)) (canon E output_pdf_file) = fs w (canon E output_pdf_file)) \<and>
         (\<forall>l. l \<noteq> canon E input_directory \<longrightarrow> fs (snd (main E w)) l = fs w l)"
  using assms
  by (simp add: main_def os_path_exists_def os_makedirs_def print_def)

theorem main_creates_missing_directory_witness:
  "fst (main permissive bare_world) = None \<and>
   fs (snd (main permissive bare_world)) ''Experience'' = Some (Directory []) \<and>
   fs (snd (main permissive bare_world)) ''Experience.pdf'' = None \<and>
   stdout (snd (main permissive bare_world)) = [Created_input_directory ''Experience'', Please_add_files]"
proof -
  have a: "\<not> os_path_exists permissive input_directory bare_world"
    by (simp add: os_path_exists_def bare_world_def)
  have b: "writable permissive (canon permissive input_directory)"
    by (simp add: permissive_def)
  have c: "canon permissive input_directory = ''Experience''"
    by (simp add: permissive_def strip_dot_def input_directory_def)
  show ?thesis
    using main_creates_missing_directory [OF a b] unfolding c
    by (simp add: bare_world_def input_directory_def)
qed

section \<open>The claims about the entries of the folder and the pages of the output\<close>

text \<open>
  Claim C1, as amended. When the run succeeds and no temporary file of the run is the
  same file as an entry of the input folder, the document written to the output path is
  the concatenation, in ascending order of the file names, of the pages of the recognised
  entries as they are before the run: each Document gives its pages in their order, each
  Image gives exactly one converted page; so the number of pages is the sum of the
  Documents' page counts plus the number of Images. The document is there after the
  clean-up unless the output path is itself one of the temporary files.
\<close>

theorem output_is_concatenation:
  assumes listing: "os_listdir E input_folder w = Inr names"
    and success: "stdout (world (snd (merge_all_to_pdf E input_folder output_pdf opts w))) =
                  stdout w @ [Successfully_created output_pdf]"
    and apart: "\<forall>f \<in> set names. \<forall>g \<in> set names. classify f = ImageKind \<longrightarrow>
                  canon E (temp_name f) \<noteq> canon E (os_path_join input_folder g)"
  shows "(\<exists>m. try_block E input_folder output_pdf opts (initial_locals w) = (None, m) \<and>
              fs (world m) (canon E output_pdf) =
                Some (PdfFile (expected_output E opts input_folder w names))) \<and>
         ((\<forall>f \<in> set names. classify f = ImageKind \<longrightarrow>
              canon E (temp_name f) \<noteq> canon E output_pdf) \<longrightarrow>
          fs (world (snd (merge_all_to_pdf E input_folder output_pdf opts w))) (canon E output_pdf) =
            Some (PdfFile (expected_output E opts input_folder w names))) \<and>
         (\<forall>f \<in> set names. classify f = ImageKind \<longrightarrow>
            length (contribution E opts input_folder w f) = 1) \<and>
         length (expected_output E opts input_folder w names) =
           sum_list (map (\<lambda>f. length (contribution E opts input_folder w f))
                      (filter (\<lambda>f. classify f = DocumentKind) names)) +
           length (filter (\<lambda>f. classify f = ImageKind) names)"
proof -
  let ?m0 = "initial_locals w"
  obtain r m where t: "try_block E input_folder output_pdf opts ?m0 = (r, m)"
    by (cases "try_block E input_folder output_pdf opts ?m0")
  have r: "r = None"
    using merge_all_to_pdf_stdout[OF t] success by (cases r) simp_all
  have w0: "world ?m0 = w" "merger ?m0 = []" "temp_files ?m0 = []"
    by (simp_all add: initial_locals_def)
  from t listing have ml: "merge_listing E input_folder output_pdf opts names ?m0 = (None, m)"
    by (simp add: try_block_def r w0(1))
  from ml obtain m1 where
    loop: "process_files E opts input_folder (sort names) ?m0 = (None, m1)"
    and m: "m = m1\<lparr>world := print (Successfully_created output_pdf)
                 ((world m1)\<lparr>fs := (fs (world m1))(canon E output_pdf \<mapsto> PdfFile (merger m1))\<rparr>)\<rparr>"
    by (cases rule: merge_listing_cases) auto
  have apart': "\<forall>f \<in> set (sort names). \<forall>g \<in> set (sort names). classify f = ImageKind \<longrightarrow>
                  canon E (temp_name f) \<noteq> canon E (os_path_join input_folder g)"
    using apart by simp
  note L = process_files_None[OF loop apart']
  have pages: "merger m1 = expected_output E opts input_folder w names"
    using L by (simp add: w0 expected_output_def)
  have temps: "temp_files m1 = map temp_name (filter (\<lambda>f. classify f = ImageKind) (sort names))"
    using L by (simp add: w0)
  have ones: "\<forall>f \<in> set names. classify f = ImageKind \<longrightarrow>
            length (contribution E opts input_folder w f) = 1"
    using L by (simp add: w0)
  have written: "fs (world m) (canon E output_pdf) =
      Some (PdfFile (expected_output E opts input_folder w names))"
    by (simp add: m print_def pages)
  have tried: "\<exists>m. try_block E input_folder output_pdf opts (initial_locals w) = (None, m) \<and>
      fs (world m) (canon E output_pdf) =
        Some (PdfFile (expected_output E opts input_folder w names))"
    using t r written by blast
  have out: "fs (world (snd (merge_all_to_pdf E input_folder output_pdf opts w))) (canon E output_pdf) =
           Some (PdfFile (expected_output E opts input_folder w names))"
    if out_apart: "\<forall>f \<in> set names. classify f = ImageKind \<longrightarrow>
                  canon E (temp_name f) \<noteq> canon E output_pdf"
  proof -
    have notin: "canon E output_pdf \<notin> canon E ` set (temp_files m)"
      using out_apart by (auto simp: m temps)
    have "fs (world (snd (merge_all_to_pdf E input_folder output_pdf opts w))) (canon E output_pdf) =
        fs (world m) (canon E output_pdf)"
      by (simp add: merge_all_to_pdf_after_try[OF t] r remove_temp_files_untouched[OF notin])
    then show ?thesis by (simp add: written)
  qed
  have "length (expected_output E opts input_folder w names) =
        sum_list (map (\<lambda>f. length (contribution E opts input_folder w f)) (sort names))"
    by (simp add: expected_output_def length_concat comp_def)
  also have "\<dots> = sum_list (map (\<lambda>f. length (contribution E opts input_folder w f)) names)"
    by (rule sum_list_map_sort)
  also have "\<dots> = sum_list (map (\<lambda>f. length (contribution E opts input_folder w f))
                      (filter (\<lambda>f. classify f = DocumentKind) names)) +
           length (filter (\<lambda>f. classify f = ImageKind) names)"
    using ones by (intro count_by_kind) (simp_all add: contribution_Ignored)
  finally show ?thesis using tried out ones by blast
qed

theorem output_is_concatenation_witness:
  "fs (world (snd (merge_all_to_pdf permissive ''in'' ''out.pdf'' default_settings folder_world)))
     (canon permissive ''out.pdf'') =
     Some (PdfFile [Converted fitted_square, Original 1, Original 2, Converted fitted_banner]) \<and>
   length (expected_output permissive default_settings ''in'' folder_world
             [''c.jpg'', ''notes.txt'', ''b.pdf'', ''a.png'']) = 2 + 2"
proof -
  let ?names = "[''c.jpg'', ''notes.txt'', ''b.pdf'', ''a.png'']"
  have listing: "os_listdir permissive ''in'' folder_world = Inr ?names"
    by (simp add: os_listdir_def permissive_def strip_dot_def folder_world_def)
  have success: "stdout (world (snd (merge_all_to_pdf permissive ''in'' ''out.pdf'' default_settings folder_world))) =
      stdout folder_world @ [Successfully_created ''out.pdf'']"
    by (simp add: run_defs geometry_defs example_defs)
  have apart: "\<forall>f \<in> set ?names. \<forall>g \<in> set ?names. classify f = ImageKind \<longrightarrow>
      canon permissive (temp_name f) \<noteq> canon permissive (os_path_join ''in'' g)"
    by (simp add: kinds_folder temp_name_def permissive_def strip_dot_def os_path_join_def endswith_def)
  have out_apart: "\<forall>f \<in> set ?names. classify f = ImageKind \<longrightarrow>
      canon permissive (temp_name f) \<noteq> canon permissive ''out.pdf''"
    by (simp add: kinds_folder temp_name_def permissive_def strip_dot_def)
  have expected: "expected_output permissive default_settings ''in'' folder_world ?names =
      [Converted fitted_square, Original 1, Original 2, Converted fitted_banner]"
    by (simp add: expected_output_def contribution_def kinds_folder render_def to_RGB_def
        geometry_defs example_defs strip_dot_def)
  have docs: "sum_list (map (\<lambda>f. length (contribution permissive default_settings ''in'' folder_world f))
                 (filter (\<lambda>f. classify f = DocumentKind) ?names)) = 2"
    by (simp add: contribution_def kinds_folder example_defs strip_dot_def)
  have imgs: "length (filter (\<lambda>f. classify f = ImageKind) ?names) = 2"
    by (simp add: kinds_folder)
  from output_is_concatenation [OF listing success apart, THEN conjunct2] out_apart
  show ?thesis unfolding expected docs imgs by simp
qed

text \<open>
  Claim C1 as stated fails for an input folder that is the working directory: the
  temporary file of \<open>a.png\<close> is written to \<open>temp_a.png.pdf\<close> in the working directory and
  replaces the document of that name in the folder before the loop reaches it. The run
  reports success with two pages, both the converted image, where the claim expects the
  converted image and the three pages of the document; the clean-up then removes the file.
\<close>

theorem temp_file_replaces_document:
  "os_listdir permissive ''.'' alias_world = Inr [''temp_a.png.pdf'', ''a.png''] \<and>
   stdout (world (snd (merge_all_to_pdf permissive ''.'' ''out.pdf'' default_settings alias_world))) =
     [Successfully_created ''out.pdf''] \<and>
   fs (world (snd (merge_all_to_pdf permissive ''.'' ''out.pdf'' default_settings alias_world))) ''out.pdf'' =
     Some (PdfFile [Converted fitted_square, Converted fitted_square]) \<and>
   expected_output permissive default_settings ''.'' alias_world [''temp_a.png.pdf'', ''a.png''] =
     [Converted fitted_square, Original 1, Original 2, Original 3] \<and>
   fs (world (snd (merge_all_to_pdf permissive ''.'' ''out.pdf'' default_settings alias_world)))
     ''temp_a.png.pdf'' = None"
  by (simp add: run_defs geometry_defs example_defs alias_world_def names_alias kinds_folder
      expected_output_def contribution_def)

text \<open>
  Claim C6. An entry is classified by the suffix of its name in lower case, so without
  regard to case, as exactly one of Document (\<open>.pdf\<close>), Image (one of the six image
  suffixes) or Ignored (neither); the loop treats it by that kind. An Ignored entry
  contributes no page and cannot make the run fail: the run is the run on the listing
  without the Ignored entries.
\<close>

theorem entries_classified_by_suffix:
  "(classify f = DocumentKind \<longleftrightarrow> suffix ''.pdf'' (lower f)) \<and>
   (classify f = ImageKind \<longleftrightarrow>
      (\<exists>ext \<in> {''.jpg'', ''.jpeg'', ''.png'', ''.gif'', ''.bmp'', ''.tiff''}. suffix ext (lower f))) \<and>
   (classify f = IgnoredKind \<longleftrightarrow>
      \<not> suffix ''.pdf'' (lower f) \<and>
      \<not> (\<exists>ext \<in> {''.jpg'', ''.jpeg'', ''.png'', ''.gif'', ''.bmp'', ''.tiff''}. suffix ext (lower f))) \<and>
   (lower f = lower g \<longrightarrow> classify f = classify g) \<and>
   process_file E opts input_folder f m =
     (case classify f of
        DocumentKind \<Rightarrow> add_pdf E (os_path_join input_folder f) m
      | ImageKind \<Rightarrow> add_image E opts (os_path_join input_folder f) f m
      | IgnoredKind \<Rightarrow> (None, m)) \<and>
   (classify f = IgnoredKind \<longrightarrow> contribution E opts input_folder w f = []) \<and>
   merge_from_listing E input_folder output_pdf opts names w =
     merge_from_listing E input_folder output_pdf opts
       (filter (\<lambda>f. classify f \<noteq> IgnoredKind) names) w \<and>
   (os_listdir E input_folder w = Inr names \<longrightarrow>
      merge_all_to_pdf E input_folder output_pdf opts w =
      merge_from_listing E input_folder output_pdf opts
        (filter (\<lambda>f. classify f \<noteq> IgnoredKind) names) w)"
proof -
  have exts: "set image_extensions = {''.jpg'', ''.jpeg'', ''.png'', ''.gif'', ''.bmp'', ''.tiff''}"
    by (simp add: image_extensions_def)
  have doc: "classify f = DocumentKind \<longleftrightarrow> suffix ''.pdf'' (lower f)"
    by (simp add: classify_Document is_pdf_name_def endswith_def)
  have img: "classify f = ImageKind \<longleftrightarrow>
      (\<exists>ext \<in> {''.jpg'', ''.jpeg'', ''.png'', ''.gif'', ''.bmp'', ''.tiff''}. suffix ext (lower f))"
    unfolding exts[symmetric]
    by (simp add: classify_Image is_image_name_def endswith_def list_ex_iff)
  have ign: "classify f = IgnoredKind \<longleftrightarrow>
      \<not> suffix ''.pdf'' (lower f) \<and>
      \<not> (\<exists>ext \<in> {''.jpg'', ''.jpeg'', ''.png'', ''.gif'', ''.bmp'', ''.tiff''}. suffix ext (lower f))"
    unfolding exts[symmetric]
    by (simp add: classify_Ignored is_pdf_name_def is_image_name_def endswith_def list_ex_iff)
  have ci: "lower f = lower g \<longrightarrow> classify f = classify g"
    by (simp add: classify_def)
  have run: "os_listdir E input_folder w = Inr names \<longrightarrow>
      merge_all_to_pdf E input_folder output_pdf opts w =
      merge_from_listing E input_folder output_pdf opts
        (filter (\<lambda>f. classify f \<noteq> IgnoredKind) names) w"
    by (simp add: merge_all_to_pdf_from_listing merge_from_listing_filter)
  have no_pages: "classify f = IgnoredKind \<longrightarrow> contribution E opts input_folder w f = []"
    by (simp add: contribution_Ignored)
  note pf = process_file_by_kind[of E opts input_folder f m]
  note mf = merge_from_listing_filter[of E input_folder output_pdf opts names w, symmetric]
  show ?thesis
    by (intro conjI) (fact doc img ign ci pf no_pages mf run)+
qed

theorem entries_classified_by_suffix_witness:
  "classify ''Scan.PDF'' = DocumentKind \<and> classify ''photo.JPeG'' = ImageKind \<and>
   classify ''notes.txt'' = IgnoredKind \<and>
   merge_all_to_pdf permissive ''in'' ''out.pdf'' default_settings folder_world =
     merge_from_listing permissive ''in'' ''out.pdf'' default_settings
       [''c.jpg'', ''b.pdf'', ''a.png''] folder_world"
proof -
  let ?names = "[''c.jpg'', ''notes.txt'', ''b.pdf'', ''a.png'']"
  have listing: "os_listdir permissive ''in'' folder_world = Inr ?names"
    by (simp add: os_listdir_def permissive_def strip_dot_def folder_world_def)
  have kept: "filter (\<lambda>f. classify f \<noteq> IgnoredKind) ?names = [''c.jpg'', ''b.pdf'', ''a.png'']"
    by (simp add: kinds_folder)
  have d: "suffix ''.pdf'' (lower ''Scan.PDF'')" by code_simp
  have i: "\<exists>ext \<in> {''.jpg'', ''.jpeg'', ''.png'', ''.gif'', ''.bmp'', ''.tiff''}.
             suffix ext (lower ''photo.JPeG'')" by code_simp
  note T = entries_classified_by_suffix [where E = permissive and opts = default_settings
        and input_folder = "''in''" and w = folder_world and output_pdf = "''out.pdf''"
        and names = ?names and m = "initial_locals folder_world"]
  have 1: "classify ''Scan.PDF'' = DocumentKind"
    by (rule iffD2 [OF T [where f = "''Scan.PDF''" and g = "''Scan.PDF''", THEN conjunct1] d])
  have 2: "classify ''photo.JPeG'' = ImageKind"
    by (rule iffD2 [OF T [where f = "''photo.JPeG''" and g = "''photo.JPeG''",
          THEN conjunct2, THEN conjunct1] i])
  have 3: "classify ''notes.txt'' = IgnoredKind" by (rule kinds_folder)
  have 4: "merge_all_to_pdf permissive ''in'' ''out.pdf'' default_settings folder_world =
     merge_from_listing permissive ''in'' ''out.pdf'' default_settings
       [''c.jpg'', ''b.pdf'', ''a.png''] folder_world"
    using T [where f = "''notes.txt''" and g = "''notes.txt''", THEN conjunct2, THEN conjunct2,
        THEN conjunct2, THEN conjunct2, THEN conjunct2, THEN conjunct2, THEN conjunct2,
        rule_format, OF listing]
    unfolding kept .
  show ?thesis by (intro conjI) (fact 1 2 3 4)+
qed

section \<open>The claim about subdirectories\<close>

text \<open>
  Claim C7, as amended. The traversal is not recursive: a run reads and writes nothing
  but the folder's listing, the entries of the listing that are not Ignored, their
  temporary files and the output, so what lies inside a subdirectory has no effect. A
  subdirectory whose name has no recognised suffix contributes no page and does not
  affect the run: the run is the run on the listing without it, in the world with or
  without it, and it is left as it is.
\<close>

theorem ignored_subdirectory_not_traversed:
  assumes listing: "os_listdir E input_folder w = Inr names"
    and subdir: "fs w (canon E (os_path_join input_folder d)) = Some (Directory sub)"
    and ignored: "classify d = IgnoredKind"
    and apart: "canon E (os_path_join input_folder d) \<notin> set (touched E input_folder output_pdf names)"
  shows "merge_all_to_pdf E input_folder output_pdf opts w =
           merge_from_listing E input_folder output_pdf opts (removeAll d names) w \<and>
         (\<forall>x. merge_from_listing E input_folder output_pdf opts (removeAll d names)
                (with_node (canon E (os_path_join input_folder d)) x w) =
              map_prod id (with_node_in (canon E (os_path_join input_folder d)) x)
                (merge_all_to_pdf E input_folder output_pdf opts w)) \<and>
         fs (world (snd (merge_all_to_pdf E input_folder output_pdf opts w)))
           (canon E (os_path_join input_folder d)) = Some (Directory sub) \<and>
         (\<forall>l x. l \<notin> set (touched E input_folder output_pdf names) \<longrightarrow>
            merge_all_to_pdf E input_folder output_pdf opts (with_node l x w) =
            map_prod id (with_node_in l x) (merge_all_to_pdf E input_folder output_pdf opts w))"
proof (intro conjI allI impI)
  let ?l = "canon E (os_path_join input_folder d)"
  show same: "merge_all_to_pdf E input_folder output_pdf opts w =
           merge_from_listing E input_folder output_pdf opts (removeAll d names) w"
    by (simp add: merge_all_to_pdf_from_listing[OF listing] merge_from_listing_removeAll[OF ignored])
  show "merge_from_listing E input_folder output_pdf opts (removeAll d names) (with_node ?l x w) =
        map_prod id (with_node_in ?l x) (merge_all_to_pdf E input_folder output_pdf opts w)" for x
  proof -
    have "?l \<notin> set (touched E input_folder output_pdf (removeAll d names))"
      using apart by (simp add: touched_removeAll[OF ignored])
    then show ?thesis unfolding same by (rule merge_from_listing_frame)
  qed
  show "fs (world (snd (merge_all_to_pdf E input_folder output_pdf opts w))) ?l = Some (Directory sub)"
    using merge_all_to_pdf_untouched[OF listing apart] subdir by simp
  show "merge_all_to_pdf E input_folder output_pdf opts (with_node l x w) =
        map_prod id (with_node_in l x) (merge_all_to_pdf E input_folder output_pdf opts w)"
    if "l \<notin> set (touched E input_folder output_pdf names)" for l x
    using listing that by (rule merge_all_to_pdf_frame)
qed

theorem ignored_subdirectory_not_traversed_witness:
  "merge_all_to_pdf permissive ''in'' ''out.pdf'' default_settings nested_world =
     merge_from_listing permissive ''in'' ''out.pdf'' default_settings [''b.pdf''] nested_world \<and>
   fs (world (snd (merge_all_to_pdf permissive ''in'' ''out.pdf'' default_settings nested_world)))
     ''in/photos'' = Some (Directory [''x.pdf'']) \<and>
   merge_all_to_pdf permissive ''in'' ''out.pdf'' default_settings
     (with_node ''in/photos/x.pdf'' None nested_world) =
     map_prod id (with_node_in ''in/photos/x.pdf'' None)
       (merge_all_to_pdf permissive ''in'' ''out.pdf'' default_settings nested_world) \<and>
   fs (world (snd (merge_all_to_pdf permissive ''in'' ''out.pdf'' default_settings nested_world)))
     ''out.pdf'' = Some (PdfFile [Original 1, Original 2])"
proof -
  let ?names = "[''photos'', ''b.pdf'']"
  have listing: "os_listdir permissive ''in'' nested_world = Inr ?names"
    by (simp add: os_listdir_def permissive_def strip_dot_def nested_world_def)
  have c: "canon permissive (os_path_join ''in'' ''photos'') = ''in/photos''"
    by (simp add: names_subdirs permissive_def strip_dot_def)
  have subdir: "fs nested_world (canon permissive (os_path_join ''in'' ''photos'')) =
      Some (Directory [''x.pdf''])"
    unfolding c by (simp add: nested_world_def)
  have ignored: "classify ''photos'' = IgnoredKind" by (rule names_subdirs)
  have t: "touched permissive ''in'' ''out.pdf'' ?names =
      [''in'', ''out.pdf'', ''in/b.pdf'', ''temp_b.pdf.pdf'']"
    by (simp add: touched_def names_subdirs kinds_folder joins_folder temp_name_def
        permissive_def strip_dot_def)
  have apart: "canon permissive (os_path_join ''in'' ''photos'') \<notin>
      set (touched permissive ''in'' ''out.pdf'' ?names)"
    unfolding c t by simp
  have inner: "''in/photos/x.pdf'' \<notin> set (touched permissive ''in'' ''out.pdf'' ?names)"
    unfolding t by simp
  have r: "removeAll ''photos'' ?names = [''b.pdf'']" by simp
  note T = ignored_subdirectory_not_traversed [OF listing subdir ignored apart, of default_settings]
  have 1: "merge_all_to_pdf permissive ''in'' ''out.pdf'' default_settings nested_world =
     merge_from_listing permissive ''in'' ''out.pdf'' default_settings [''b.pdf''] nested_world"
    using T [THEN conjunct1] unfolding r .
  have 2: "fs (world (snd (merge_all_to_pdf permissive ''in'' ''out.pdf'' default_settings nested_world)))
     ''in/photos'' = Some (Directory [''x.pdf''])"
    using T [THEN conjunct2, THEN conjunct2, THEN conjunct1] unfolding c .
  have 3: "merge_all_to_pdf permissive ''in'' ''out.pdf'' default_settings
     (with_node ''in/photos/x.pdf'' None nested_world) =
     map_prod id (with_node_in ''in/photos/x.pdf'' None)
       (merge_all_to_pdf permissive ''in'' ''out.pdf'' default_settings nested_world)"
    using T [THEN conjunct2, THEN conjunct2, THEN conjunct2, rule_format, OF inner] .
  have 4: "fs (world (snd (merge_all_to_pdf permissive ''in'' ''out.pdf'' default_settings nested_world)))
     ''out.pdf'' = Some (PdfFile [Original 1, Original 2])"
    by (simp add: run_defs example_defs names_subdirs nested_world_def)
  show ?thesis by (intro conjI) (fact 1 2 3 4)+
qed

text \<open>
  Claim C7 as stated fails: entries are told apart by the suffix of their name alone. A
  subdirectory named \<open>old.pdf\<close> is handed to \<open>merger.append\<close>, which raises; the run reports
  the error and writes no output, where the same folder without the subdirectory is
  merged into a document of two pages.
\<close>

theorem subdirectory_named_pdf_fails_run:
  "stdout (world (snd (merge_all_to_pdf permissive ''in'' ''out.pdf'' default_settings subdir_world))) =
     [Error_occurred IsADirectoryError] \<and>
   fs (world (snd (merge_all_to_pdf permissive ''in'' ''out.pdf'' default_settings subdir_world)))
     ''out.pdf'' = None \<and>
   stdout (world (snd (merge_all_to_pdf permissive ''in'' ''out.pdf'' default_settings plain_world))) =
     [Successfully_created ''out.pdf''] \<and>
   fs (world (snd (merge_all_to_pdf permissive ''in'' ''out.pdf'' default_settings plain_world)))
     ''out.pdf'' = Some (PdfFile [Original 1, Original 2])"
  by (simp add: run_defs example_defs names_subdirs subdir_world_def plain_world_def)

end
